theory Spec2Isabelle
  imports Main
begin

section \<open>Numbers and errors of the TypeScript source\<close>

text \<open>
  Gwei amounts are JavaScript \<open>bigint\<close> values: unbounded integers whose \<open>/\<close> and \<open>%\<close>
  truncate toward zero and throw a RangeError on a zero divisor. Epochs and validator
  indices are non-negative JavaScript numbers. Reading a property of \<open>undefined\<close> and
  mixing \<open>undefined\<close> into bigint arithmetic throw a TypeError.
\<close>

datatype error = TypeError | RangeError | IndexError | SlotBehind

definition bigint_div :: "int \<Rightarrow> int \<Rightarrow> error + int" where
  "bigint_div a b = (if b = 0 then Inl RangeError else Inr (sgn a * sgn b * (\<bar>a\<bar> div \<bar>b\<bar>)))"

definition bigint_rem :: "int \<Rightarrow> int \<Rightarrow> error + int" where
  "bigint_rem a b = (if b = 0 then Inl RangeError else Inr (sgn a * (\<bar>a\<bar> mod \<bar>b\<bar>)))"

text \<open>\<open>bigIntMin\<close> of lodestar-utils: the smaller of two bigints.\<close>

definition bigIntMin :: "int \<Rightarrow> int \<Rightarrow> int" where
  "bigIntMin a b = (if a < b then a else b)"

text \<open>\<open>intDiv\<close> of lodestar-utils: floor division of two non-negative numbers.\<close>

definition intDiv :: "nat \<Rightarrow> nat \<Rightarrow> nat" where
  "intDiv a b = a div b"

text \<open>Array read \<open>xs[i]\<close> and \<open>xs.get(i)\<close>: \<open>undefined\<close> (here \<open>None\<close>) out of range.\<close>

definition lookup :: "'a list \<Rightarrow> nat \<Rightarrow> 'a option" where
  "lookup xs i = (if i < length xs then Some (xs ! i) else None)"

section \<open>Constants\<close>

text \<open>
  The constants come from the package lodestar-params and from the chain configuration,
  neither of which is part of the sources at hand, so every function takes them as a
  parameter record.
\<close>

record params =
  EFFECTIVE_BALANCE_INCREMENT :: int
  MAX_EFFECTIVE_BALANCE :: int
  EJECTION_BALANCE :: int
  HYSTERESIS_QUOTIENT :: int
  HYSTERESIS_DOWNWARD_MULTIPLIER :: int
  HYSTERESIS_UPWARD_MULTIPLIER :: int
  PROPORTIONAL_SLASHING_MULTIPLIER :: int
  PROPORTIONAL_SLASHING_MULTIPLIER_ALTAIR :: int
  EPOCHS_PER_SLASHINGS_VECTOR :: nat
  FAR_FUTURE_EPOCH :: nat

text \<open>
  Modelled from the spec: the values of lodestar-params are missing. These are the values
  the scenarios of the specification compute with: an increment of 1 ETH
  (\<open>10^9\<close> Gwei), a maximum effective balance of 32 ETH, the phase 0 slashing multiplier 3,
  and the consensus constants for the hysteresis (quotient 4, downward 1, upward 5).
\<close>

definition scenario_params :: params where
  "scenario_params = \<lparr>
     EFFECTIVE_BALANCE_INCREMENT = 1000000000,
     MAX_EFFECTIVE_BALANCE = 32000000000,
     EJECTION_BALANCE = 16000000000,
     HYSTERESIS_QUOTIENT = 4,
     HYSTERESIS_DOWNWARD_MULTIPLIER = 1,
     HYSTERESIS_UPWARD_MULTIPLIER = 5,
     PROPORTIONAL_SLASHING_MULTIPLIER = 3,
     PROPORTIONAL_SLASHING_MULTIPLIER_ALTAIR = 2,
     EPOCHS_PER_SLASHINGS_VECTOR = 8192,
     FAR_FUTURE_EPOCH = 18446744073709551615 \<rparr>"

section \<open>State\<close>

datatype ForkName = phase0 | altair

record Validator =
  effectiveBalance :: int
  slashed :: bool
  activationEligibilityEpoch :: nat
  activationEpoch :: nat
  exitEpoch :: nat
  withdrawableEpoch :: nat

text \<open>One entry of an Altair participation list, as \<open>forEachStatus\<close> hands it over.\<close>

record ParticipationStatus =
  timelySource :: bool
  timelyTarget :: bool
  timelyHead :: bool

text \<open>
  The epoch context of a cached state: \<open>currentShuffling.epoch\<close>,
  \<open>previousShuffling.epoch\<close>, the effective balance vector and the churn limit.
\<close>

record EpochContext =
  currentShuffling_epoch :: nat
  previousShuffling_epoch :: nat
  effectiveBalances :: "int list"
  churnLimit :: nat

record BeaconState =
  slot :: nat
  validators :: "Validator list"
  balances :: "int list"
  slashings :: "int list"
  finalizedCheckpoint_epoch :: nat
  previousEpochParticipation :: "ParticipationStatus list"
  currentEpochParticipation :: "ParticipationStatus list"
  epochCtx :: EpochContext

text \<open>
  Modelled from the spec: the tree-backed validator list is missing. \<open>update(i, delta)\<close>
  replaces the named fields of entry \<open>i\<close> and leaves every other entry alone; an index
  beyond the list is reported as an error.
\<close>

definition updateValidator ::
  "nat \<Rightarrow> (Validator \<Rightarrow> Validator) \<Rightarrow> 'a BeaconState_scheme \<Rightarrow> error + 'a BeaconState_scheme" where
  "updateValidator i f s =
     (if i < length (validators s)
      then Inr (s\<lparr>validators := (validators s)[i := f (validators s ! i)]\<rparr>)
      else Inl IndexError)"

text \<open>A \<open>for ... of\<close> loop, or \<open>forEach\<close>, whose body may throw.\<close>

fun forEach :: "('a \<Rightarrow> 's \<Rightarrow> error + 's) \<Rightarrow> 'a list \<Rightarrow> 's \<Rightarrow> error + 's" where
  "forEach f [] s = Inr s"
| "forEach f (x # xs) s = (case f x s of Inl e \<Rightarrow> Inl e | Inr s' \<Rightarrow> forEach f xs s')"

text \<open>\<open>xs.forEach((x, i) => ...)\<close>: the elements with their positions.\<close>

definition indexed :: "'a list \<Rightarrow> (nat \<times> 'a) list" where
  "indexed xs = zip [0..<length xs] xs"

section \<open>Attester status and epoch summary\<close>

text \<open>
  Modelled from the spec: the module attesterStatus is missing. A status is a set of
  bit flags together with an \<open>active\<close> boolean; \<open>flags |= F\<close> adds the flag \<open>F\<close>, and
  \<open>hasMarkers(flags, M)\<close> holds when every flag of \<open>M\<close> is set.
\<close>

datatype flag =
    FLAG_UNSLASHED
  | FLAG_ELIGIBLE_ATTESTER
  | FLAG_PREV_SOURCE_ATTESTER
  | FLAG_PREV_TARGET_ATTESTER
  | FLAG_PREV_HEAD_ATTESTER
  | FLAG_CURR_SOURCE_ATTESTER
  | FLAG_CURR_TARGET_ATTESTER
  | FLAG_CURR_HEAD_ATTESTER

record IAttesterStatus =
  flags :: "flag set"
  active :: bool

definition createIAttesterStatus :: IAttesterStatus where
  "createIAttesterStatus = \<lparr>flags = {}, active = False\<rparr>"

definition hasMarkers :: "flag set \<Rightarrow> flag set \<Rightarrow> bool" where
  "hasMarkers fs markers = (markers \<subseteq> fs)"

record IEpochStakeSummary =
  sourceStake :: int
  targetStake :: int
  headStake :: int

record IEpochProcess =
  prevEpoch :: nat
  currentEpoch :: nat
  totalActiveStake :: int
  baseRewardPerIncrement :: int
  prevEpochUnslashedStake :: IEpochStakeSummary
  currEpochUnslashedTargetStake :: int
  indicesToSlash :: "nat list"
  indicesEligibleForActivationQueue :: "nat list"
  indicesEligibleForActivation :: "nat list"
  indicesToEject :: "nat list"
  nextEpochActiveValidatorIndices :: "nat list"
  statusesFlat :: "IAttesterStatus list"
  balancesFlat :: "int list"

text \<open>
  \<open>processRegistryUpdates\<close> and \<open>processEffectiveBalanceUpdates\<close> read two more fields
  of the summary, \<open>epochProcess.validators\<close> (the flat copy of the validators) and the
  optional \<open>epochProcess.balances\<close>, which the interface above does not declare.
\<close>

record FlatEpochProcess = IEpochProcess +
  flat_validators :: "Validator list"
  flat_balances :: "int list option"

text \<open>
  Functions of the repository that the sources at hand only import. They are parameters of
  the model: \<open>statusProcessEpoch\<close> receives the statuses, which of the two pending
  attestation lists it is given, the epoch and the three flags to set.
\<close>

datatype AttestationList = PreviousEpochAttestations | CurrentEpochAttestations

record 'a helpers =
  getForkName :: "nat \<Rightarrow> ForkName"
  isActiveValidator :: "Validator \<Rightarrow> nat \<Rightarrow> bool"
  computeBaseRewardPerIncrement :: "int \<Rightarrow> int"
  statusProcessEpoch ::
    "'a BeaconState_scheme \<Rightarrow> IAttesterStatus list \<Rightarrow> AttestationList \<Rightarrow> nat
       \<Rightarrow> flag \<Rightarrow> flag \<Rightarrow> flag \<Rightarrow> error + IAttesterStatus list"
  computeActivationExitEpoch :: "nat \<Rightarrow> nat"
  initiateValidatorExit :: "'a BeaconState_scheme \<Rightarrow> nat \<Rightarrow> error + 'a BeaconState_scheme"
  decreaseBalance :: "'a BeaconState_scheme \<Rightarrow> nat \<Rightarrow> int \<Rightarrow> error + 'a BeaconState_scheme"

section \<open>beforeProcessEpoch\<close>

text \<open>The locals that the scan over the validators fills.\<close>

record ScanLocals =
  scan_indicesToSlash :: "nat list"
  scan_indicesEligibleForActivationQueue :: "nat list"
  scan_indicesEligibleForActivation :: "nat list"
  scan_indicesToEject :: "nat list"
  scan_nextEpochActiveValidatorIndices :: "nat list"
  scan_statuses :: "IAttesterStatus list"
  scan_totalActiveStake :: int

definition scanInit :: ScanLocals where
  "scanInit = \<lparr>
     scan_indicesToSlash = [],
     scan_indicesEligibleForActivationQueue = [],
     scan_indicesEligibleForActivation = [],
     scan_indicesToEject = [],
     scan_nextEpochActiveValidatorIndices = [],
     scan_statuses = [],
     scan_totalActiveStake = 0 \<rparr>"

text \<open>The first statement of the loop body: the slashing bucket, or the unslashed flag.\<close>

definition scanSlashed ::
  "params \<Rightarrow> nat \<Rightarrow> nat \<Rightarrow> Validator \<Rightarrow> IAttesterStatus \<Rightarrow> ScanLocals \<Rightarrow> IAttesterStatus \<times> ScanLocals" where
  "scanSlashed P epoch i validator status L =
     (let slashingsEpoch = epoch + intDiv (EPOCHS_PER_SLASHINGS_VECTOR P) 2 in
      if slashed validator then
        (if slashingsEpoch = withdrawableEpoch validator
         then (status, L\<lparr>scan_indicesToSlash := scan_indicesToSlash L @ [i]\<rparr>)
         else (status, L))
      else (status\<lparr>flags := flags status \<union> {FLAG_UNSLASHED}\<rparr>, L))"

text \<open>The if/else ladder over the three registry buckets.\<close>

definition scanRegistry ::
  "params \<Rightarrow> nat \<Rightarrow> bool \<Rightarrow> nat \<Rightarrow> Validator \<Rightarrow> ScanLocals \<Rightarrow> ScanLocals" where
  "scanRegistry P epoch isActive i validator L =
     (if activationEligibilityEpoch validator = FAR_FUTURE_EPOCH P \<and>
         effectiveBalance validator = MAX_EFFECTIVE_BALANCE P
      then L\<lparr>scan_indicesEligibleForActivationQueue :=
                scan_indicesEligibleForActivationQueue L @ [i]\<rparr>
      else if activationEpoch validator = FAR_FUTURE_EPOCH P \<and>
              activationEligibilityEpoch validator \<le> epoch
      then L\<lparr>scan_indicesEligibleForActivation := scan_indicesEligibleForActivation L @ [i]\<rparr>
      else if isActive \<and> exitEpoch validator = FAR_FUTURE_EPOCH P \<and>
              effectiveBalance validator \<le> EJECTION_BALANCE P
      then L\<lparr>scan_indicesToEject := scan_indicesToEject L @ [i]\<rparr>
      else L)"

text \<open>One turn of the loop over the validators.\<close>

definition scanValidator ::
  "params \<Rightarrow> 'a helpers \<Rightarrow> nat \<Rightarrow> nat \<Rightarrow> ScanLocals \<Rightarrow> nat \<times> Validator \<Rightarrow> ScanLocals" where
  "scanValidator P H prev epoch L iv =
     (let i = fst iv; validator = snd iv;
          nextEpoch = epoch + 1;
          (status1, L1) = scanSlashed P epoch i validator createIAttesterStatus L;
          status2 =
            (if isActiveValidator H validator prev \<or>
                (slashed validator \<and> prev + 1 < withdrawableEpoch validator)
             then status1\<lparr>flags := flags status1 \<union> {FLAG_ELIGIBLE_ATTESTER}\<rparr>
             else status1);
          isActive = isActiveValidator H validator epoch;
          status3 = (if isActive then status2\<lparr>active := True\<rparr> else status2);
          L2 = (if isActive
                then L1\<lparr>scan_totalActiveStake := scan_totalActiveStake L1 + effectiveBalance validator\<rparr>
                else L1);
          L3 = scanRegistry P epoch isActive i validator L2;
          L4 = L3\<lparr>scan_statuses := scan_statuses L3 @ [status3]\<rparr>
      in if isActiveValidator H validator nextEpoch
         then L4\<lparr>scan_nextEpochActiveValidatorIndices :=
                    scan_nextEpochActiveValidatorIndices L4 @ [i]\<rparr>
         else L4)"

definition scanValidators ::
  "params \<Rightarrow> 'a helpers \<Rightarrow> nat \<Rightarrow> nat \<Rightarrow> Validator list \<Rightarrow> ScanLocals" where
  "scanValidators P H prev epoch vs =
     foldl (scanValidator P H prev epoch) scanInit (indexed vs)"

text \<open>
  The comparator handed to \<open>sort\<close>: the difference of the eligibility epochs, or, when
  that is zero, the difference of the indices. Every index of the list was pushed by the
  scan and so lies below \<open>validators.length\<close>.
\<close>

definition activationCompare :: "Validator list \<Rightarrow> nat \<Rightarrow> nat \<Rightarrow> int" where
  "activationCompare vs a b =
     (let d = int (activationEligibilityEpoch (vs ! a)) - int (activationEligibilityEpoch (vs ! b))
      in if d \<noteq> 0 then d else int a - int b)"

text \<open>
  \<open>Array.prototype.sort\<close> with a comparator, as a stable insertion sort: an element
  goes in front of the first one it does not compare greater than.
\<close>

fun insertBy :: "('a \<Rightarrow> 'a \<Rightarrow> int) \<Rightarrow> 'a \<Rightarrow> 'a list \<Rightarrow> 'a list" where
  "insertBy cmp x [] = [x]"
| "insertBy cmp x (y # ys) = (if cmp x y \<le> 0 then x # y # ys else y # insertBy cmp x ys)"

definition sortBy :: "('a \<Rightarrow> 'a \<Rightarrow> int) \<Rightarrow> 'a list \<Rightarrow> 'a list" where
  "sortBy cmp xs = foldr (insertBy cmp) xs []"

text \<open>\<open>statuses[i].flags |= fs\<close>, a TypeError when there is no status \<open>i\<close>.\<close>

definition orFlags :: "nat \<Rightarrow> flag set \<Rightarrow> IAttesterStatus list \<Rightarrow> error + IAttesterStatus list" where
  "orFlags i fs statuses =
     (if i < length statuses
      then Inr (statuses[i := (statuses ! i)\<lparr>flags := flags (statuses ! i) \<union> fs\<rparr>])
      else Inl TypeError)"

definition participationFlags :: "flag \<Rightarrow> flag \<Rightarrow> flag \<Rightarrow> ParticipationStatus \<Rightarrow> flag set" where
  "participationFlags sourceFlag targetFlag headFlag status =
     (if timelySource status then {sourceFlag} else {}) \<union>
     (if timelyTarget status then {targetFlag} else {}) \<union>
     (if timelyHead status then {headFlag} else {})"

text \<open>The Altair branch: \<open>forEachStatus\<close> over one participation list.\<close>

definition forEachStatus ::
  "flag \<Rightarrow> flag \<Rightarrow> flag \<Rightarrow> ParticipationStatus list \<Rightarrow> IAttesterStatus list
     \<Rightarrow> error + IAttesterStatus list" where
  "forEachStatus sourceFlag targetFlag headFlag participation statuses =
     forEach (\<lambda>(i, status). orFlags i (participationFlags sourceFlag targetFlag headFlag status))
       (indexed participation) statuses"

definition attributeParticipation ::
  "'a helpers \<Rightarrow> ForkName \<Rightarrow> 'a BeaconState_scheme \<Rightarrow> nat \<Rightarrow> nat \<Rightarrow> IAttesterStatus list
     \<Rightarrow> error + IAttesterStatus list" where
  "attributeParticipation H forkName state prev epoch statuses =
     (if forkName = phase0 then
        (case statusProcessEpoch H state statuses PreviousEpochAttestations prev
                FLAG_PREV_SOURCE_ATTESTER FLAG_PREV_TARGET_ATTESTER FLAG_PREV_HEAD_ATTESTER of
           Inl e \<Rightarrow> Inl e
         | Inr statuses' \<Rightarrow>
             statusProcessEpoch H state statuses' CurrentEpochAttestations epoch
               FLAG_CURR_SOURCE_ATTESTER FLAG_CURR_TARGET_ATTESTER FLAG_CURR_HEAD_ATTESTER)
      else
        (case forEachStatus FLAG_PREV_SOURCE_ATTESTER FLAG_PREV_TARGET_ATTESTER
                FLAG_PREV_HEAD_ATTESTER (previousEpochParticipation state) statuses of
           Inl e \<Rightarrow> Inl e
         | Inr statuses' \<Rightarrow>
             forEachStatus FLAG_CURR_SOURCE_ATTESTER FLAG_CURR_TARGET_ATTESTER
               FLAG_CURR_HEAD_ATTESTER (currentEpochParticipation state) statuses'))"

text \<open>The four unslashed stake sums.\<close>

record StakeLocals =
  prevSourceUnslStake :: int
  prevTargetUnslStake :: int
  prevHeadUnslStake :: int
  currTargetUnslStake :: int

text \<open>
  \<open>if (hasMarkers(...)) sum += effectiveBalance\<close>, where \<open>effectiveBalance\<close> is
  \<open>undefined\<close> when the vector of the epoch context has no such entry.
\<close>

definition addStake :: "bool \<Rightarrow> int option \<Rightarrow> int \<Rightarrow> error + int" where
  "addStake marked eb stake =
     (if marked then (case eb of None \<Rightarrow> Inl TypeError | Some e \<Rightarrow> Inr (stake + e))
      else Inr stake)"

definition sumStake ::
  "int list \<Rightarrow> nat \<times> IAttesterStatus \<Rightarrow> StakeLocals \<Rightarrow> error + StakeLocals" where
  "sumStake ebs ist S =
     (let i = fst ist; status = snd ist; eb = lookup ebs i in
      case addStake (hasMarkers (flags status) ({FLAG_PREV_SOURCE_ATTESTER} \<union> {FLAG_UNSLASHED}))
             eb (prevSourceUnslStake S) of
        Inl e \<Rightarrow> Inl e
      | Inr ps \<Rightarrow>
     (case addStake (hasMarkers (flags status) ({FLAG_PREV_TARGET_ATTESTER} \<union> {FLAG_UNSLASHED}))
             eb (prevTargetUnslStake S) of
        Inl e \<Rightarrow> Inl e
      | Inr pt \<Rightarrow>
     (case addStake (hasMarkers (flags status) ({FLAG_PREV_HEAD_ATTESTER} \<union> {FLAG_UNSLASHED}))
             eb (prevHeadUnslStake S) of
        Inl e \<Rightarrow> Inl e
      | Inr ph \<Rightarrow>
     (case addStake (hasMarkers (flags status) ({FLAG_CURR_TARGET_ATTESTER} \<union> {FLAG_UNSLASHED}))
             eb (currTargetUnslStake S) of
        Inl e \<Rightarrow> Inl e
      | Inr ct \<Rightarrow>
          Inr \<lparr>prevSourceUnslStake = ps, prevTargetUnslStake = pt,
               prevHeadUnslStake = ph, currTargetUnslStake = ct\<rparr>))))"

definition floorAt :: "int \<Rightarrow> int \<Rightarrow> int" where
  "floorAt increment stake = (if stake < increment then increment else stake)"

definition beforeProcessEpoch ::
  "params \<Rightarrow> 'a helpers \<Rightarrow> 'a BeaconState_scheme \<Rightarrow> error + IEpochProcess" where
  "beforeProcessEpoch P H state =
     (let forkName = getForkName H (slot state);
          epoch = currentShuffling_epoch (epochCtx state);
          prev = previousShuffling_epoch (epochCtx state);
          L = scanValidators P H prev epoch (validators state);
          totalStake = floorAt (EFFECTIVE_BALANCE_INCREMENT P) (scan_totalActiveStake L);
          sortedIndices = sortBy (activationCompare (validators state)) (scan_indicesEligibleForActivation L)
      in case attributeParticipation H forkName state prev epoch (scan_statuses L) of
           Inl e \<Rightarrow> Inl e
         | Inr statuses \<Rightarrow>
        (case forEach (sumStake (effectiveBalances (epochCtx state))) (indexed statuses)
                \<lparr>prevSourceUnslStake = 0, prevTargetUnslStake = 0,
                 prevHeadUnslStake = 0, currTargetUnslStake = 0\<rparr> of
           Inl e \<Rightarrow> Inl e
         | Inr S \<Rightarrow>
             (let increment = EFFECTIVE_BALANCE_INCREMENT P in
              Inr \<lparr>prevEpoch = prev,
                   currentEpoch = epoch,
                   totalActiveStake = totalStake,
                   baseRewardPerIncrement = computeBaseRewardPerIncrement H totalStake,
                   prevEpochUnslashedStake =
                     \<lparr>sourceStake = floorAt increment (prevSourceUnslStake S),
                      targetStake = floorAt increment (prevTargetUnslStake S),
                      headStake = floorAt increment (prevHeadUnslStake S)\<rparr>,
                   currEpochUnslashedTargetStake = floorAt increment (currTargetUnslStake S),
                   indicesToSlash = scan_indicesToSlash L,
                   indicesEligibleForActivationQueue = scan_indicesEligibleForActivationQueue L,
                   indicesEligibleForActivation = sortedIndices,
                   indicesToEject = scan_indicesToEject L,
                   nextEpochActiveValidatorIndices = scan_nextEpochActiveValidatorIndices L,
                   statusesFlat = statuses,
                   balancesFlat = balances state\<rparr>)))"

text \<open>
  The membership tests of the scan in the words of the specification: the slashing test of
  step 1 and the three registry tests of steps 4 to 6.
\<close>

definition spec_to_slash :: "params \<Rightarrow> nat \<Rightarrow> Validator \<Rightarrow> bool" where
  "spec_to_slash P current_epoch v =
     (slashed v \<and> withdrawableEpoch v = current_epoch + EPOCHS_PER_SLASHINGS_VECTOR P div 2)"

definition spec_queue_test :: "params \<Rightarrow> Validator \<Rightarrow> bool" where
  "spec_queue_test P v =
     (activationEligibilityEpoch v = FAR_FUTURE_EPOCH P \<and>
      effectiveBalance v = MAX_EFFECTIVE_BALANCE P)"

definition spec_activation_test :: "params \<Rightarrow> nat \<Rightarrow> Validator \<Rightarrow> bool" where
  "spec_activation_test P current_epoch v =
     (activationEpoch v = FAR_FUTURE_EPOCH P \<and> activationEligibilityEpoch v \<le> current_epoch)"

definition spec_ejection_test :: "params \<Rightarrow> 'a helpers \<Rightarrow> nat \<Rightarrow> Validator \<Rightarrow> bool" where
  "spec_ejection_test P H current_epoch v =
     (isActiveValidator H v current_epoch \<and> exitEpoch v = FAR_FUTURE_EPOCH P \<and>
      effectiveBalance v \<le> EJECTION_BALANCE P)"

text \<open>The status that the scan pushes for a validator.\<close>

definition scanStatus :: "'a helpers \<Rightarrow> nat \<Rightarrow> nat \<Rightarrow> Validator \<Rightarrow> IAttesterStatus" where
  "scanStatus H prev epoch v = \<lparr>
     flags = (if slashed v then {} else {FLAG_UNSLASHED}) \<union>
             (if isActiveValidator H v prev \<or> (slashed v \<and> prev + 1 < withdrawableEpoch v)
              then {FLAG_ELIGIBLE_ATTESTER} else {}),
     active = isActiveValidator H v epoch \<rparr>"

section \<open>processSlashingsAllForks\<close>

text \<open>The two lines of the loop body that compute the penalty of one index.\<close>

definition slashingPenalty :: "params \<Rightarrow> int \<Rightarrow> int \<Rightarrow> int \<Rightarrow> error + int" where
  "slashingPenalty P adjusted totalBalance eb =
     (let increment = EFFECTIVE_BALANCE_INCREMENT P in
      case bigint_div eb increment of
        Inl e \<Rightarrow> Inl e
      | Inr q \<Rightarrow>
          (let penaltyNumerator = q * adjusted in
           case bigint_div penaltyNumerator totalBalance of
             Inl e \<Rightarrow> Inl e
           | Inr d \<Rightarrow> Inr (d * increment)))"

text \<open>The loop body: read the effective balance, compute the penalty, decrease the balance.\<close>

definition slashIndex ::
  "params \<Rightarrow> 'a helpers \<Rightarrow> int \<Rightarrow> int \<Rightarrow> nat \<Rightarrow> 'a BeaconState_scheme
     \<Rightarrow> error + 'a BeaconState_scheme" where
  "slashIndex P H adjusted totalBalance index state =
     (case lookup (effectiveBalances (epochCtx state)) index of
        None \<Rightarrow> Inl TypeError
      | Some eb \<Rightarrow>
          (case slashingPenalty P adjusted totalBalance eb of
             Inl e \<Rightarrow> Inl e
           | Inr penalty \<Rightarrow> decreaseBalance H state index penalty))"

definition adjustedTotalSlashingBalance ::
  "params \<Rightarrow> ForkName \<Rightarrow> int list \<Rightarrow> int \<Rightarrow> int" where
  "adjustedTotalSlashingBalance P fork slashingsVector totalBalance =
     (let totalSlashings = foldl (+) 0 slashingsVector;
          proportionalSlashingMultiplier =
            (if fork = phase0 then PROPORTIONAL_SLASHING_MULTIPLIER P
             else PROPORTIONAL_SLASHING_MULTIPLIER_ALTAIR P)
      in bigIntMin (totalSlashings * proportionalSlashingMultiplier) totalBalance)"

definition processSlashingsAllForks ::
  "params \<Rightarrow> 'a helpers \<Rightarrow> ForkName \<Rightarrow> 'a BeaconState_scheme \<Rightarrow> 'b IEpochProcess_scheme
     \<Rightarrow> error + 'a BeaconState_scheme" where
  "processSlashingsAllForks P H fork state epochProcess =
     (if length (indicesToSlash epochProcess) = 0 then Inr state
      else
        (let totalBalance = totalActiveStake epochProcess;
             adjusted = adjustedTotalSlashingBalance P fork (slashings state) totalBalance
         in forEach (slashIndex P H adjusted totalBalance) (indicesToSlash epochProcess) state))"

text \<open>
  The penalty in the words of the specification, with the floor division of HOL:
  \<open>(effective_balance / increment) * adjusted / total_active_stake * increment\<close>, where
  \<open>adjusted = min(total_slashings * multiplier, total_active_stake)\<close>.
\<close>

definition spec_penalty :: "int \<Rightarrow> int \<Rightarrow> int \<Rightarrow> int \<Rightarrow> int \<Rightarrow> int" where
  "spec_penalty increment multiplier total_slashings total_active_stake effective_balance =
     (let adjusted = min (total_slashings * multiplier) total_active_stake
      in (effective_balance div increment) * adjusted div total_active_stake * increment)"

text \<open>The multiplier that \<open>processSlashingsAllForks\<close> selects for a fork.\<close>

definition slashingMultiplier :: "params \<Rightarrow> ForkName \<Rightarrow> int" where
  "slashingMultiplier P fork =
     (if fork = phase0 then PROPORTIONAL_SLASHING_MULTIPLIER P
      else PROPORTIONAL_SLASHING_MULTIPLIER_ALTAIR P)"

section \<open>processRegistryUpdates\<close>

text \<open>
  The third loop, over the slice of the activation list; \<open>break\<close> leaves it with the
  state reached so far.
\<close>

fun dequeueActivations ::
  "'a helpers \<Rightarrow> 'b FlatEpochProcess_scheme \<Rightarrow> nat \<Rightarrow> nat list \<Rightarrow> 'a BeaconState_scheme
     \<Rightarrow> error + 'a BeaconState_scheme" where
  "dequeueActivations H epochProcess finalityEpoch [] state = Inr state"
| "dequeueActivations H epochProcess finalityEpoch (index # rest) state =
     (case lookup (flat_validators epochProcess) index of
        None \<Rightarrow> Inl TypeError
      | Some v \<Rightarrow>
          if activationEligibilityEpoch v > finalityEpoch then Inr state
          else
            (case updateValidator index
                    (\<lambda>w. w\<lparr>activationEpoch :=
                              computeActivationExitEpoch H (currentEpoch epochProcess)\<rparr>) state of
               Inl e \<Rightarrow> Inl e
             | Inr state' \<Rightarrow> dequeueActivations H epochProcess finalityEpoch rest state'))"

definition processRegistryUpdates ::
  "'a helpers \<Rightarrow> 'a BeaconState_scheme \<Rightarrow> 'b FlatEpochProcess_scheme
     \<Rightarrow> error + 'a BeaconState_scheme" where
  "processRegistryUpdates H state epochProcess =
     (case forEach (\<lambda>index s. initiateValidatorExit H s index) (indicesToEject epochProcess) state of
        Inl e \<Rightarrow> Inl e
      | Inr s1 \<Rightarrow>
     (case forEach
             (\<lambda>index s. updateValidator index
                (\<lambda>w. w\<lparr>activationEligibilityEpoch := currentShuffling_epoch (epochCtx s) + 1\<rparr>) s)
             (indicesEligibleForActivationQueue epochProcess) s1 of
        Inl e \<Rightarrow> Inl e
      | Inr s2 \<Rightarrow>
          (let finalityEpoch = finalizedCheckpoint_epoch s2 in
           dequeueActivations H epochProcess finalityEpoch
             (take (churnLimit (epochCtx s2)) (indicesEligibleForActivation epochProcess)) s2)))"

text \<open>
  The entries that the specification activates: of the first \<open>churn_limit\<close> entries of
  the list, those before the first one whose eligibility epoch exceeds the finalized epoch.
\<close>

definition spec_activated :: "Validator list \<Rightarrow> nat \<Rightarrow> nat \<Rightarrow> nat list \<Rightarrow> nat list" where
  "spec_activated vs finalized churn_limit queue =
     takeWhile (\<lambda>i. activationEligibilityEpoch (vs ! i) \<le> finalized) (take churn_limit queue)"

text \<open>The order of the activation list: by eligibility epoch, then by index.\<close>

definition activation_before :: "Validator list \<Rightarrow> nat \<Rightarrow> nat \<Rightarrow> bool" where
  "activation_before vs a b =
     (activationEligibilityEpoch (vs ! a) < activationEligibilityEpoch (vs ! b) \<or>
      (activationEligibilityEpoch (vs ! a) = activationEligibilityEpoch (vs ! b) \<and> a < b))"

text \<open>
  The summary as \<open>processRegistryUpdates\<close> and \<open>processEffectiveBalanceUpdates\<close> expect
  it: the fields that \<open>beforeProcessEpoch\<close> returns, the flat copy of the validators it
  read, and no flat balances yet.
\<close>

definition flatSummary :: "IEpochProcess \<Rightarrow> Validator list \<Rightarrow> FlatEpochProcess" where
  "flatSummary ep vs = \<lparr>
     prevEpoch = prevEpoch ep, currentEpoch = currentEpoch ep,
     totalActiveStake = totalActiveStake ep,
     baseRewardPerIncrement = baseRewardPerIncrement ep,
     prevEpochUnslashedStake = prevEpochUnslashedStake ep,
     currEpochUnslashedTargetStake = currEpochUnslashedTargetStake ep,
     indicesToSlash = indicesToSlash ep,
     indicesEligibleForActivationQueue = indicesEligibleForActivationQueue ep,
     indicesEligibleForActivation = indicesEligibleForActivation ep,
     indicesToEject = indicesToEject ep,
     nextEpochActiveValidatorIndices = nextEpochActiveValidatorIndices ep,
     statusesFlat = statusesFlat ep, balancesFlat = balancesFlat ep,
     flat_validators = vs, flat_balances = None \<rparr>"

text \<open>The writes of the third loop of \<open>processRegistryUpdates\<close> to a list of indices.\<close>

definition activateAll :: "nat \<Rightarrow> nat list \<Rightarrow> Validator list \<Rightarrow> Validator list" where
  "activateAll e indices vs = foldl (\<lambda>ws i. ws[i := (ws ! i)\<lparr>activationEpoch := e\<rparr>]) vs indices"

text \<open>The writes of the second loop of \<open>processRegistryUpdates\<close> to a list of indices.\<close>

definition setEligibility :: "nat \<Rightarrow> nat list \<Rightarrow> Validator list \<Rightarrow> Validator list" where
  "setEligibility e indices vs =
     foldl (\<lambda>ws i. ws[i := (ws ! i)\<lparr>activationEligibilityEpoch := e\<rparr>]) vs indices"

section \<open>processEffectiveBalanceUpdates\<close>

text \<open>The callback of \<open>forEach\<close> over the balances.\<close>

definition effectiveBalanceUpdate ::
  "params \<Rightarrow> int \<Rightarrow> int \<Rightarrow> 'b FlatEpochProcess_scheme \<Rightarrow> nat \<times> int \<Rightarrow> 'a BeaconState_scheme
     \<Rightarrow> error + 'a BeaconState_scheme" where
  "effectiveBalanceUpdate P DOWNWARD_THRESHOLD UPWARD_THRESHOLD epochProcess ib state =
     (let i = fst ib; balance = snd ib in
      case lookup (flat_validators epochProcess) i of
        None \<Rightarrow> Inl TypeError
      | Some v \<Rightarrow>
          (let eb = effectiveBalance v in
           if eb > balance + DOWNWARD_THRESHOLD \<or>
              (eb < MAX_EFFECTIVE_BALANCE P \<and> eb < balance - UPWARD_THRESHOLD)
           then
             (case bigint_rem balance (EFFECTIVE_BALANCE_INCREMENT P) of
                Inl e \<Rightarrow> Inl e
              | Inr r \<Rightarrow>
                  updateValidator i
                    (\<lambda>w. w\<lparr>effectiveBalance := bigIntMin (balance - r) (MAX_EFFECTIVE_BALANCE P)\<rparr>)
                    state)
           else Inr state))"

definition processEffectiveBalanceUpdates ::
  "params \<Rightarrow> 'a BeaconState_scheme \<Rightarrow> 'b FlatEpochProcess_scheme \<Rightarrow> error + 'a BeaconState_scheme" where
  "processEffectiveBalanceUpdates P state epochProcess =
     (case bigint_div (EFFECTIVE_BALANCE_INCREMENT P) (HYSTERESIS_QUOTIENT P) of
        Inl e \<Rightarrow> Inl e
      | Inr HYSTERESIS_INCREMENT \<Rightarrow>
          (let DOWNWARD_THRESHOLD = HYSTERESIS_INCREMENT * HYSTERESIS_DOWNWARD_MULTIPLIER P;
               UPWARD_THRESHOLD = HYSTERESIS_INCREMENT * HYSTERESIS_UPWARD_MULTIPLIER P
           in forEach (effectiveBalanceUpdate P DOWNWARD_THRESHOLD UPWARD_THRESHOLD epochProcess)
                (indexed (case flat_balances epochProcess of
                            Some bs \<Rightarrow> bs
                          | None \<Rightarrow> balances state))
                state))"

text \<open>
  The hysteresis rule in the words of the specification: with \<open>H = increment / quotient\<close>,
  \<open>D = H * downward\<close> and \<open>U = H * upward\<close>, update if and only if \<open>e > b + D\<close> or
  (\<open>e < MAX_EFFECTIVE_BALANCE\<close> and \<open>e < b - U\<close>); the new value is
  \<open>min(b - (b mod increment), MAX_EFFECTIVE_BALANCE)\<close>.
\<close>

definition spec_should_update :: "params \<Rightarrow> int \<Rightarrow> int \<Rightarrow> bool" where
  "spec_should_update P e b =
     (let H = EFFECTIVE_BALANCE_INCREMENT P div HYSTERESIS_QUOTIENT P;
          D = H * HYSTERESIS_DOWNWARD_MULTIPLIER P;
          U = H * HYSTERESIS_UPWARD_MULTIPLIER P
      in e > b + D \<or> (e < MAX_EFFECTIVE_BALANCE P \<and> e < b - U))"

definition spec_new_effective_balance :: "params \<Rightarrow> int \<Rightarrow> int" where
  "spec_new_effective_balance P b =
     min (b - (b mod EFFECTIVE_BALANCE_INCREMENT P)) (MAX_EFFECTIVE_BALANCE P)"

text \<open>The bounds on an effective balance.\<close>

definition effective_balance_ok :: "params \<Rightarrow> int \<Rightarrow> bool" where
  "effective_balance_ok P e =
     (0 \<le> e \<and> e \<le> MAX_EFFECTIVE_BALANCE P \<and> e mod EFFECTIVE_BALANCE_INCREMENT P = 0)"

text \<open>Where \<open>processEffectiveBalanceUpdates\<close> reads the balances.\<close>

definition balancesRead :: "'a BeaconState_scheme \<Rightarrow> 'b FlatEpochProcess_scheme \<Rightarrow> int list" where
  "balancesRead state epochProcess =
     (case flat_balances epochProcess of Some bs \<Rightarrow> bs | None \<Rightarrow> balances state)"

text \<open>What the callback of \<open>processEffectiveBalanceUpdates\<close> leaves of one validator.\<close>

definition hysteresis_write :: "params \<Rightarrow> int \<Rightarrow> int \<Rightarrow> int \<Rightarrow> int \<Rightarrow> Validator \<Rightarrow> Validator" where
  "hysteresis_write P D U e b v =
     (if e > b + D \<or> (e < MAX_EFFECTIVE_BALANCE P \<and> e < b - U)
      then v\<lparr>effectiveBalance := spec_new_effective_balance P b\<rparr> else v)"

section \<open>process_slots\<close>

text \<open>
  Modelled from the spec: \<open>processSlots\<close> is missing, the sources at hand only call it.
  The call fails with \<open>SlotBehind\<close> if \<open>target_slot <= state.slot\<close>. Otherwise it
  repeats, while the slot is below the target: run \<open>process_epoch\<close> if
  \<open>(state.slot + 1) % SLOTS_PER_EPOCH == 0\<close>; cache the roots; add one to the slot;
  cache the randao mix. The three sub-steps are parameters.
\<close>

definition process_slot_once ::
  "nat \<Rightarrow> ('s \<Rightarrow> nat) \<Rightarrow> (nat \<Rightarrow> 's \<Rightarrow> 's) \<Rightarrow> ('s \<Rightarrow> 's) \<Rightarrow> ('s \<Rightarrow> 's) \<Rightarrow> ('s \<Rightarrow> 's) \<Rightarrow> 's \<Rightarrow> 's" where
  "process_slot_once SLOTS_PER_EPOCH get_slot set_slot process_epoch cache_roots cache_randao state =
     (let s1 = (if (get_slot state + 1) mod SLOTS_PER_EPOCH = 0 then process_epoch state else state);
          s2 = cache_roots s1;
          s3 = set_slot (get_slot s2 + 1) s2
      in cache_randao s3)"

partial_function (option) process_slots_loop ::
  "('s \<Rightarrow> nat) \<Rightarrow> ('s \<Rightarrow> 's) \<Rightarrow> nat \<Rightarrow> 's \<Rightarrow> 's option" where
  "process_slots_loop get_slot once target_slot state =
     (if get_slot state < target_slot
      then process_slots_loop get_slot once target_slot (once state)
      else Some state)"

definition process_slots ::
  "nat \<Rightarrow> ('a BeaconState_scheme \<Rightarrow> 'a BeaconState_scheme)
     \<Rightarrow> ('a BeaconState_scheme \<Rightarrow> 'a BeaconState_scheme)
     \<Rightarrow> ('a BeaconState_scheme \<Rightarrow> 'a BeaconState_scheme)
     \<Rightarrow> 'a BeaconState_scheme \<Rightarrow> nat \<Rightarrow> (error + 'a BeaconState_scheme) option" where
  "process_slots SLOTS_PER_EPOCH process_epoch cache_roots cache_randao state target_slot =
     (if target_slot \<le> slot state then Some (Inl SlotBehind)
      else map_option Inr
        (process_slots_loop slot
           (process_slot_once SLOTS_PER_EPOCH slot (\<lambda>n s. s\<lparr>slot := n\<rparr>)
              process_epoch cache_roots cache_randao)
           target_slot state))"

section \<open>The epoch transition\<close>

text \<open>
  Modelled from the spec: the orchestrator and the sub-phases other than registry updates,
  slashings and effective balance updates are missing. Each missing sub-phase writes the
  fields that section 4.4 of the specification names for it; the values it computes are
  parameters. Fields of the state that the record above does not list (justification bits
  and the two justified checkpoints, inactivity scores, eth1 data votes, randao mixes,
  historical roots, pending attestations, sync committees, the exit queue) are kept in the
  extension of the record.
\<close>

record 'a subphases =
  GENESIS_EPOCH :: nat
  MIN_VALIDATOR_WITHDRAWABILITY_DELAY :: nat
  justified :: "'a BeaconState_scheme \<Rightarrow> FlatEpochProcess \<Rightarrow> nat \<times> 'a"
  inactivity_scores :: "'a BeaconState_scheme \<Rightarrow> FlatEpochProcess \<Rightarrow> 'a"
  balance_delta :: "'a BeaconState_scheme \<Rightarrow> FlatEpochProcess \<Rightarrow> nat \<Rightarrow> int"
  exit_queue_epoch :: "'a BeaconState_scheme \<Rightarrow> nat"
  exit_queue_churn :: "'a BeaconState_scheme \<Rightarrow> 'a"
  eth1_data_votes_reset :: "'a BeaconState_scheme \<Rightarrow> 'a"
  randao_mixes_reset :: "'a BeaconState_scheme \<Rightarrow> 'a"
  historical_roots_update :: "'a BeaconState_scheme \<Rightarrow> 'a"
  attestations_rotated :: "'a BeaconState_scheme \<Rightarrow> 'a"
  sync_committees_updated :: "'a BeaconState_scheme \<Rightarrow> 'a"
  shufflings_rotated :: "'a BeaconState_scheme \<Rightarrow> EpochContext"

text \<open>
  Modelled from the spec: (a) justification and finalization writes the justification bits
  and the three checkpoints, and is skipped entirely when
  \<open>current_epoch <= GENESIS_EPOCH + 1\<close>.
\<close>

definition process_justification_and_finalization ::
  "'a subphases \<Rightarrow> 'a BeaconState_scheme \<Rightarrow> FlatEpochProcess \<Rightarrow> 'a BeaconState_scheme" where
  "process_justification_and_finalization X state summary =
     (if currentEpoch summary \<le> GENESIS_EPOCH X + 1 then state
      else state\<lparr>finalizedCheckpoint_epoch := fst (justified X state summary),
                 BeaconState.more := snd (justified X state summary)\<rparr>)"

text \<open>Modelled from the spec: (b) inactivity updates write the inactivity scores.\<close>

definition process_inactivity_updates ::
  "'a subphases \<Rightarrow> 'a BeaconState_scheme \<Rightarrow> FlatEpochProcess \<Rightarrow> 'a BeaconState_scheme" where
  "process_inactivity_updates X state summary =
     state\<lparr>BeaconState.more := inactivity_scores X state summary\<rparr>"

text \<open>
  Modelled from the spec: (c) rewards and penalties are skipped at epoch 0; the balance
  deltas are computed against the balances before the phase and then applied, and balance
  updates saturate at 0. The flat buffer and the tree hold the same balances when the
  phase ends, so the model keeps the one copy \<open>state.balances\<close>.
\<close>

definition process_rewards_and_penalties ::
  "'a subphases \<Rightarrow> 'a BeaconState_scheme \<Rightarrow> FlatEpochProcess \<Rightarrow> 'a BeaconState_scheme" where
  "process_rewards_and_penalties X state summary =
     (if currentEpoch summary = 0 then state
      else state\<lparr>balances :=
             map (\<lambda>(i, b). max 0 (b + balance_delta X state summary i))
               (indexed (balances state))\<rparr>)"

text \<open>
  Modelled from the spec: initiating a validator exit assigns \<open>exit_epoch\<close>, the
  activation exit epoch advanced past the exit queue, assigns
  \<open>withdrawable_epoch = exit_epoch + MIN_VALIDATOR_WITHDRAWABILITY_DELAY\<close>, and increments
  the churn counter of the exit queue.
\<close>

definition initiate_validator_exit ::
  "'a subphases \<Rightarrow> 'a BeaconState_scheme \<Rightarrow> nat \<Rightarrow> error + 'a BeaconState_scheme" where
  "initiate_validator_exit X state index =
     (let exit_epoch = exit_queue_epoch X state in
      case updateValidator index
             (\<lambda>w. w\<lparr>exitEpoch := exit_epoch,
                    withdrawableEpoch := exit_epoch + MIN_VALIDATOR_WITHDRAWABILITY_DELAY X\<rparr>)
             state of
        Inl e \<Rightarrow> Inl e
      | Inr state' \<Rightarrow> Inr (state'\<lparr>BeaconState.more := exit_queue_churn X state'\<rparr>))"

text \<open>
  Modelled from the spec: \<open>decreaseBalance\<close> is missing; balance decreases saturate at
  zero.
\<close>

definition saturatingDecrease ::
  "'a BeaconState_scheme \<Rightarrow> nat \<Rightarrow> int \<Rightarrow> error + 'a BeaconState_scheme" where
  "saturatingDecrease state index delta =
     (if index < length (balances state)
      then Inr (state\<lparr>balances := (balances state)
                  [index := (if balances state ! index > delta
                             then balances state ! index - delta else 0)]\<rparr>)
      else Inl IndexError)"

text \<open>Modelled from the spec: (f) the eth1 data reset clears the eth1 data votes when due.\<close>

definition process_eth1_data_reset :: "'a subphases \<Rightarrow> 'a BeaconState_scheme \<Rightarrow> 'a BeaconState_scheme" where
  "process_eth1_data_reset X state = state\<lparr>BeaconState.more := eth1_data_votes_reset X state\<rparr>"

text \<open>
  Modelled from the spec: (h) the slashings reset,
  \<open>state.slashings[next_epoch % EPOCHS_PER_SLASHINGS_VECTOR] = 0\<close>.
\<close>

definition process_slashings_reset ::
  "params \<Rightarrow> 'a BeaconState_scheme \<Rightarrow> FlatEpochProcess \<Rightarrow> 'a BeaconState_scheme" where
  "process_slashings_reset P state summary =
     (let next_epoch = currentEpoch summary + 1 in
      state\<lparr>slashings :=
        (slashings state)[next_epoch mod EPOCHS_PER_SLASHINGS_VECTOR P := 0]\<rparr>)"

text \<open>
  Modelled from the spec: (i) the randao mixes reset and (j) the historical roots update
  write the randao mixes and the historical roots.
\<close>

definition process_randao_mixes_reset :: "'a subphases \<Rightarrow> 'a BeaconState_scheme \<Rightarrow> 'a BeaconState_scheme" where
  "process_randao_mixes_reset X state = state\<lparr>BeaconState.more := randao_mixes_reset X state\<rparr>"

definition process_historical_roots_update ::
  "'a subphases \<Rightarrow> 'a BeaconState_scheme \<Rightarrow> 'a BeaconState_scheme" where
  "process_historical_roots_update X state =
     state\<lparr>BeaconState.more := historical_roots_update X state\<rparr>"

text \<open>
  Modelled from the spec: (k) the participation record updates. Phase 0 moves the current
  pending attestations to the previous ones and empties the current ones; Altair moves the
  current participation to the previous one and sets the current one to zeros.
\<close>

definition process_participation_record_updates ::
  "'a subphases \<Rightarrow> ForkName \<Rightarrow> 'a BeaconState_scheme \<Rightarrow> 'a BeaconState_scheme" where
  "process_participation_record_updates X fork state =
     (if fork = phase0 then state\<lparr>BeaconState.more := attestations_rotated X state\<rparr>
      else state\<lparr>previousEpochParticipation := currentEpochParticipation state,
                 currentEpochParticipation :=
                   map (\<lambda>_. \<lparr>timelySource = False, timelyTarget = False, timelyHead = False\<rparr>)
                     (currentEpochParticipation state)\<rparr>)"

text \<open>
  Modelled from the spec: (l) the sync committee updates write the two sync committees, and
  \<open>cache.rotate()\<close> writes the epoch cache.
\<close>

definition process_sync_committee_updates ::
  "'a subphases \<Rightarrow> 'a BeaconState_scheme \<Rightarrow> 'a BeaconState_scheme" where
  "process_sync_committee_updates X state =
     state\<lparr>BeaconState.more := sync_committees_updated X state\<rparr>"

definition cache_rotate :: "'a subphases \<Rightarrow> 'a BeaconState_scheme \<Rightarrow> 'a BeaconState_scheme" where
  "cache_rotate X state = state\<lparr>epochCtx := shufflings_rotated X state\<rparr>"

text \<open>
  Modelled from the spec: the orchestrator \<open>process_epoch\<close> of section 4.5. The summary is what
  \<open>beforeProcessEpoch\<close> builds, with the flat copy of the validators it read; the two
  helpers that write the state are the ones modelled above. The first part runs the
  sub-phases up to the eth1 data reset, the second part the ones after the effective
  balance updates.
\<close>

definition epoch_helpers :: "'a helpers \<Rightarrow> 'a subphases \<Rightarrow> 'a helpers" where
  "epoch_helpers H X =
     H\<lparr>initiateValidatorExit := initiate_validator_exit X, decreaseBalance := saturatingDecrease\<rparr>"

definition epoch_transition_first ::
  "params \<Rightarrow> 'a helpers \<Rightarrow> 'a subphases \<Rightarrow> 'a BeaconState_scheme
     \<Rightarrow> error + ('a BeaconState_scheme \<times> FlatEpochProcess)" where
  "epoch_transition_first P H X state =
     (case beforeProcessEpoch P H state of
        Inl e \<Rightarrow> Inl e
      | Inr ep \<Rightarrow>
          (let summary = flatSummary ep (validators state);
               fork = getForkName H (slot state);
               s1 = process_justification_and_finalization X state summary;
               s2 = (if fork = altair then process_inactivity_updates X s1 summary else s1);
               s3 = process_rewards_and_penalties X s2 summary
           in case processRegistryUpdates (epoch_helpers H X) s3 summary of
                Inl e \<Rightarrow> Inl e
              | Inr s4 \<Rightarrow>
             (case processSlashingsAllForks P (epoch_helpers H X) fork s4 summary of
                Inl e \<Rightarrow> Inl e
              | Inr s5 \<Rightarrow> Inr (process_eth1_data_reset X s5, summary))))"

definition epoch_transition_last ::
  "params \<Rightarrow> 'a helpers \<Rightarrow> 'a subphases \<Rightarrow> FlatEpochProcess \<Rightarrow> 'a BeaconState_scheme
     \<Rightarrow> 'a BeaconState_scheme" where
  "epoch_transition_last P H X summary state =
     (let fork = getForkName H (slot state);
          s8 = process_slashings_reset P state summary;
          s9 = process_randao_mixes_reset X s8;
          s10 = process_historical_roots_update X s9;
          s11 = process_participation_record_updates X fork s10;
          s12 = (if fork = altair then process_sync_committee_updates X s11 else s11)
      in cache_rotate X s12)"

definition epoch_transition ::
  "params \<Rightarrow> 'a helpers \<Rightarrow> 'a subphases \<Rightarrow> 'a BeaconState_scheme \<Rightarrow> error + 'a BeaconState_scheme" where
  "epoch_transition P H X state =
     (case epoch_transition_first P H X state of
        Inl e \<Rightarrow> Inl e
      | Inr (s6, summary) \<Rightarrow>
          (case processEffectiveBalanceUpdates P s6 summary of
             Inl e \<Rightarrow> Inl e
           | Inr s7 \<Rightarrow> Inr (epoch_transition_last P H X summary s7)))"

section \<open>Scenarios\<close>

text \<open>
  Modelled from the spec: the remaining helpers are missing. A validator is active at an
  epoch from its activation epoch up to, and not including, its exit epoch; the activation
  exit epoch of an epoch lies \<open>1 + MAX_SEED_LOOKAHEAD = 5\<close> epochs later. The other helpers
  play no part in the evaluations below and are the identity.
\<close>

definition scenario_helpers :: "ForkName \<Rightarrow> unit helpers" where
  "scenario_helpers fork = \<lparr>
     getForkName = (\<lambda>_. fork),
     isActiveValidator = (\<lambda>v e. activationEpoch v \<le> e \<and> e < exitEpoch v),
     computeBaseRewardPerIncrement = (\<lambda>_. 0),
     statusProcessEpoch = (\<lambda>_ statuses _ _ _ _ _. Inr statuses),
     computeActivationExitEpoch = (\<lambda>e. e + 5),
     initiateValidatorExit = (\<lambda>s _. Inr s),
     decreaseBalance = saturatingDecrease \<rparr>"

text \<open>
  States and summaries for the scenarios: validators that were activated at epoch 0 and
  have not left, a state in epoch 10 whose epoch context mirrors its validators, and a
  summary that carries only the flat copy of the validators.
\<close>

definition scenario_validator :: "int \<Rightarrow> Validator" where
  "scenario_validator e = \<lparr>
     effectiveBalance = e, slashed = False,
     activationEligibilityEpoch = 0, activationEpoch = 0,
     exitEpoch = FAR_FUTURE_EPOCH scenario_params,
     withdrawableEpoch = FAR_FUTURE_EPOCH scenario_params \<rparr>"

definition scenario_state :: "Validator list \<Rightarrow> int list \<Rightarrow> BeaconState" where
  "scenario_state vs bs = \<lparr>
     slot = 351, validators = vs, balances = bs, slashings = [],
     finalizedCheckpoint_epoch = 8,
     previousEpochParticipation = [], currentEpochParticipation = [],
     epochCtx = \<lparr>currentShuffling_epoch = 10, previousShuffling_epoch = 9,
                 effectiveBalances = map effectiveBalance vs, churnLimit = 4\<rparr> \<rparr>"

definition scenario_summary :: "Validator list \<Rightarrow> FlatEpochProcess" where
  "scenario_summary vs = \<lparr>
     prevEpoch = 9, currentEpoch = 10, totalActiveStake = 1000000000,
     baseRewardPerIncrement = 0,
     prevEpochUnslashedStake =
       \<lparr>sourceStake = 1000000000, targetStake = 1000000000, headStake = 1000000000\<rparr>,
     currEpochUnslashedTargetStake = 1000000000,
     indicesToSlash = [], indicesEligibleForActivationQueue = [],
     indicesEligibleForActivation = [], indicesToEject = [],
     nextEpochActiveValidatorIndices = [], statusesFlat = [], balancesFlat = [],
     flat_validators = vs, flat_balances = None \<rparr>"

text \<open>
  The slashing scenario: one slashed validator of 32 ETH with a balance of 32 ETH, 32 ETH
  in the slashings vector, and a summary with a total active stake of 3200 ETH.
\<close>

definition slashing_scenario_state :: BeaconState where
  "slashing_scenario_state =
     (scenario_state [(scenario_validator 32000000000)\<lparr>slashed := True\<rparr>] [32000000000])
       \<lparr>slashings := [32000000000]\<rparr>"

definition slashing_scenario_summary :: FlatEpochProcess where
  "slashing_scenario_summary =
     (scenario_summary [(scenario_validator 32000000000)\<lparr>slashed := True\<rparr>])
       \<lparr>totalActiveStake := 3200000000000, indicesToSlash := [0]\<rparr>"

text \<open>
  The registry scenario: a freshly deposited validator, one waiting for activation since
  epoch 3, an active one at the ejection balance, an ordinary active one, and a slashed one
  whose withdrawable epoch is not the slashings epoch of epoch 10.
\<close>

definition registry_scenario_validators :: "Validator list" where
  "registry_scenario_validators =
     [(scenario_validator 32000000000)
        \<lparr>activationEligibilityEpoch := FAR_FUTURE_EPOCH scenario_params,
         activationEpoch := FAR_FUTURE_EPOCH scenario_params\<rparr>,
      (scenario_validator 32000000000)
        \<lparr>activationEligibilityEpoch := 3, activationEpoch := FAR_FUTURE_EPOCH scenario_params\<rparr>,
      scenario_validator 16000000000,
      scenario_validator 32000000000,
      (scenario_validator 32000000000)\<lparr>slashed := True, withdrawableEpoch := 20\<rparr>]"

definition registry_scenario_state :: BeaconState where
  "registry_scenario_state =
     scenario_state registry_scenario_validators
       [32000000000, 32000000000, 16000000000, 32000000000, 32000000000]"

text \<open>
  The activation scenario: ten validators in the activation queue, with eligibility epochs
  5, 3, 7, 3, 8, 2, 6, 4, 1, 8, none of them after the finalized epoch 8, and a churn limit
  of 4.
\<close>

definition queued_validator :: "nat \<Rightarrow> Validator" where
  "queued_validator e =
     (scenario_validator 32000000000)
       \<lparr>activationEligibilityEpoch := e, activationEpoch := FAR_FUTURE_EPOCH scenario_params\<rparr>"

definition activation_scenario_validators :: "Validator list" where
  "activation_scenario_validators = map queued_validator [5, 3, 7, 3, 8, 2, 6, 4, 1, 8]"

definition activation_scenario_state :: BeaconState where
  "activation_scenario_state =
     scenario_state activation_scenario_validators
       [32000000000, 32000000000, 32000000000, 32000000000, 32000000000,
        32000000000, 32000000000, 32000000000, 32000000000, 32000000000]"

text \<open>The activation scenario with the finalized epoch at 2 instead of 8.\<close>

definition activation_scenario_state_early :: BeaconState where
  "activation_scenario_state_early = activation_scenario_state\<lparr>finalizedCheckpoint_epoch := 2\<rparr>"

text \<open>
  The epoch scenario: one active validator of 32 ETH whose balance has dropped to
  31.74 ETH, and sub-phases that compute no change.
\<close>

definition scenario_subphases :: "unit subphases" where
  "scenario_subphases = \<lparr>
     GENESIS_EPOCH = 0,
     MIN_VALIDATOR_WITHDRAWABILITY_DELAY = 256,
     justified = (\<lambda>s _. (finalizedCheckpoint_epoch s, ())),
     inactivity_scores = (\<lambda>_ _. ()),
     balance_delta = (\<lambda>_ _ _. 0),
     exit_queue_epoch = (\<lambda>s. currentShuffling_epoch (epochCtx s) + 5),
     exit_queue_churn = (\<lambda>_. ()),
     eth1_data_votes_reset = (\<lambda>_. ()),
     randao_mixes_reset = (\<lambda>_. ()),
     historical_roots_update = (\<lambda>_. ()),
     attestations_rotated = (\<lambda>_. ()),
     sync_committees_updated = (\<lambda>_. ()),
     shufflings_rotated = epochCtx \<rparr>"

definition epoch_scenario_state :: BeaconState where
  "epoch_scenario_state = scenario_state [scenario_validator 32000000000] [31740000000]"

section \<open>Properties of the bigint operations\<close>


lemma bigint_div_nonneg: "0 \<le> a \<Longrightarrow> 0 < b \<Longrightarrow> bigint_div a b = Inr (a div b)"
  by (cases "a = 0") (simp_all add: bigint_div_def)

lemma bigint_rem_nonneg: "0 \<le> a \<Longrightarrow> 0 < b \<Longrightarrow> bigint_rem a b = Inr (a mod b)"
  by (cases "a = 0") (simp_all add: bigint_rem_def)

lemma bigIntMin_min: "bigIntMin a b = min a b"
  by (simp add: bigIntMin_def min_def)

section \<open>Effective balance updates\<close>

lemma effectiveBalanceUpdate_step:
  assumes "0 < EFFECTIVE_BALANCE_INCREMENT P" "0 \<le> b"
    and "i < length (flat_validators ep)" "i < length (validators s)"
  shows "effectiveBalanceUpdate P D U ep (i, b) s =
           Inr (s\<lparr>validators := (validators s)
                  [i := hysteresis_write P D U (effectiveBalance (flat_validators ep ! i)) b
                          (validators s ! i)]\<rparr>)"
  using assms
  by (simp add: effectiveBalanceUpdate_def lookup_def Let_def bigint_rem_nonneg bigIntMin_min
      updateValidator_def hysteresis_write_def spec_new_effective_balance_def)

lemma effectiveBalance_loop:
  assumes "0 < EFFECTIVE_BALANCE_INCREMENT P" "\<forall>b\<in>set bs. 0 \<le> b"
    and "k + length bs \<le> length (flat_validators ep)" "k + length bs \<le> length (validators s)"
  shows "\<exists>vs'. forEach (effectiveBalanceUpdate P D U ep) (zip [k..<k + length bs] bs) s =
             Inr (s\<lparr>validators := vs'\<rparr>) \<and>
           length vs' = length (validators s) \<and>
           (\<forall>j<length (validators s). vs' ! j =
              (if k \<le> j \<and> j < k + length bs
               then hysteresis_write P D U (effectiveBalance (flat_validators ep ! j)) (bs ! (j - k))
                      (validators s ! j)
               else validators s ! j))"
  using assms
proof (induction bs arbitrary: k s)
  case Nil
  show ?case by (rule exI [of _ "validators s"]) auto
next
  case (Cons b bs)
  let ?s1 = "s\<lparr>validators := (validators s)
                  [k := hysteresis_write P D U (effectiveBalance (flat_validators ep ! k)) b
                          (validators s ! k)]\<rparr>"
  have step: "effectiveBalanceUpdate P D U ep (k, b) s = Inr ?s1"
    using Cons.prems by (intro effectiveBalanceUpdate_step) simp_all
  have zip: "zip [k..<k + length (b # bs)] (b # bs) = (k, b) # zip [Suc k..<Suc k + length bs] bs"
  proof -
    have "[k..<k + length (b # bs)] = k # [Suc k..<Suc k + length bs]"
      by (simp add: upt_conv_Cons del: upt_Suc)
    then show ?thesis by simp
  qed
  from Cons.prems have "\<exists>vs'. forEach (effectiveBalanceUpdate P D U ep) (zip [Suc k..<Suc k + length bs] bs) ?s1 =
             Inr (?s1\<lparr>validators := vs'\<rparr>) \<and>
           length vs' = length (validators ?s1) \<and>
           (\<forall>j<length (validators ?s1). vs' ! j =
              (if Suc k \<le> j \<and> j < Suc k + length bs
               then hysteresis_write P D U (effectiveBalance (flat_validators ep ! j)) (bs ! (j - Suc k))
                      (validators ?s1 ! j)
               else validators ?s1 ! j))"
    by (intro Cons.IH) simp_all
  then obtain vs' where run: "forEach (effectiveBalanceUpdate P D U ep) (zip [Suc k..<Suc k + length bs] bs) ?s1 =
             Inr (?s1\<lparr>validators := vs'\<rparr>)"
    and len: "length vs' = length (validators ?s1)"
    and pt: "\<forall>j<length (validators ?s1). vs' ! j =
              (if Suc k \<le> j \<and> j < Suc k + length bs
               then hysteresis_write P D U (effectiveBalance (flat_validators ep ! j)) (bs ! (j - Suc k))
                      (validators ?s1 ! j)
               else validators ?s1 ! j)"
    by blast
  show ?case
  proof (intro exI [of _ vs'] conjI allI impI)
    show "forEach (effectiveBalanceUpdate P D U ep) (zip [k..<k + length (b # bs)] (b # bs)) s =
            Inr (s\<lparr>validators := vs'\<rparr>)"
      by (simp only: zip forEach.simps step sum.case run) simp
    show "length vs' = length (validators s)" using len by simp
  next
    fix j assume j: "j < length (validators s)"
    with pt have "vs' ! j =
              (if Suc k \<le> j \<and> j < Suc k + length bs
               then hysteresis_write P D U (effectiveBalance (flat_validators ep ! j)) (bs ! (j - Suc k))
                      (validators ?s1 ! j)
               else validators ?s1 ! j)" by simp
    then show "vs' ! j =
         (if k \<le> j \<and> j < k + length (b # bs)
          then hysteresis_write P D U (effectiveBalance (flat_validators ep ! j)) ((b # bs) ! (j - k))
                 (validators s ! j)
          else validators s ! j)"
      using j by (cases "j = k") (auto simp: nth_Cons' Suc_diff_le)
  qed
qed

lemma processEffectiveBalanceUpdates_run:
  assumes "0 < EFFECTIVE_BALANCE_INCREMENT P" "0 < HYSTERESIS_QUOTIENT P"
    and "\<forall>b\<in>set (balancesRead s ep). 0 \<le> b"
    and "length (balancesRead s ep) \<le> length (flat_validators ep)"
    and "length (balancesRead s ep) \<le> length (validators s)"
  shows "\<exists>vs'. processEffectiveBalanceUpdates P s ep = Inr (s\<lparr>validators := vs'\<rparr>) \<and>
           length vs' = length (validators s) \<and>
           (\<forall>j<length (validators s). vs' ! j =
              (if j < length (balancesRead s ep) \<and>
                  spec_should_update P (effectiveBalance (flat_validators ep ! j)) (balancesRead s ep ! j)
               then (validators s ! j)\<lparr>effectiveBalance :=
                      spec_new_effective_balance P (balancesRead s ep ! j)\<rparr>
               else validators s ! j))"
proof -
  let ?bs = "balancesRead s ep"
  let ?H = "EFFECTIVE_BALANCE_INCREMENT P div HYSTERESIS_QUOTIENT P"
  let ?D = "?H * HYSTERESIS_DOWNWARD_MULTIPLIER P"
  let ?U = "?H * HYSTERESIS_UPWARD_MULTIPLIER P"
  have run: "processEffectiveBalanceUpdates P s ep =
       forEach (effectiveBalanceUpdate P ?D ?U ep) (zip [0..<0 + length ?bs] ?bs) s"
    using assms(1,2)
    by (simp add: processEffectiveBalanceUpdates_def bigint_div_nonneg Let_def indexed_def
        balancesRead_def)
  from effectiveBalance_loop [of P ?bs 0 ep s ?D ?U] assms
  obtain vs' where 1: "forEach (effectiveBalanceUpdate P ?D ?U ep) (zip [0..<0 + length ?bs] ?bs) s =
             Inr (s\<lparr>validators := vs'\<rparr>)"
    and 2: "length vs' = length (validators s)"
    and 3: "\<forall>j<length (validators s). vs' ! j =
              (if 0 \<le> j \<and> j < 0 + length ?bs
               then hysteresis_write P ?D ?U (effectiveBalance (flat_validators ep ! j)) (?bs ! (j - 0))
                      (validators s ! j)
               else validators s ! j)"
    by auto
  show ?thesis
  proof (intro exI [of _ vs'] conjI allI impI)
    show "processEffectiveBalanceUpdates P s ep = Inr (s\<lparr>validators := vs'\<rparr>)"
      using run 1 by simp
    show "length vs' = length (validators s)" by (rule 2)
  next
    fix j assume "j < length (validators s)"
    with 3 show "vs' ! j =
         (if j < length ?bs \<and> spec_should_update P (effectiveBalance (flat_validators ep ! j)) (?bs ! j)
          then (validators s ! j)\<lparr>effectiveBalance := spec_new_effective_balance P (?bs ! j)\<rparr>
          else validators s ! j)"
      by (simp add: hysteresis_write_def spec_should_update_def Let_def)
  qed
qed

lemma hysteresis_changes:
  assumes "0 < EFFECTIVE_BALANCE_INCREMENT P" "0 \<le> b"
    and "0 \<le> (EFFECTIVE_BALANCE_INCREMENT P div HYSTERESIS_QUOTIENT P) * HYSTERESIS_DOWNWARD_MULTIPLIER P"
    and "EFFECTIVE_BALANCE_INCREMENT P \<le>
           (EFFECTIVE_BALANCE_INCREMENT P div HYSTERESIS_QUOTIENT P) * HYSTERESIS_UPWARD_MULTIPLIER P"
    and "spec_should_update P e b"
  shows "spec_new_effective_balance P b \<noteq> e"
proof -
  let ?inc = "EFFECTIVE_BALANCE_INCREMENT P"
  have m0: "0 \<le> b mod ?inc" and m1: "b mod ?inc < ?inc"
    using assms(1) by simp_all
  from assms(5) consider
    (down) "e > b + (?inc div HYSTERESIS_QUOTIENT P) * HYSTERESIS_DOWNWARD_MULTIPLIER P"
    | (up) "e < MAX_EFFECTIVE_BALANCE P"
        "e < b - (?inc div HYSTERESIS_QUOTIENT P) * HYSTERESIS_UPWARD_MULTIPLIER P"
    by (auto simp: spec_should_update_def Let_def)
  then show ?thesis
  proof cases
    case down
    with assms(3) m0 have "b - b mod ?inc < e" by linarith
    then show ?thesis by (simp add: spec_new_effective_balance_def min_def)
  next
    case up
    with assms(4) m1 have "e < b - b mod ?inc" by linarith
    with up(1) show ?thesis by (simp add: spec_new_effective_balance_def min_def)
  qed
qed

lemma scenario_hysteresis_within:
  "processEffectiveBalanceUpdates scenario_params
     (scenario_state [scenario_validator 32000000000] [31950000000])
     (scenario_summary [scenario_validator 32000000000]) =
   Inr (scenario_state [scenario_validator 32000000000] [31950000000])"
  by (simp add: processEffectiveBalanceUpdates_def scenario_params_def scenario_state_def
      scenario_summary_def scenario_validator_def bigint_div_def bigint_rem_def indexed_def
      effectiveBalanceUpdate_def lookup_def Let_def bigIntMin_def updateValidator_def)

lemma scenario_hysteresis_drop:
  "processEffectiveBalanceUpdates scenario_params
     (scenario_state [scenario_validator 32000000000] [31740000000])
     (scenario_summary [scenario_validator 32000000000]) =
   Inr ((scenario_state [scenario_validator 32000000000] [31740000000])
          \<lparr>validators := [scenario_validator 31000000000]\<rparr>)"
  by (simp add: processEffectiveBalanceUpdates_def scenario_params_def scenario_state_def
      scenario_summary_def scenario_validator_def bigint_div_def bigint_rem_def indexed_def
      effectiveBalanceUpdate_def lookup_def Let_def bigIntMin_def updateValidator_def)

text \<open>
  Claim C5. \<open>processEffectiveBalanceUpdates\<close> writes the effective balance of validator
  \<open>j\<close>, with effective balance \<open>e\<close> and raw balance \<open>b\<close>, if and only if \<open>e > b + D\<close> or
  (\<open>e < MAX_EFFECTIVE_BALANCE\<close> and \<open>e < b - U\<close>), and the value written is
  \<open>min(b - (b mod increment), MAX_EFFECTIVE_BALANCE)\<close>; every other validator is left as
  it was. With a non-negative \<open>D\<close> and \<open>U\<close> of at least one increment the value written
  differs from \<open>e\<close>, so the effective balance changes exactly under that condition. With
  \<open>e\<close> = 32 ETH, a balance of 31.95 ETH changes nothing and a balance of 31.74 ETH gives
  31 ETH. Balances are unsigned, and the increment and the quotient are positive.
\<close>

theorem processEffectiveBalanceUpdates_hysteresis:
  assumes "0 < EFFECTIVE_BALANCE_INCREMENT P" "0 < HYSTERESIS_QUOTIENT P"
    and "\<forall>b\<in>set (balancesRead s ep). 0 \<le> b"
    and "length (balancesRead s ep) \<le> length (flat_validators ep)"
    and "length (balancesRead s ep) \<le> length (validators s)"
  shows "(\<exists>s'. processEffectiveBalanceUpdates P s ep = Inr s' \<and>
           length (validators s') = length (validators s) \<and>
           (\<forall>j<length (validators s).
              validators s' ! j =
                (if j < length (balancesRead s ep) \<and>
                    spec_should_update P (effectiveBalance (flat_validators ep ! j))
                      (balancesRead s ep ! j)
                 then (validators s ! j)\<lparr>effectiveBalance :=
                        spec_new_effective_balance P (balancesRead s ep ! j)\<rparr>
                 else validators s ! j) \<and>
              (0 \<le> (EFFECTIVE_BALANCE_INCREMENT P div HYSTERESIS_QUOTIENT P) *
                     HYSTERESIS_DOWNWARD_MULTIPLIER P \<and>
               EFFECTIVE_BALANCE_INCREMENT P \<le>
                 (EFFECTIVE_BALANCE_INCREMENT P div HYSTERESIS_QUOTIENT P) *
                   HYSTERESIS_UPWARD_MULTIPLIER P \<and>
               effectiveBalance (flat_validators ep ! j) = effectiveBalance (validators s ! j) \<longrightarrow>
               (effectiveBalance (validators s' ! j) \<noteq> effectiveBalance (validators s ! j)) =
                 (j < length (balancesRead s ep) \<and>
                  spec_should_update P (effectiveBalance (validators s ! j))
                    (balancesRead s ep ! j))))) \<and>
         processEffectiveBalanceUpdates scenario_params
           (scenario_state [scenario_validator 32000000000] [31950000000])
           (scenario_summary [scenario_validator 32000000000]) =
           Inr (scenario_state [scenario_validator 32000000000] [31950000000]) \<and>
         processEffectiveBalanceUpdates scenario_params
           (scenario_state [scenario_validator 32000000000] [31740000000])
           (scenario_summary [scenario_validator 32000000000]) =
           Inr ((scenario_state [scenario_validator 32000000000] [31740000000])
                  \<lparr>validators := [scenario_validator 31000000000]\<rparr>)"
proof (intro conjI)
  let ?bs = "balancesRead s ep"
  from processEffectiveBalanceUpdates_run [OF assms]
  obtain vs' where 1: "processEffectiveBalanceUpdates P s ep = Inr (s\<lparr>validators := vs'\<rparr>)"
    and 2: "length vs' = length (validators s)"
    and 3: "\<forall>j<length (validators s). vs' ! j =
              (if j < length ?bs \<and>
                  spec_should_update P (effectiveBalance (flat_validators ep ! j)) (?bs ! j)
               then (validators s ! j)\<lparr>effectiveBalance := spec_new_effective_balance P (?bs ! j)\<rparr>
               else validators s ! j)"
    by blast
  show "\<exists>s'. processEffectiveBalanceUpdates P s ep = Inr s' \<and>
           length (validators s') = length (validators s) \<and>
           (\<forall>j<length (validators s).
              validators s' ! j =
                (if j < length ?bs \<and>
                    spec_should_update P (effectiveBalance (flat_validators ep ! j)) (?bs ! j)
                 then (validators s ! j)\<lparr>effectiveBalance := spec_new_effective_balance P (?bs ! j)\<rparr>
                 else validators s ! j) \<and>
              (0 \<le> (EFFECTIVE_BALANCE_INCREMENT P div HYSTERESIS_QUOTIENT P) *
                     HYSTERESIS_DOWNWARD_MULTIPLIER P \<and>
               EFFECTIVE_BALANCE_INCREMENT P \<le>
                 (EFFECTIVE_BALANCE_INCREMENT P div HYSTERESIS_QUOTIENT P) *
                   HYSTERESIS_UPWARD_MULTIPLIER P \<and>
               effectiveBalance (flat_validators ep ! j) = effectiveBalance (validators s ! j) \<longrightarrow>
               (effectiveBalance (validators s' ! j) \<noteq> effectiveBalance (validators s ! j)) =
                 (j < length ?bs \<and>
                  spec_should_update P (effectiveBalance (validators s ! j)) (?bs ! j))))"
  proof (intro exI [of _ "s\<lparr>validators := vs'\<rparr>"] conjI allI impI)
    show "processEffectiveBalanceUpdates P s ep = Inr (s\<lparr>validators := vs'\<rparr>)" by (rule 1)
    show "length (validators (s\<lparr>validators := vs'\<rparr>)) = length (validators s)" using 2 by simp
  next
    fix j assume "j < length (validators s)"
    with 3 show "validators (s\<lparr>validators := vs'\<rparr>) ! j =
         (if j < length ?bs \<and>
             spec_should_update P (effectiveBalance (flat_validators ep ! j)) (?bs ! j)
          then (validators s ! j)\<lparr>effectiveBalance := spec_new_effective_balance P (?bs ! j)\<rparr>
          else validators s ! j)" by simp
  next
    fix j assume j: "j < length (validators s)"
      and h: "0 \<le> (EFFECTIVE_BALANCE_INCREMENT P div HYSTERESIS_QUOTIENT P) *
                     HYSTERESIS_DOWNWARD_MULTIPLIER P \<and>
               EFFECTIVE_BALANCE_INCREMENT P \<le>
                 (EFFECTIVE_BALANCE_INCREMENT P div HYSTERESIS_QUOTIENT P) *
                   HYSTERESIS_UPWARD_MULTIPLIER P \<and>
               effectiveBalance (flat_validators ep ! j) = effectiveBalance (validators s ! j)"
    from 3 j have v: "vs' ! j =
         (if j < length ?bs \<and>
             spec_should_update P (effectiveBalance (flat_validators ep ! j)) (?bs ! j)
          then (validators s ! j)\<lparr>effectiveBalance := spec_new_effective_balance P (?bs ! j)\<rparr>
          else validators s ! j)" by simp
    show "(effectiveBalance (validators (s\<lparr>validators := vs'\<rparr>) ! j) \<noteq>
             effectiveBalance (validators s ! j)) =
          (j < length ?bs \<and> spec_should_update P (effectiveBalance (validators s ! j)) (?bs ! j))"
    proof (cases "j < length ?bs \<and> spec_should_update P (effectiveBalance (validators s ! j)) (?bs ! j)")
      case True
      then have "0 \<le> ?bs ! j" using assms(3) by simp
      from hysteresis_changes [OF assms(1) this _ _ conjunct2 [OF True]] h
      have "spec_new_effective_balance P (?bs ! j) \<noteq> effectiveBalance (validators s ! j)"
        by simp
      with True v h show ?thesis by simp
    next
      case False
      with v h show ?thesis by auto
    qed
  qed
next
  show "processEffectiveBalanceUpdates scenario_params
           (scenario_state [scenario_validator 32000000000] [31950000000])
           (scenario_summary [scenario_validator 32000000000]) =
           Inr (scenario_state [scenario_validator 32000000000] [31950000000])"
    by (rule scenario_hysteresis_within)
next
  show "processEffectiveBalanceUpdates scenario_params
           (scenario_state [scenario_validator 32000000000] [31740000000])
           (scenario_summary [scenario_validator 32000000000]) =
           Inr ((scenario_state [scenario_validator 32000000000] [31740000000])
                  \<lparr>validators := [scenario_validator 31000000000]\<rparr>)"
    by (rule scenario_hysteresis_drop)
qed

theorem processEffectiveBalanceUpdates_hysteresis_witness:
  "balancesRead (scenario_state [scenario_validator 32000000000] [31740000000])
     (scenario_summary [scenario_validator 32000000000]) = [31740000000] \<and>
   (\<exists>s'. processEffectiveBalanceUpdates scenario_params
            (scenario_state [scenario_validator 32000000000] [31740000000])
            (scenario_summary [scenario_validator 32000000000]) = Inr s' \<and>
         effectiveBalance (validators s' ! 0) = 31000000000)"
proof -
  let ?s = "scenario_state [scenario_validator 32000000000] [31740000000]"
  let ?ep = "scenario_summary [scenario_validator 32000000000]"
  have bs: "balancesRead ?s ?ep = [31740000000]"
    by (simp add: balancesRead_def scenario_summary_def scenario_state_def)
  have h1: "0 < EFFECTIVE_BALANCE_INCREMENT scenario_params"
    and h2: "0 < HYSTERESIS_QUOTIENT scenario_params"
    by (simp_all add: scenario_params_def)
  have h3: "\<forall>b\<in>set (balancesRead ?s ?ep). 0 \<le> b" by (simp add: bs)
  have h4: "length (balancesRead ?s ?ep) \<le> length (flat_validators ?ep)"
    unfolding bs by (simp add: scenario_summary_def)
  have h5: "length (balancesRead ?s ?ep) \<le> length (validators ?s)"
    unfolding bs by (simp add: scenario_state_def)
  from processEffectiveBalanceUpdates_hysteresis [OF h1 h2 h3 h4 h5]
  have "processEffectiveBalanceUpdates scenario_params ?s ?ep =
          Inr (?s\<lparr>validators := [scenario_validator 31000000000]\<rparr>)"
    by blast
  then have "\<exists>s'. processEffectiveBalanceUpdates scenario_params ?s ?ep = Inr s' \<and>
         effectiveBalance (validators s' ! 0) = 31000000000"
    by (simp add: scenario_validator_def)
  with bs show ?thesis by blast
qed

lemma forEach_invariant:
  assumes "forEach f xs s = Inr s'" "Inv s"
    and "\<And>x t t'. x \<in> set xs \<Longrightarrow> Inv t \<Longrightarrow> f x t = Inr t' \<Longrightarrow> Inv t'"
  shows "Inv s'"
  using assms
proof (induction xs arbitrary: s)
  case Nil
  then show ?case by simp
next
  case (Cons x xs)
  from Cons.prems(1) obtain t where t: "f x s = Inr t" and rest: "forEach f xs t = Inr s'"
    by (auto split: sum.splits)
  have "Inv t" using Cons.prems(3) [of x s t] Cons.prems(2) t by simp
  moreover have "\<And>y u u'. y \<in> set xs \<Longrightarrow> Inv u \<Longrightarrow> f y u = Inr u' \<Longrightarrow> Inv u'"
    by (metis Cons.prems(3) list.set_intros(2))
  ultimately show ?case using Cons.IH [OF rest] by blast
qed

lemma spec_new_effective_balance_ok:
  assumes "0 < EFFECTIVE_BALANCE_INCREMENT P" "effective_balance_ok P (MAX_EFFECTIVE_BALANCE P)"
    and "0 \<le> b"
  shows "effective_balance_ok P (spec_new_effective_balance P b)"
proof -
  let ?inc = "EFFECTIVE_BALANCE_INCREMENT P"
  have "b mod ?inc \<le> b" using assms(1,3) by (simp add: zmod_le_nonneg_dividend)
  moreover have "(b - b mod ?inc) mod ?inc = 0" by (simp add: mod_diff_right_eq)
  ultimately show ?thesis
    using assms(2) by (simp add: effective_balance_ok_def spec_new_effective_balance_def min_def)
qed

lemma effectiveBalanceUpdate_cases:
  assumes "0 < EFFECTIVE_BALANCE_INCREMENT P" "0 \<le> b"
    and "effectiveBalanceUpdate P D U ep (i, b) t = Inr t'"
  shows "t' = t \<or>
         (i < length (validators t) \<and>
          t' = t\<lparr>validators := (validators t)
                [i := (validators t ! i)\<lparr>effectiveBalance := spec_new_effective_balance P b\<rparr>]\<rparr>)"
proof (cases "i < length (flat_validators ep)")
  case False
  with assms(3) show ?thesis by (simp add: effectiveBalanceUpdate_def lookup_def)
next
  case True
  let ?e = "effectiveBalance (flat_validators ep ! i)"
  show ?thesis
  proof (cases "?e > b + D \<or> (?e < MAX_EFFECTIVE_BALANCE P \<and> ?e < b - U)")
    case False
    with True assms(3) have "t' = t"
      by (simp add: effectiveBalanceUpdate_def lookup_def Let_def)
    then show ?thesis by simp
  next
    case cond: True
    have "effectiveBalanceUpdate P D U ep (i, b) t =
            updateValidator i (\<lambda>w. w\<lparr>effectiveBalance := spec_new_effective_balance P b\<rparr>) t"
      using True cond assms(1,2)
      by (simp add: effectiveBalanceUpdate_def lookup_def Let_def bigint_rem_nonneg bigIntMin_min
          spec_new_effective_balance_def)
    with assms(3) show ?thesis
      by (simp add: updateValidator_def split: if_splits)
  qed
qed

lemma effectiveBalanceUpdate_ok:
  assumes "0 < EFFECTIVE_BALANCE_INCREMENT P" "effective_balance_ok P (MAX_EFFECTIVE_BALANCE P)"
    and "0 \<le> b"
    and "\<forall>v\<in>set (validators t). effective_balance_ok P (effectiveBalance v)"
    and "effectiveBalanceUpdate P D U ep (i, b) t = Inr t'"
  shows "\<forall>v\<in>set (validators t'). effective_balance_ok P (effectiveBalance v)"
proof -
  from effectiveBalanceUpdate_cases [OF assms(1,3,5)] consider (same) "t' = t"
    | (upd) "i < length (validators t)"
        "t' = t\<lparr>validators := (validators t)
                [i := (validators t ! i)\<lparr>effectiveBalance := spec_new_effective_balance P b\<rparr>]\<rparr>"
    by blast
  then show ?thesis
  proof cases
    case same
    with assms(4) show ?thesis by simp
  next
    case upd
    have "set (validators t') \<subseteq>
            insert ((validators t ! i)\<lparr>effectiveBalance := spec_new_effective_balance P b\<rparr>)
              (set (validators t))"
      using upd(2) by (simp add: set_update_subset_insert)
    with assms(4) spec_new_effective_balance_ok [OF assms(1,2,3)] show ?thesis by auto
  qed
qed

lemma effectiveBalanceUpdates_ok:
  assumes "0 < EFFECTIVE_BALANCE_INCREMENT P" "effective_balance_ok P (MAX_EFFECTIVE_BALANCE P)"
    and "\<forall>b\<in>set (balancesRead s ep). 0 \<le> b"
    and "\<forall>v\<in>set (validators s). effective_balance_ok P (effectiveBalance v)"
    and "processEffectiveBalanceUpdates P s ep = Inr s'"
  shows "\<forall>v\<in>set (validators s'). effective_balance_ok P (effectiveBalance v)"
proof -
  from assms(5) obtain h where
    run: "forEach (effectiveBalanceUpdate P (h * HYSTERESIS_DOWNWARD_MULTIPLIER P)
            (h * HYSTERESIS_UPWARD_MULTIPLIER P) ep) (indexed (balancesRead s ep)) s = Inr s'"
    by (auto simp: processEffectiveBalanceUpdates_def Let_def balancesRead_def split: sum.splits)
  show ?thesis
  proof (rule forEach_invariant [OF run, where Inv = "\<lambda>t. \<forall>v\<in>set (validators t). effective_balance_ok P (effectiveBalance v)"])
    show "\<forall>v\<in>set (validators s). effective_balance_ok P (effectiveBalance v)" by (rule assms(4))
  next
    fix x t t'
    assume x: "x \<in> set (indexed (balancesRead s ep))"
      and inv: "\<forall>v\<in>set (validators t). effective_balance_ok P (effectiveBalance v)"
      and step: "effectiveBalanceUpdate P (h * HYSTERESIS_DOWNWARD_MULTIPLIER P)
            (h * HYSTERESIS_UPWARD_MULTIPLIER P) ep x t = Inr t'"
    from x have "snd x \<in> set (balancesRead s ep)"
      by (metis indexed_def prod.collapse set_zip_rightD)
    with assms(3) have "0 \<le> snd x" by simp
    from effectiveBalanceUpdate_ok [OF assms(1,2) this inv, of _ _ ep "fst x" t'] step
    show "\<forall>v\<in>set (validators t'). effective_balance_ok P (effectiveBalance v)" by simp
  qed
qed

section \<open>Slashing penalties\<close>

lemma foldl_add_sum_list: "foldl (+) a xs = a + sum_list (xs :: int list)"
  by (induction xs arbitrary: a) simp_all

lemma adjusted_eq:
  "adjustedTotalSlashingBalance P fork sl t = min (sum_list sl * slashingMultiplier P fork) t"
  by (simp add: adjustedTotalSlashingBalance_def slashingMultiplier_def Let_def bigIntMin_min
      foldl_add_sum_list)

lemma slashingPenalty_spec:
  assumes "0 < EFFECTIVE_BALANCE_INCREMENT P" "0 < t" "0 \<le> eb" "0 \<le> a"
  shows "slashingPenalty P a t eb =
           Inr ((eb div EFFECTIVE_BALANCE_INCREMENT P) * a div t * EFFECTIVE_BALANCE_INCREMENT P)"
proof -
  have q: "0 \<le> eb div EFFECTIVE_BALANCE_INCREMENT P"
    using assms(1,3) by (simp add: pos_imp_zdiv_nonneg_iff)
  with assms(4) have "0 \<le> (eb div EFFECTIVE_BALANCE_INCREMENT P) * a" by simp
  then show ?thesis
    using assms by (simp add: slashingPenalty_def Let_def bigint_div_nonneg)
qed


lemma slashing_scenario_penalty:
  "slashingPenalty scenario_params
     (adjustedTotalSlashingBalance scenario_params phase0 [32000000000] 3200000000000)
     3200000000000 32000000000 = Inr 0"
  by (simp add: slashingPenalty_def adjustedTotalSlashingBalance_def scenario_params_def
      bigint_div_def bigIntMin_def Let_def)

lemma slashing_scenario_run:
  "processSlashingsAllForks scenario_params (scenario_helpers phase0) phase0
     slashing_scenario_state slashing_scenario_summary = Inr slashing_scenario_state"
proof -
  have "slashIndex scenario_params (scenario_helpers phase0)
          (adjustedTotalSlashingBalance scenario_params phase0 [32000000000] 3200000000000)
          3200000000000 0 slashing_scenario_state = Inr slashing_scenario_state"
  proof -
    have eb: "lookup (effectiveBalances (epochCtx slashing_scenario_state)) 0 = Some 32000000000"
      by (simp add: slashing_scenario_state_def scenario_state_def scenario_validator_def
          lookup_def)
    have dec: "decreaseBalance (scenario_helpers phase0) slashing_scenario_state 0 0 =
                 Inr slashing_scenario_state"
      by (simp add: slashing_scenario_state_def scenario_state_def scenario_helpers_def
          saturatingDecrease_def)
    show ?thesis by (simp add: slashIndex_def eb slashing_scenario_penalty dec)
  qed
  then show ?thesis
    by (simp add: processSlashingsAllForks_def Let_def)
       (simp add: slashing_scenario_summary_def scenario_summary_def
          slashing_scenario_state_def scenario_state_def)
qed

text \<open>
  Claim C1, as amended. For every index that \<open>processSlashingsAllForks\<close> treats, the
  penalty handed to \<open>decreaseBalance\<close> is
  \<open>(effective_balance / increment) * adjusted / total_active_stake * increment\<close> with the
  floor divisions in that order, where
  \<open>adjusted = min(total_slashings * multiplier, total_active_stake)\<close>. In the scenario
  (32 ETH effective balance, 32 ETH of slashings, 3200 ETH of active stake, multiplier 3)
  the penalty is 0: \<open>32 * 96 ETH = 3072 ETH\<close> divided by 3200 ETH floors to 0, and the
  balance stays at 32 ETH.
\<close>

theorem processSlashings_penalty:
  assumes "0 < EFFECTIVE_BALANCE_INCREMENT P" "0 < totalActiveStake ep"
    and "0 \<le> sum_list (slashings st) * slashingMultiplier P fork"
    and "index < length (effectiveBalances (epochCtx state))"
    and "0 \<le> effectiveBalances (epochCtx state) ! index"
  shows "processSlashingsAllForks P H fork st ep =
           (if indicesToSlash ep = [] then Inr st
            else forEach (slashIndex P H
                   (adjustedTotalSlashingBalance P fork (slashings st) (totalActiveStake ep))
                   (totalActiveStake ep)) (indicesToSlash ep) st) \<and>
         slashIndex P H (adjustedTotalSlashingBalance P fork (slashings st) (totalActiveStake ep))
           (totalActiveStake ep) index state =
           decreaseBalance H state index
             (spec_penalty (EFFECTIVE_BALANCE_INCREMENT P) (slashingMultiplier P fork)
                (sum_list (slashings st)) (totalActiveStake ep)
                (effectiveBalances (epochCtx state) ! index)) \<and>
         slashingPenalty scenario_params
           (adjustedTotalSlashingBalance scenario_params phase0 [32000000000] 3200000000000)
           3200000000000 32000000000 = Inr 0 \<and>
         processSlashingsAllForks scenario_params (scenario_helpers phase0) phase0
           slashing_scenario_state slashing_scenario_summary = Inr slashing_scenario_state"
proof (intro conjI)
  show "processSlashingsAllForks P H fork st ep =
           (if indicesToSlash ep = [] then Inr st
            else forEach (slashIndex P H
                   (adjustedTotalSlashingBalance P fork (slashings st) (totalActiveStake ep))
                   (totalActiveStake ep)) (indicesToSlash ep) st)"
    by (simp add: processSlashingsAllForks_def Let_def)
next
  let ?t = "totalActiveStake ep"
  let ?a = "adjustedTotalSlashingBalance P fork (slashings st) ?t"
  let ?eb = "effectiveBalances (epochCtx state) ! index"
  have a: "?a = min (sum_list (slashings st) * slashingMultiplier P fork) ?t"
    by (rule adjusted_eq)
  have "0 \<le> ?a" using assms(2,3) by (simp add: a)
  from slashingPenalty_spec [OF assms(1,2,5) this]
  have "slashingPenalty P ?a ?t ?eb =
          Inr (spec_penalty (EFFECTIVE_BALANCE_INCREMENT P) (slashingMultiplier P fork)
                 (sum_list (slashings st)) ?t ?eb)"
    by (simp add: spec_penalty_def Let_def a)
  then show "slashIndex P H ?a ?t index state =
           decreaseBalance H state index
             (spec_penalty (EFFECTIVE_BALANCE_INCREMENT P) (slashingMultiplier P fork)
                (sum_list (slashings st)) ?t ?eb)"
    using assms(4) by (simp add: slashIndex_def lookup_def)
next
  show "slashingPenalty scenario_params
           (adjustedTotalSlashingBalance scenario_params phase0 [32000000000] 3200000000000)
           3200000000000 32000000000 = Inr 0"
    by (rule slashing_scenario_penalty)
next
  show "processSlashingsAllForks scenario_params (scenario_helpers phase0) phase0
           slashing_scenario_state slashing_scenario_summary = Inr slashing_scenario_state"
    by (rule slashing_scenario_run)
qed

theorem processSlashings_penalty_witness:
  "slashIndex scenario_params (scenario_helpers phase0)
     (adjustedTotalSlashingBalance scenario_params phase0 (slashings slashing_scenario_state)
        (totalActiveStake slashing_scenario_summary))
     (totalActiveStake slashing_scenario_summary) 0 slashing_scenario_state =
   saturatingDecrease slashing_scenario_state 0
     (spec_penalty 1000000000 3 32000000000 3200000000000 32000000000)"
proof -
  have h1: "0 < EFFECTIVE_BALANCE_INCREMENT scenario_params"
    by (simp add: scenario_params_def)
  have h2: "0 < totalActiveStake slashing_scenario_summary"
    by (simp add: slashing_scenario_summary_def scenario_summary_def)
  have h3: "0 \<le> sum_list (slashings slashing_scenario_state) *
                slashingMultiplier scenario_params phase0"
    by (simp add: slashing_scenario_state_def scenario_state_def slashingMultiplier_def
        scenario_params_def)
  have h4: "0 < length (effectiveBalances (epochCtx slashing_scenario_state))"
    by (simp add: slashing_scenario_state_def scenario_state_def)
  have h5: "0 \<le> effectiveBalances (epochCtx slashing_scenario_state) ! 0"
    by (simp add: slashing_scenario_state_def scenario_state_def scenario_validator_def)
  have v: "EFFECTIVE_BALANCE_INCREMENT scenario_params = 1000000000"
    "slashingMultiplier scenario_params phase0 = 3"
    "sum_list (slashings slashing_scenario_state) = 32000000000"
    "totalActiveStake slashing_scenario_summary = 3200000000000"
    "effectiveBalances (epochCtx slashing_scenario_state) ! 0 = 32000000000"
    "decreaseBalance (scenario_helpers phase0) = saturatingDecrease"
    by (simp_all add: scenario_params_def slashingMultiplier_def slashing_scenario_state_def
        scenario_state_def slashing_scenario_summary_def scenario_summary_def
        scenario_validator_def scenario_helpers_def)
  from processSlashings_penalty [OF h1 h2 h3 h4 h5, of "scenario_helpers phase0"]
  show ?thesis by (simp only: v)
qed

theorem processSlashings_penalty_counterexample:
  "slashingPenalty scenario_params
     (adjustedTotalSlashingBalance scenario_params phase0 [32000000000] 3200000000000)
     3200000000000 32000000000 \<noteq> Inr 960000000 \<and>
   processSlashingsAllForks scenario_params (scenario_helpers phase0) phase0
     slashing_scenario_state slashing_scenario_summary \<noteq>
     Inr (slashing_scenario_state\<lparr>balances := [31040000000]\<rparr>)"
  by (simp add: slashing_scenario_penalty slashing_scenario_run)
     (simp add: slashing_scenario_state_def scenario_state_def)

text \<open>
  Claim C9. With an empty \<open>indicesToSlash\<close>, \<open>processSlashingsAllForks\<close> returns at once
  with the state as it was, whatever \<open>state.slashings\<close> holds and whatever
  \<open>decreaseBalance\<close> would do.
\<close>

theorem processSlashings_nothing_to_slash:
  assumes "indicesToSlash ep = []"
  shows "processSlashingsAllForks P H fork state ep = Inr state \<and>
         (\<forall>sl. processSlashingsAllForks P H fork (state\<lparr>slashings := sl\<rparr>) ep =
                 Inr (state\<lparr>slashings := sl\<rparr>))"
  using assms by (simp add: processSlashingsAllForks_def)

theorem processSlashings_nothing_to_slash_witness:
  "indicesToSlash (scenario_summary []) = [] \<and>
   processSlashingsAllForks scenario_params (scenario_helpers phase0) phase0
     slashing_scenario_state (scenario_summary []) = Inr slashing_scenario_state"
proof -
  have h: "indicesToSlash (scenario_summary []) = []" by (simp add: scenario_summary_def)
  from processSlashings_nothing_to_slash [OF h] h show ?thesis by blast
qed



section \<open>The scan of beforeProcessEpoch\<close>

lemma scanValidator_fields:
  "scan_indicesToSlash (scanValidator P H prev epoch L (i, v)) =
     scan_indicesToSlash L @ (if spec_to_slash P epoch v then [i] else [])"
  "scan_indicesEligibleForActivationQueue (scanValidator P H prev epoch L (i, v)) =
     scan_indicesEligibleForActivationQueue L @ (if spec_queue_test P v then [i] else [])"
  "scan_indicesEligibleForActivation (scanValidator P H prev epoch L (i, v)) =
     scan_indicesEligibleForActivation L @
       (if \<not> spec_queue_test P v \<and> spec_activation_test P epoch v then [i] else [])"
  "scan_indicesToEject (scanValidator P H prev epoch L (i, v)) =
     scan_indicesToEject L @
       (if \<not> spec_queue_test P v \<and> \<not> spec_activation_test P epoch v \<and>
           spec_ejection_test P H epoch v then [i] else [])"
  "scan_statuses (scanValidator P H prev epoch L (i, v)) =
     scan_statuses L @ [scanStatus H prev epoch v]"
  "scan_totalActiveStake (scanValidator P H prev epoch L (i, v)) =
     scan_totalActiveStake L + (if isActiveValidator H v epoch then effectiveBalance v else 0)"
  by (auto simp: scanValidator_def scanSlashed_def scanRegistry_def Let_def intDiv_def
      spec_to_slash_def spec_queue_test_def spec_activation_test_def spec_ejection_test_def
      scanStatus_def createIAttesterStatus_def)

lemma scan_foldl_toSlash:
  "scan_indicesToSlash (foldl (scanValidator P H prev epoch) L xs) =
     scan_indicesToSlash L @ map fst (filter (\<lambda>(i, v). spec_to_slash P epoch v) xs)"
proof (induction xs arbitrary: L)
  case Nil
  show ?case by simp
next
  case (Cons x xs)
  obtain i v where x: "x = (i, v)" by (cases x)
  show ?case by (simp add: x Cons.IH scanValidator_fields)
qed

lemma scan_foldl_queue:
  "scan_indicesEligibleForActivationQueue (foldl (scanValidator P H prev epoch) L xs) =
     scan_indicesEligibleForActivationQueue L @
       map fst (filter (\<lambda>(i, v). spec_queue_test P v) xs)"
proof (induction xs arbitrary: L)
  case Nil
  show ?case by simp
next
  case (Cons x xs)
  obtain i v where x: "x = (i, v)" by (cases x)
  show ?case by (simp add: x Cons.IH scanValidator_fields)
qed

lemma scan_foldl_activation:
  "scan_indicesEligibleForActivation (foldl (scanValidator P H prev epoch) L xs) =
     scan_indicesEligibleForActivation L @
       map fst (filter (\<lambda>(i, v). \<not> spec_queue_test P v \<and> spec_activation_test P epoch v) xs)"
proof (induction xs arbitrary: L)
  case Nil
  show ?case by simp
next
  case (Cons x xs)
  obtain i v where x: "x = (i, v)" by (cases x)
  show ?case by (simp add: x Cons.IH scanValidator_fields)
qed

lemma scan_foldl_eject:
  "scan_indicesToEject (foldl (scanValidator P H prev epoch) L xs) =
     scan_indicesToEject L @
       map fst (filter (\<lambda>(i, v). \<not> spec_queue_test P v \<and> \<not> spec_activation_test P epoch v \<and>
                          spec_ejection_test P H epoch v) xs)"
proof (induction xs arbitrary: L)
  case Nil
  show ?case by simp
next
  case (Cons x xs)
  obtain i v where x: "x = (i, v)" by (cases x)
  show ?case by (simp add: x Cons.IH scanValidator_fields)
qed

lemma scan_foldl_statuses:
  "scan_statuses (foldl (scanValidator P H prev epoch) L xs) =
     scan_statuses L @ map (\<lambda>(i, v). scanStatus H prev epoch v) xs"
proof (induction xs arbitrary: L)
  case Nil
  show ?case by simp
next
  case (Cons x xs)
  obtain i v where x: "x = (i, v)" by (cases x)
  show ?case by (simp add: x Cons.IH scanValidator_fields)
qed

lemma scan_foldl_stake:
  "scan_totalActiveStake (foldl (scanValidator P H prev epoch) L xs) =
     scan_totalActiveStake L +
       sum_list (map (\<lambda>(i, v). if isActiveValidator H v epoch then effectiveBalance v else 0) xs)"
proof (induction xs arbitrary: L)
  case Nil
  show ?case by simp
next
  case (Cons x xs)
  obtain i v where x: "x = (i, v)" by (cases x)
  show ?case by (simp add: x Cons.IH scanValidator_fields)
qed

lemmas scan_foldl =
  scan_foldl_toSlash scan_foldl_queue scan_foldl_activation
  scan_foldl_eject scan_foldl_statuses scan_foldl_stake

lemma indexed_snoc: "indexed (vs @ [v]) = indexed vs @ [(length vs, v)]"
  by (simp add: indexed_def)

lemma indexed_filter:
  "map fst (filter (\<lambda>(i, v). Q v) (indexed vs)) = filter (\<lambda>i. Q (vs ! i)) [0..<length vs]"
proof (induction vs rule: rev_induct)
  case Nil
  show ?case by (simp add: indexed_def)
next
  case (snoc v vs)
  have "filter (\<lambda>i. Q ((vs @ [v]) ! i)) [0..<length vs] = filter (\<lambda>i. Q (vs ! i)) [0..<length vs]"
    by (rule filter_cong) (simp_all add: nth_append)
  with snoc show ?case by (simp add: indexed_snoc)
qed

lemma indexed_map: "map (\<lambda>(i, v). f v) (indexed vs) = map f vs"
  by (induction vs rule: rev_induct) (simp_all add: indexed_snoc, simp add: indexed_def)

lemma scanValidators_result:
  "scan_indicesToSlash (scanValidators P H prev epoch vs) =
     filter (\<lambda>i. spec_to_slash P epoch (vs ! i)) [0..<length vs]"
  "scan_indicesEligibleForActivationQueue (scanValidators P H prev epoch vs) =
     filter (\<lambda>i. spec_queue_test P (vs ! i)) [0..<length vs]"
  "scan_indicesEligibleForActivation (scanValidators P H prev epoch vs) =
     filter (\<lambda>i. \<not> spec_queue_test P (vs ! i) \<and> spec_activation_test P epoch (vs ! i))
       [0..<length vs]"
  "scan_indicesToEject (scanValidators P H prev epoch vs) =
     filter (\<lambda>i. \<not> spec_queue_test P (vs ! i) \<and> \<not> spec_activation_test P epoch (vs ! i) \<and>
                 spec_ejection_test P H epoch (vs ! i)) [0..<length vs]"
  "scan_statuses (scanValidators P H prev epoch vs) = map (scanStatus H prev epoch) vs"
  "scan_totalActiveStake (scanValidators P H prev epoch vs) =
     sum_list (map (\<lambda>v. if isActiveValidator H v epoch then effectiveBalance v else 0) vs)"
  by (simp_all add: scanValidators_def scan_foldl scanInit_def indexed_filter indexed_map)

lemma set_insertBy: "set (insertBy cmp x xs) = insert x (set xs)"
  by (induction xs) auto

lemma set_sortBy: "set (sortBy cmp xs) = set xs"
  by (induction xs) (simp_all add: sortBy_def set_insertBy)

lemma distinct_insertBy: "distinct (insertBy cmp x xs) = (x \<notin> set xs \<and> distinct xs)"
  by (induction xs) (auto simp: set_insertBy)

lemma distinct_sortBy: "distinct (sortBy cmp xs) = distinct xs"
  by (induction xs) (simp_all add: sortBy_def distinct_insertBy set_sortBy [unfolded sortBy_def])

lemma length_insertBy: "length (insertBy cmp x xs) = Suc (length xs)"
  by (induction xs) simp_all

lemma length_sortBy: "length (sortBy cmp xs) = length xs"
  by (induction xs) (simp_all add: sortBy_def length_insertBy)

lemma floorAt_ge: "increment \<le> floorAt increment stake"
  by (simp add: floorAt_def)

lemma beforeProcessEpoch_Inr:
  assumes "beforeProcessEpoch P H state = Inr ep"
  defines "L \<equiv> scanValidators P H (previousShuffling_epoch (epochCtx state))
                  (currentShuffling_epoch (epochCtx state)) (validators state)"
  shows "\<exists>statuses S.
           attributeParticipation H (getForkName H (slot state)) state
             (previousShuffling_epoch (epochCtx state)) (currentShuffling_epoch (epochCtx state))
             (scan_statuses L) = Inr statuses \<and>
           forEach (sumStake (effectiveBalances (epochCtx state))) (indexed statuses)
             \<lparr>prevSourceUnslStake = 0, prevTargetUnslStake = 0,
              prevHeadUnslStake = 0, currTargetUnslStake = 0\<rparr> = Inr S \<and>
           ep = \<lparr>prevEpoch = previousShuffling_epoch (epochCtx state),
                 currentEpoch = currentShuffling_epoch (epochCtx state),
                 totalActiveStake = floorAt (EFFECTIVE_BALANCE_INCREMENT P) (scan_totalActiveStake L),
                 baseRewardPerIncrement = computeBaseRewardPerIncrement H
                   (floorAt (EFFECTIVE_BALANCE_INCREMENT P) (scan_totalActiveStake L)),
                 prevEpochUnslashedStake =
                   \<lparr>sourceStake = floorAt (EFFECTIVE_BALANCE_INCREMENT P) (prevSourceUnslStake S),
                    targetStake = floorAt (EFFECTIVE_BALANCE_INCREMENT P) (prevTargetUnslStake S),
                    headStake = floorAt (EFFECTIVE_BALANCE_INCREMENT P) (prevHeadUnslStake S)\<rparr>,
                 currEpochUnslashedTargetStake =
                   floorAt (EFFECTIVE_BALANCE_INCREMENT P) (currTargetUnslStake S),
                 indicesToSlash = scan_indicesToSlash L,
                 indicesEligibleForActivationQueue = scan_indicesEligibleForActivationQueue L,
                 indicesEligibleForActivation =
                   sortBy (activationCompare (validators state)) (scan_indicesEligibleForActivation L),
                 indicesToEject = scan_indicesToEject L,
                 nextEpochActiveValidatorIndices = scan_nextEpochActiveValidatorIndices L,
                 statusesFlat = statuses,
                 balancesFlat = balances state\<rparr>"
proof -
  from assms(1) obtain statuses where
    a: "attributeParticipation H (getForkName H (slot state)) state
          (previousShuffling_epoch (epochCtx state)) (currentShuffling_epoch (epochCtx state))
          (scan_statuses L) = Inr statuses"
    unfolding L_def by (auto simp: beforeProcessEpoch_def Let_def split: sum.splits)
  from assms(1) a obtain S where
    b: "forEach (sumStake (effectiveBalances (epochCtx state))) (indexed statuses)
          \<lparr>prevSourceUnslStake = 0, prevTargetUnslStake = 0,
           prevHeadUnslStake = 0, currTargetUnslStake = 0\<rparr> = Inr S"
    unfolding L_def by (auto simp: beforeProcessEpoch_def Let_def split: sum.splits)
  from assms(1) a b show ?thesis
    unfolding L_def by (intro exI [of _ statuses] exI [of _ S]) (simp add: beforeProcessEpoch_def Let_def)
qed


lemma empty_summary:
  "beforeProcessEpoch scenario_params (scenario_helpers altair) (scenario_state [] []) =
     Inr \<lparr>prevEpoch = 9, currentEpoch = 10, totalActiveStake = 1000000000,
          baseRewardPerIncrement = 0,
          prevEpochUnslashedStake =
            \<lparr>sourceStake = 1000000000, targetStake = 1000000000, headStake = 1000000000\<rparr>,
          currEpochUnslashedTargetStake = 1000000000,
          indicesToSlash = [], indicesEligibleForActivationQueue = [],
          indicesEligibleForActivation = [], indicesToEject = [],
          nextEpochActiveValidatorIndices = [], statusesFlat = [], balancesFlat = []\<rparr>"
  by (simp add: beforeProcessEpoch_def scenario_state_def scenario_helpers_def scenario_params_def
      scanValidators_def indexed_def scanInit_def attributeParticipation_def forEachStatus_def
      sortBy_def floorAt_def Let_def)

lemma registry_scan:
  "scanValidators scenario_params (scenario_helpers altair) 9 10 registry_scenario_validators =
     \<lparr>scan_indicesToSlash = [],
      scan_indicesEligibleForActivationQueue = [0],
      scan_indicesEligibleForActivation = [1],
      scan_indicesToEject = [2],
      scan_nextEpochActiveValidatorIndices = [2, 3, 4],
      scan_statuses =
        [\<lparr>flags = {FLAG_UNSLASHED}, active = False\<rparr>,
         \<lparr>flags = {FLAG_UNSLASHED}, active = False\<rparr>,
         \<lparr>flags = {FLAG_UNSLASHED, FLAG_ELIGIBLE_ATTESTER}, active = True\<rparr>,
         \<lparr>flags = {FLAG_UNSLASHED, FLAG_ELIGIBLE_ATTESTER}, active = True\<rparr>,
         \<lparr>flags = {FLAG_ELIGIBLE_ATTESTER}, active = True\<rparr>],
      scan_totalActiveStake = 80000000000\<rparr>"
  by (simp add: scanValidators_def indexed_def registry_scenario_validators_def
      scenario_validator_def scenario_params_def scenario_helpers_def scanInit_def
      scanValidator_def scanSlashed_def scanRegistry_def createIAttesterStatus_def intDiv_def
      Let_def insert_commute)

lemma registry_summary:
  "beforeProcessEpoch scenario_params (scenario_helpers altair) registry_scenario_state =
     Inr \<lparr>prevEpoch = 9, currentEpoch = 10, totalActiveStake = 80000000000,
          baseRewardPerIncrement = 0,
          prevEpochUnslashedStake =
            \<lparr>sourceStake = 1000000000, targetStake = 1000000000, headStake = 1000000000\<rparr>,
          currEpochUnslashedTargetStake = 1000000000,
          indicesToSlash = [], indicesEligibleForActivationQueue = [0],
          indicesEligibleForActivation = [1], indicesToEject = [2],
          nextEpochActiveValidatorIndices = [2, 3, 4],
          statusesFlat =
            [\<lparr>flags = {FLAG_UNSLASHED}, active = False\<rparr>,
             \<lparr>flags = {FLAG_UNSLASHED}, active = False\<rparr>,
             \<lparr>flags = {FLAG_UNSLASHED, FLAG_ELIGIBLE_ATTESTER}, active = True\<rparr>,
             \<lparr>flags = {FLAG_UNSLASHED, FLAG_ELIGIBLE_ATTESTER}, active = True\<rparr>,
             \<lparr>flags = {FLAG_ELIGIBLE_ATTESTER}, active = True\<rparr>],
          balancesFlat = [32000000000, 32000000000, 16000000000, 32000000000, 32000000000]\<rparr>"
proof -
  have ctx: "getForkName (scenario_helpers altair) (slot registry_scenario_state) = altair"
    "currentShuffling_epoch (epochCtx registry_scenario_state) = 10"
    "previousShuffling_epoch (epochCtx registry_scenario_state) = 9"
    "validators registry_scenario_state = registry_scenario_validators"
    "previousEpochParticipation registry_scenario_state = []"
    "currentEpochParticipation registry_scenario_state = []"
    "balances registry_scenario_state =
       [32000000000, 32000000000, 16000000000, 32000000000, 32000000000]"
    "EFFECTIVE_BALANCE_INCREMENT scenario_params = 1000000000"
    "computeBaseRewardPerIncrement (scenario_helpers altair) = (\<lambda>_. 0)"
    by (simp_all add: registry_scenario_state_def scenario_state_def scenario_helpers_def
        scenario_params_def)
  show ?thesis
    by (simp add: beforeProcessEpoch_def ctx registry_scan Let_def attributeParticipation_def
        forEachStatus_def indexed_def sortBy_def floorAt_def sumStake_def addStake_def
        hasMarkers_def lookup_def)
qed

text \<open>
  Claim C6. Whenever \<open>beforeProcessEpoch\<close> returns a summary, its total active stake and
  its four unslashed stake sums (previous source, previous target, previous head, current
  target) are at least \<open>EFFECTIVE_BALANCE_INCREMENT\<close>, also with no active validator; so
  with a positive increment none of them is zero.
\<close>

theorem beforeProcessEpoch_stake_floors:
  assumes "beforeProcessEpoch P H state = Inr ep"
  shows "EFFECTIVE_BALANCE_INCREMENT P \<le> totalActiveStake ep \<and>
         EFFECTIVE_BALANCE_INCREMENT P \<le> sourceStake (prevEpochUnslashedStake ep) \<and>
         EFFECTIVE_BALANCE_INCREMENT P \<le> targetStake (prevEpochUnslashedStake ep) \<and>
         EFFECTIVE_BALANCE_INCREMENT P \<le> headStake (prevEpochUnslashedStake ep) \<and>
         EFFECTIVE_BALANCE_INCREMENT P \<le> currEpochUnslashedTargetStake ep \<and>
         (0 < EFFECTIVE_BALANCE_INCREMENT P \<longrightarrow>
            totalActiveStake ep \<noteq> 0 \<and>
            sourceStake (prevEpochUnslashedStake ep) \<noteq> 0 \<and>
            targetStake (prevEpochUnslashedStake ep) \<noteq> 0 \<and>
            headStake (prevEpochUnslashedStake ep) \<noteq> 0 \<and>
            currEpochUnslashedTargetStake ep \<noteq> 0)"
proof -
  from beforeProcessEpoch_Inr [OF assms] obtain tot s t h c where
    "totalActiveStake ep = floorAt (EFFECTIVE_BALANCE_INCREMENT P) tot"
    "sourceStake (prevEpochUnslashedStake ep) = floorAt (EFFECTIVE_BALANCE_INCREMENT P) s"
    "targetStake (prevEpochUnslashedStake ep) = floorAt (EFFECTIVE_BALANCE_INCREMENT P) t"
    "headStake (prevEpochUnslashedStake ep) = floorAt (EFFECTIVE_BALANCE_INCREMENT P) h"
    "currEpochUnslashedTargetStake ep = floorAt (EFFECTIVE_BALANCE_INCREMENT P) c"
    by auto
  moreover have "\<And>x. EFFECTIVE_BALANCE_INCREMENT P \<le> floorAt (EFFECTIVE_BALANCE_INCREMENT P) x"
    by (rule floorAt_ge)
  moreover have "\<And>x. 0 < EFFECTIVE_BALANCE_INCREMENT P \<Longrightarrow>
                   floorAt (EFFECTIVE_BALANCE_INCREMENT P) x \<noteq> 0"
    by (simp add: floorAt_def)
  ultimately show ?thesis by simp
qed

theorem beforeProcessEpoch_stake_floors_witness:
  "\<exists>ep. beforeProcessEpoch scenario_params (scenario_helpers altair) (scenario_state [] []) = Inr ep \<and>
         totalActiveStake ep = 1000000000 \<and>
         EFFECTIVE_BALANCE_INCREMENT scenario_params \<le> totalActiveStake ep \<and>
         EFFECTIVE_BALANCE_INCREMENT scenario_params \<le> currEpochUnslashedTargetStake ep \<and>
         totalActiveStake ep \<noteq> 0"
proof -
  have inc: "0 < EFFECTIVE_BALANCE_INCREMENT scenario_params" by (simp add: scenario_params_def)
  from beforeProcessEpoch_stake_floors [OF empty_summary] inc empty_summary
  show ?thesis by simp
qed

lemma orFlags_unslashed:
  assumes "orFlags i fs t = Inr t'" "FLAG_UNSLASHED \<notin> fs"
  shows "length t' = length t \<and>
         (\<forall>j<length t. (FLAG_UNSLASHED \<in> flags (t' ! j)) = (FLAG_UNSLASHED \<in> flags (t ! j)))"
  using assms by (auto simp: orFlags_def nth_list_update split: if_splits)

lemma forEachStatus_unslashed:
  assumes "forEachStatus a b c part t = Inr t'"
    and "a \<noteq> FLAG_UNSLASHED" "b \<noteq> FLAG_UNSLASHED" "c \<noteq> FLAG_UNSLASHED"
  shows "length t' = length t \<and>
         (\<forall>j<length t. (FLAG_UNSLASHED \<in> flags (t' ! j)) = (FLAG_UNSLASHED \<in> flags (t ! j)))"
proof (rule forEach_invariant [OF assms(1) [unfolded forEachStatus_def],
    where Inv = "\<lambda>u. length u = length t \<and>
         (\<forall>j<length t. (FLAG_UNSLASHED \<in> flags (u ! j)) = (FLAG_UNSLASHED \<in> flags (t ! j)))"])
  show "length t = length t \<and>
         (\<forall>j<length t. (FLAG_UNSLASHED \<in> flags (t ! j)) = (FLAG_UNSLASHED \<in> flags (t ! j)))"
    by simp
next
  fix x :: "nat \<times> ParticipationStatus" and u u'
  assume inv: "length u = length t \<and>
         (\<forall>j<length t. (FLAG_UNSLASHED \<in> flags (u ! j)) = (FLAG_UNSLASHED \<in> flags (t ! j)))"
    and step: "(case x of (i, status) \<Rightarrow> orFlags i (participationFlags a b c status)) u = Inr u'"
  have "FLAG_UNSLASHED \<notin> participationFlags a b c (snd x)"
    using assms(2-4) by (auto simp: participationFlags_def)
  from orFlags_unslashed [OF _ this, of "fst x" u u'] step
  have "length u' = length u \<and>
         (\<forall>j<length u. (FLAG_UNSLASHED \<in> flags (u' ! j)) = (FLAG_UNSLASHED \<in> flags (u ! j)))"
    by (simp add: case_prod_beta)
  with inv show "length u' = length t \<and>
         (\<forall>j<length t. (FLAG_UNSLASHED \<in> flags (u' ! j)) = (FLAG_UNSLASHED \<in> flags (t ! j)))"
    by simp
qed

lemma attributeParticipation_altair_unslashed:
  assumes "attributeParticipation H fork state prev epoch t = Inr t'" "fork \<noteq> phase0"
  shows "length t' = length t \<and>
         (\<forall>j<length t. (FLAG_UNSLASHED \<in> flags (t' ! j)) = (FLAG_UNSLASHED \<in> flags (t ! j)))"
proof -
  from assms obtain u where
    1: "forEachStatus FLAG_PREV_SOURCE_ATTESTER FLAG_PREV_TARGET_ATTESTER FLAG_PREV_HEAD_ATTESTER
          (previousEpochParticipation state) t = Inr u"
    and 2: "forEachStatus FLAG_CURR_SOURCE_ATTESTER FLAG_CURR_TARGET_ATTESTER
          FLAG_CURR_HEAD_ATTESTER (currentEpochParticipation state) u = Inr t'"
    by (auto simp: attributeParticipation_def split: sum.splits)
  from forEachStatus_unslashed [OF 1] forEachStatus_unslashed [OF 2]
  show ?thesis by simp
qed

lemma scanStatus_unslashed: "(FLAG_UNSLASHED \<in> flags (scanStatus H prev epoch v)) = (\<not> slashed v)"
  by (simp add: scanStatus_def)

text \<open>
  Claim C2, as amended. In the scan of \<open>beforeProcessEpoch\<close>, index \<open>i\<close> is added to
  \<open>indicesToSlash\<close> if and only if the validator is slashed and its withdrawable epoch
  equals \<open>currentEpoch + EPOCHS_PER_SLASHINGS_VECTOR / 2\<close>, and the status gets the flag
  \<open>UNSLASHED\<close> if and only if the validator is not slashed. A slashed validator with
  another withdrawable epoch gets neither. On the Altair path the flag is the same in the
  statuses of the returned summary.
\<close>

theorem beforeProcessEpoch_slashing_scan:
  assumes "beforeProcessEpoch P H state = Inr ep"
  shows "indicesToSlash ep =
           filter (\<lambda>i. spec_to_slash P (currentEpoch ep) (validators state ! i))
             [0..<length (validators state)] \<and>
         (\<forall>i<length (validators state).
            (i \<in> set (indicesToSlash ep)) =
              spec_to_slash P (currentEpoch ep) (validators state ! i) \<and>
            (FLAG_UNSLASHED \<in> flags (scan_statuses
               (scanValidators P H (prevEpoch ep) (currentEpoch ep) (validators state)) ! i)) =
              (\<not> slashed (validators state ! i)) \<and>
            (getForkName H (slot state) \<noteq> phase0 \<longrightarrow>
               i < length (statusesFlat ep) \<and>
               (FLAG_UNSLASHED \<in> flags (statusesFlat ep ! i)) =
                 (\<not> slashed (validators state ! i))))"
proof -
  let ?prev = "previousShuffling_epoch (epochCtx state)"
  let ?cur = "currentShuffling_epoch (epochCtx state)"
  let ?L = "scanValidators P H ?prev ?cur (validators state)"
  from beforeProcessEpoch_Inr [OF assms] obtain statuses where
    att: "attributeParticipation H (getForkName H (slot state)) state ?prev ?cur
            (scan_statuses ?L) = Inr statuses"
    and ep: "prevEpoch ep = ?prev" "currentEpoch ep = ?cur"
      "indicesToSlash ep = scan_indicesToSlash ?L" "statusesFlat ep = statuses"
    by auto
  have slash: "indicesToSlash ep =
           filter (\<lambda>i. spec_to_slash P (currentEpoch ep) (validators state ! i))
             [0..<length (validators state)]"
    by (simp add: ep scanValidators_result)
  have st: "scan_statuses ?L = map (scanStatus H ?prev ?cur) (validators state)"
    by (simp add: scanValidators_result)
  show ?thesis
  proof (intro conjI allI impI)
    show "indicesToSlash ep =
           filter (\<lambda>i. spec_to_slash P (currentEpoch ep) (validators state ! i))
             [0..<length (validators state)]" by (rule slash)
  next
    fix i assume i: "i < length (validators state)"
    then show "(i \<in> set (indicesToSlash ep)) =
              spec_to_slash P (currentEpoch ep) (validators state ! i)"
      by (simp add: slash)
    from i show "(FLAG_UNSLASHED \<in> flags (scan_statuses
               (scanValidators P H (prevEpoch ep) (currentEpoch ep) (validators state)) ! i)) =
              (\<not> slashed (validators state ! i))"
      by (simp add: ep st scanStatus_unslashed)
    assume fork: "getForkName H (slot state) \<noteq> phase0"
    from attributeParticipation_altair_unslashed [OF att fork] i
    show "i < length (statusesFlat ep)" by (simp add: ep st)
    from attributeParticipation_altair_unslashed [OF att fork] i
    show "(FLAG_UNSLASHED \<in> flags (statusesFlat ep ! i)) = (\<not> slashed (validators state ! i))"
      by (simp add: ep st scanStatus_unslashed)
  qed
qed

theorem beforeProcessEpoch_slashing_scan_witness:
  "\<exists>ep. beforeProcessEpoch scenario_params (scenario_helpers altair) registry_scenario_state =
          Inr ep \<and>
        indicesToSlash ep = [] \<and>
        FLAG_UNSLASHED \<in> flags (statusesFlat ep ! 3) \<and>
        FLAG_UNSLASHED \<notin> flags (statusesFlat ep ! 4)"
proof -
  have "getForkName (scenario_helpers altair) (slot registry_scenario_state) \<noteq> phase0"
    by (simp add: scenario_helpers_def)
  moreover have "length (validators registry_scenario_state) = 5"
    "\<not> slashed (validators registry_scenario_state ! 3)"
    "slashed (validators registry_scenario_state ! 4)"
    by (simp_all add: registry_scenario_state_def scenario_state_def
        registry_scenario_validators_def scenario_validator_def)
  ultimately show ?thesis
    using beforeProcessEpoch_slashing_scan [OF registry_summary] registry_summary by simp
qed

theorem beforeProcessEpoch_slashing_scan_counterexample:
  "\<not> isl (beforeProcessEpoch scenario_params (scenario_helpers altair) registry_scenario_state) \<and>
   \<not> spec_to_slash scenario_params 10 (validators registry_scenario_state ! 4) \<and>
   4 \<notin> set (indicesToSlash
     (projr (beforeProcessEpoch scenario_params (scenario_helpers altair) registry_scenario_state))) \<and>
   FLAG_UNSLASHED \<notin> flags (statusesFlat
     (projr (beforeProcessEpoch scenario_params (scenario_helpers altair) registry_scenario_state)) ! 4) \<and>
   FLAG_UNSLASHED \<notin> flags (scan_statuses
     (scanValidators scenario_params (scenario_helpers altair) 9 10
        (validators registry_scenario_state)) ! 4)"
proof -
  have v: "validators registry_scenario_state = registry_scenario_validators"
    by (simp add: registry_scenario_state_def scenario_state_def)
  have "\<not> spec_to_slash scenario_params 10 (registry_scenario_validators ! 4)"
    by (simp add: spec_to_slash_def registry_scenario_validators_def scenario_validator_def
        scenario_params_def)
  then show ?thesis by (simp add: registry_summary v registry_scan)
qed

text \<open>
  Claim C4. The scan adds the index of a validator to at most one of
  \<open>indicesEligibleForActivationQueue\<close>, \<open>indicesEligibleForActivation\<close> and
  \<open>indicesToEject\<close>, and at most once: the first list holds the indices that pass the
  activation queue test, the second those that fail it and pass the activation test, the
  third those that fail both and pass the ejection test.
\<close>

theorem beforeProcessEpoch_registry_buckets:
  assumes "beforeProcessEpoch P H state = Inr ep"
  shows "indicesEligibleForActivationQueue ep =
           filter (\<lambda>i. spec_queue_test P (validators state ! i)) [0..<length (validators state)] \<and>
         set (indicesEligibleForActivation ep) =
           set (filter (\<lambda>i. \<not> spec_queue_test P (validators state ! i) \<and>
                         spec_activation_test P (currentEpoch ep) (validators state ! i))
                  [0..<length (validators state)]) \<and>
         indicesToEject ep =
           filter (\<lambda>i. \<not> spec_queue_test P (validators state ! i) \<and>
                      \<not> spec_activation_test P (currentEpoch ep) (validators state ! i) \<and>
                      spec_ejection_test P H (currentEpoch ep) (validators state ! i))
             [0..<length (validators state)] \<and>
         distinct (indicesEligibleForActivationQueue ep @ indicesEligibleForActivation ep @
                   indicesToEject ep)"
proof -
  let ?prev = "previousShuffling_epoch (epochCtx state)"
  let ?cur = "currentShuffling_epoch (epochCtx state)"
  let ?L = "scanValidators P H ?prev ?cur (validators state)"
  from beforeProcessEpoch_Inr [OF assms] have
    ep: "currentEpoch ep = ?cur"
      "indicesEligibleForActivationQueue ep = scan_indicesEligibleForActivationQueue ?L"
      "indicesEligibleForActivation ep =
         sortBy (activationCompare (validators state)) (scan_indicesEligibleForActivation ?L)"
      "indicesToEject ep = scan_indicesToEject ?L"
    by auto
  show ?thesis
    by (auto simp: ep scanValidators_result set_sortBy distinct_sortBy)
qed

theorem beforeProcessEpoch_registry_buckets_witness:
  "\<exists>ep. beforeProcessEpoch scenario_params (scenario_helpers altair) registry_scenario_state =
          Inr ep \<and>
        indicesEligibleForActivationQueue ep = [0] \<and>
        indicesEligibleForActivation ep = [1] \<and>
        indicesToEject ep = [2] \<and>
        distinct (indicesEligibleForActivationQueue ep @ indicesEligibleForActivation ep @
                  indicesToEject ep)"
proof -
  note buckets = beforeProcessEpoch_registry_buckets [OF registry_summary]
  from buckets have
    "distinct (indicesEligibleForActivationQueue
                 (projr (beforeProcessEpoch scenario_params (scenario_helpers altair)
                    registry_scenario_state)) @
               indicesEligibleForActivation
                 (projr (beforeProcessEpoch scenario_params (scenario_helpers altair)
                    registry_scenario_state)) @
               indicesToEject
                 (projr (beforeProcessEpoch scenario_params (scenario_helpers altair)
                    registry_scenario_state)))"
    unfolding registry_summary sum.sel by (rule conjunct2 [OF conjunct2 [OF conjunct2]])
  then show ?thesis by (simp add: registry_summary)
qed

section \<open>process_slots\<close>

lemma process_slots_loop_returns:
  assumes "\<And>s. get_slot (once s) = get_slot s + 1"
  shows "get_slot state \<le> target \<Longrightarrow>
         \<exists>s'. process_slots_loop get_slot once target state = Some s' \<and> get_slot s' = target"
proof (induction "target - get_slot state" arbitrary: state)
  case 0
  then have "get_slot state = target" by simp
  then show ?case by (subst process_slots_loop.simps) simp
next
  case (Suc n)
  then have lt: "get_slot state < target" by simp
  have "n = target - get_slot (once state)" using Suc.hyps(2) assms by simp
  moreover have "get_slot (once state) \<le> target" using lt assms by simp
  ultimately obtain s' where
    "process_slots_loop get_slot once target (once state) = Some s'" "get_slot s' = target"
    using Suc.hyps(1) by blast
  with lt show ?case by (subst process_slots_loop.simps) simp
qed

lemma process_slot_once_slot:
  assumes "\<And>s. slot (process_epoch s) = slot s" "\<And>s. slot (cache_roots s) = slot s"
    and "\<And>s. slot (cache_randao s) = slot s"
  shows "slot (process_slot_once n slot (\<lambda>k s. s\<lparr>slot := k\<rparr>) process_epoch cache_roots
           cache_randao s) = slot s + 1"
  by (simp add: process_slot_once_def Let_def assms)

text \<open>
  Claim C8. \<open>process_slots(state, target_slot)\<close> fails with \<open>SlotBehind\<close> exactly when
  \<open>target_slot <= state.slot\<close>; the failure carries no state, so nothing is advanced.
  When the target is ahead and the sub-steps leave the slot alone, the call returns a state
  whose slot is the target.
\<close>

theorem process_slots_SlotBehind:
  "(process_slots n process_epoch cache_roots cache_randao state target_slot =
      Some (Inl SlotBehind)) = (target_slot \<le> slot state) \<and>
   ((\<forall>s. slot (process_epoch s) = slot s) \<and> (\<forall>s. slot (cache_roots s) = slot s) \<and>
    (\<forall>s. slot (cache_randao s) = slot s) \<and> slot state < target_slot \<longrightarrow>
    (\<exists>s'. process_slots n process_epoch cache_roots cache_randao state target_slot =
            Some (Inr s') \<and> slot s' = target_slot))"
proof (intro conjI impI)
  show "(process_slots n process_epoch cache_roots cache_randao state target_slot =
      Some (Inl SlotBehind)) = (target_slot \<le> slot state)"
    by (auto simp: process_slots_def)
next
  assume h: "(\<forall>s. slot (process_epoch s) = slot s) \<and> (\<forall>s. slot (cache_roots s) = slot s) \<and>
    (\<forall>s. slot (cache_randao s) = slot s) \<and> slot state < target_slot"
  let ?once = "process_slot_once n slot (\<lambda>k s. s\<lparr>slot := k\<rparr>) process_epoch cache_roots cache_randao"
  have "\<And>s. slot (?once s) = slot s + 1"
    using h by (intro process_slot_once_slot) simp_all
  from process_slots_loop_returns [of slot ?once, OF this, of state target_slot] h
  obtain s' where "process_slots_loop slot ?once target_slot state = Some s'" "slot s' = target_slot"
    by auto
  with h show "\<exists>s'. process_slots n process_epoch cache_roots cache_randao state target_slot =
            Some (Inr s') \<and> slot s' = target_slot"
    by (simp add: process_slots_def)
qed

theorem process_slots_SlotBehind_witness:
  "process_slots 32 id id id (scenario_state [] []) 351 = Some (Inl SlotBehind) \<and>
   process_slots 32 id id id (scenario_state [] []) 350 = Some (Inl SlotBehind) \<and>
   (\<exists>s'. process_slots 32 id id id (scenario_state [] []) 353 = Some (Inr s') \<and> slot s' = 353)"
proof -
  have s: "slot (scenario_state [] []) = 351" by (simp add: scenario_state_def)
  note t = process_slots_SlotBehind [of 32 id id id "scenario_state [] []"]
  from t [of 351] t [of 350] t [of 353] show ?thesis by (simp add: s)
qed

section \<open>Registry updates\<close>

lemma activationCompare_le:
  "(activationCompare vs a b \<le> 0) =
     (activationEligibilityEpoch (vs ! a) < activationEligibilityEpoch (vs ! b) \<or>
      (activationEligibilityEpoch (vs ! a) = activationEligibilityEpoch (vs ! b) \<and> a \<le> b))"
  by (auto simp: activationCompare_def Let_def)

lemma activation_before_trans:
  "activation_before vs a b \<Longrightarrow> activation_before vs b c \<Longrightarrow> activation_before vs a c"
  by (auto simp: activation_before_def)

lemma sorted_insertBy:
  assumes "sorted_wrt (activation_before vs) xs" "x \<notin> set xs"
  shows "sorted_wrt (activation_before vs) (insertBy (activationCompare vs) x xs)"
  using assms
proof (induction xs)
  case Nil
  show ?case by simp
next
  case (Cons y ys)
  show ?case
  proof (cases "activationCompare vs x y \<le> 0")
    case True
    with Cons.prems(2) have xy: "activation_before vs x y"
      by (auto simp: activationCompare_le activation_before_def)
    moreover have "\<forall>z\<in>set ys. activation_before vs x z"
      using xy Cons.prems(1) by (auto intro: activation_before_trans)
    ultimately show ?thesis using True Cons.prems(1) by simp
  next
    case False
    then have yx: "activation_before vs y x"
      by (auto simp: activationCompare_le activation_before_def)
    have "sorted_wrt (activation_before vs) (insertBy (activationCompare vs) x ys)"
      using Cons by simp
    with yx False Cons.prems(1) show ?thesis by (simp add: set_insertBy)
  qed
qed

lemma sorted_sortBy:
  "distinct xs \<Longrightarrow> sorted_wrt (activation_before vs) (sortBy (activationCompare vs) xs)"
proof (induction xs)
  case Nil
  show ?case by (simp add: sortBy_def)
next
  case (Cons x xs)
  then have "sorted_wrt (activation_before vs) (sortBy (activationCompare vs) xs)"
    and "x \<notin> set (sortBy (activationCompare vs) xs)"
    by (simp_all add: set_sortBy)
  from sorted_insertBy [OF this] show ?case by (simp add: sortBy_def)
qed

lemma length_activateAll: "length (activateAll e indices vs) = length vs"
  by (induction indices arbitrary: vs) (simp_all add: activateAll_def)

lemma nth_activateAll:
  "j < length vs \<Longrightarrow>
   activateAll e indices vs ! j =
     (if j \<in> set indices then (vs ! j)\<lparr>activationEpoch := e\<rparr> else vs ! j)"
proof (induction indices arbitrary: vs)
  case Nil
  show ?case by (simp add: activateAll_def)
next
  case (Cons i indices)
  have "activateAll e (i # indices) vs = activateAll e indices (vs[i := (vs ! i)\<lparr>activationEpoch := e\<rparr>])"
    by (simp add: activateAll_def)
  moreover have "(vs[i := (vs ! i)\<lparr>activationEpoch := e\<rparr>] ! j)\<lparr>activationEpoch := e\<rparr> =
                   (vs ! j)\<lparr>activationEpoch := e\<rparr>"
    using Cons.prems by (cases "j = i") simp_all
  moreover have "j \<noteq> i \<Longrightarrow> vs[i := (vs ! i)\<lparr>activationEpoch := e\<rparr>] ! j = vs ! j"
    by simp
  moreover have "vs[i := (vs ! i)\<lparr>activationEpoch := e\<rparr>] ! i = (vs ! i)\<lparr>activationEpoch := e\<rparr>"
    if "j = i" using that Cons.prems by simp
  ultimately show ?case
    using Cons.IH [of "vs[i := (vs ! i)\<lparr>activationEpoch := e\<rparr>]"] Cons.prems
    by (cases "j = i") auto
qed

lemma dequeueActivations_run:
  assumes "\<forall>i\<in>set xs. i < length (flat_validators ep) \<and> i < length (validators s)"
  shows "dequeueActivations H ep fin xs s =
           Inr (s\<lparr>validators :=
                  activateAll (computeActivationExitEpoch H (currentEpoch ep))
                    (takeWhile (\<lambda>i. activationEligibilityEpoch (flat_validators ep ! i) \<le> fin) xs)
                    (validators s)\<rparr>)"
  using assms
proof (induction xs arbitrary: s)
  case Nil
  show ?case by (simp add: activateAll_def)
next
  case (Cons i xs)
  let ?e = "computeActivationExitEpoch H (currentEpoch ep)"
  let ?s1 = "s\<lparr>validators := (validators s)[i := (validators s ! i)\<lparr>activationEpoch := ?e\<rparr>]\<rparr>"
  from Cons.prems have i: "i < length (flat_validators ep)" "i < length (validators s)" by simp_all
  show ?case
  proof (cases "activationEligibilityEpoch (flat_validators ep ! i) \<le> fin")
    case False
    with i show ?thesis by (simp add: lookup_def activateAll_def)
  next
    case True
    have "\<forall>k\<in>set xs. k < length (flat_validators ep) \<and> k < length (validators ?s1)"
      using Cons.prems by simp
    from Cons.IH [OF this] True i show ?thesis
      by (simp add: lookup_def updateValidator_def activateAll_def)
  qed
qed

lemma activation_scan:
  "scanValidators scenario_params (scenario_helpers altair) 9 10 activation_scenario_validators =
     \<lparr>scan_indicesToSlash = [],
      scan_indicesEligibleForActivationQueue = [],
      scan_indicesEligibleForActivation = [0, 1, 2, 3, 4, 5, 6, 7, 8, 9],
      scan_indicesToEject = [],
      scan_nextEpochActiveValidatorIndices = [],
      scan_statuses =
        [\<lparr>flags = {FLAG_UNSLASHED}, active = False\<rparr>,
         \<lparr>flags = {FLAG_UNSLASHED}, active = False\<rparr>,
         \<lparr>flags = {FLAG_UNSLASHED}, active = False\<rparr>,
         \<lparr>flags = {FLAG_UNSLASHED}, active = False\<rparr>,
         \<lparr>flags = {FLAG_UNSLASHED}, active = False\<rparr>,
         \<lparr>flags = {FLAG_UNSLASHED}, active = False\<rparr>,
         \<lparr>flags = {FLAG_UNSLASHED}, active = False\<rparr>,
         \<lparr>flags = {FLAG_UNSLASHED}, active = False\<rparr>,
         \<lparr>flags = {FLAG_UNSLASHED}, active = False\<rparr>,
         \<lparr>flags = {FLAG_UNSLASHED}, active = False\<rparr>],
      scan_totalActiveStake = 0\<rparr>"
  by (simp add: scanValidators_def indexed_def activation_scenario_validators_def
      queued_validator_def scenario_validator_def scenario_params_def scenario_helpers_def
      scanInit_def scanValidator_def scanSlashed_def scanRegistry_def createIAttesterStatus_def
      intDiv_def Let_def)

lemma activation_sort:
  "sortBy (activationCompare activation_scenario_validators) [0, 1, 2, 3, 4, 5, 6, 7, 8, 9] =
     [8, 5, 1, 3, 7, 0, 6, 2, 4, 9]"
  by (simp add: sortBy_def activationCompare_def activation_scenario_validators_def
      queued_validator_def Let_def)

lemma activation_summary:
  "beforeProcessEpoch scenario_params (scenario_helpers altair) activation_scenario_state =
     Inr \<lparr>prevEpoch = 9, currentEpoch = 10, totalActiveStake = 1000000000,
          baseRewardPerIncrement = 0,
          prevEpochUnslashedStake =
            \<lparr>sourceStake = 1000000000, targetStake = 1000000000, headStake = 1000000000\<rparr>,
          currEpochUnslashedTargetStake = 1000000000,
          indicesToSlash = [], indicesEligibleForActivationQueue = [],
          indicesEligibleForActivation = [8, 5, 1, 3, 7, 0, 6, 2, 4, 9], indicesToEject = [],
          nextEpochActiveValidatorIndices = [],
          statusesFlat =
            [\<lparr>flags = {FLAG_UNSLASHED}, active = False\<rparr>,
         \<lparr>flags = {FLAG_UNSLASHED}, active = False\<rparr>,
         \<lparr>flags = {FLAG_UNSLASHED}, active = False\<rparr>,
         \<lparr>flags = {FLAG_UNSLASHED}, active = False\<rparr>,
         \<lparr>flags = {FLAG_UNSLASHED}, active = False\<rparr>,
         \<lparr>flags = {FLAG_UNSLASHED}, active = False\<rparr>,
         \<lparr>flags = {FLAG_UNSLASHED}, active = False\<rparr>,
         \<lparr>flags = {FLAG_UNSLASHED}, active = False\<rparr>,
         \<lparr>flags = {FLAG_UNSLASHED}, active = False\<rparr>,
         \<lparr>flags = {FLAG_UNSLASHED}, active = False\<rparr>],
          balancesFlat = [32000000000, 32000000000, 32000000000, 32000000000, 32000000000, 32000000000, 32000000000, 32000000000, 32000000000, 32000000000]\<rparr>"
proof -
  have ctx: "getForkName (scenario_helpers altair) (slot activation_scenario_state) = altair"
    "currentShuffling_epoch (epochCtx activation_scenario_state) = 10"
    "previousShuffling_epoch (epochCtx activation_scenario_state) = 9"
    "validators activation_scenario_state = activation_scenario_validators"
    "previousEpochParticipation activation_scenario_state = []"
    "currentEpochParticipation activation_scenario_state = []"
    "balances activation_scenario_state = [32000000000, 32000000000, 32000000000, 32000000000, 32000000000, 32000000000, 32000000000, 32000000000, 32000000000, 32000000000]"
    "EFFECTIVE_BALANCE_INCREMENT scenario_params = 1000000000"
    "computeBaseRewardPerIncrement (scenario_helpers altair) = (\<lambda>_. 0)"
    by (simp_all add: activation_scenario_state_def scenario_state_def scenario_helpers_def
        scenario_params_def)
  show ?thesis
    unfolding beforeProcessEpoch_def ctx Let_def activation_scan ScanLocals.simps activation_sort
    by (simp add: ctx attributeParticipation_def forEachStatus_def indexed_def floorAt_def
        sumStake_def addStake_def hasMarkers_def lookup_def)
qed

lemma activation_run:
  "processRegistryUpdates (scenario_helpers altair) activation_scenario_state
     (flatSummary
        (projr (beforeProcessEpoch scenario_params (scenario_helpers altair)
                  activation_scenario_state))
        (validators activation_scenario_state)) =
   Inr (activation_scenario_state\<lparr>validators :=
          [queued_validator 5, (queued_validator 3)\<lparr>activationEpoch := 15\<rparr>,
           queued_validator 7, (queued_validator 3)\<lparr>activationEpoch := 15\<rparr>,
           queued_validator 8, (queued_validator 2)\<lparr>activationEpoch := 15\<rparr>,
           queued_validator 6, queued_validator 4,
           (queued_validator 1)\<lparr>activationEpoch := 15\<rparr>, queued_validator 8]\<rparr>)"
proof -
  have ctx: "validators activation_scenario_state = activation_scenario_validators"
    "finalizedCheckpoint_epoch activation_scenario_state = 8"
    "churnLimit (epochCtx activation_scenario_state) = 4"
    "computeActivationExitEpoch (scenario_helpers altair) 10 = 15"
    "\<And>e. activationEligibilityEpoch (queued_validator e) = e"
    by (simp_all add: activation_scenario_state_def scenario_state_def scenario_helpers_def
        queued_validator_def)
  show ?thesis
    unfolding activation_summary sum.sel
    by (simp add: processRegistryUpdates_def flatSummary_def ctx lookup_def updateValidator_def
        activation_scenario_validators_def)
qed

lemma length_setEligibility: "length (setEligibility e indices vs) = length vs"
  by (induction indices arbitrary: vs) (simp_all add: setEligibility_def)

lemma nth_setEligibility:
  "j < length vs \<Longrightarrow>
   setEligibility e indices vs ! j =
     (if j \<in> set indices then (vs ! j)\<lparr>activationEligibilityEpoch := e\<rparr> else vs ! j)"
proof (induction indices arbitrary: vs)
  case Nil
  show ?case by (simp add: setEligibility_def)
next
  case (Cons i indices)
  have "setEligibility e (i # indices) vs =
          setEligibility e indices (vs[i := (vs ! i)\<lparr>activationEligibilityEpoch := e\<rparr>])"
    by (simp add: setEligibility_def)
  moreover have "(vs[i := (vs ! i)\<lparr>activationEligibilityEpoch := e\<rparr>] ! j)
                    \<lparr>activationEligibilityEpoch := e\<rparr> =
                 (vs ! j)\<lparr>activationEligibilityEpoch := e\<rparr>"
    using Cons.prems by (cases "j = i") simp_all
  moreover have "j \<noteq> i \<Longrightarrow> vs[i := (vs ! i)\<lparr>activationEligibilityEpoch := e\<rparr>] ! j = vs ! j"
    by simp
  moreover have "vs[i := (vs ! i)\<lparr>activationEligibilityEpoch := e\<rparr>] ! i =
                   (vs ! i)\<lparr>activationEligibilityEpoch := e\<rparr>"
    if "j = i" using that Cons.prems by simp
  ultimately show ?case
    using Cons.IH [of "vs[i := (vs ! i)\<lparr>activationEligibilityEpoch := e\<rparr>]"] Cons.prems
    by (cases "j = i") auto
qed

lemma eligibility_loop:
  assumes "\<forall>i\<in>set xs. i < length (validators s)"
  shows "forEach (\<lambda>index t. updateValidator index
            (\<lambda>w. w\<lparr>activationEligibilityEpoch := currentShuffling_epoch (epochCtx t) + 1\<rparr>) t) xs s =
         Inr (s\<lparr>validators :=
                setEligibility (currentShuffling_epoch (epochCtx s) + 1) xs (validators s)\<rparr>)"
  using assms
proof (induction xs arbitrary: s)
  case Nil
  show ?case by (simp add: setEligibility_def)
next
  case (Cons i xs)
  let ?e = "currentShuffling_epoch (epochCtx s) + 1"
  let ?s1 = "s\<lparr>validators := (validators s)[i := (validators s ! i)\<lparr>activationEligibilityEpoch := ?e\<rparr>]\<rparr>"
  have "\<forall>k\<in>set xs. k < length (validators ?s1)" using Cons.prems by simp
  from Cons.IH [OF this] Cons.prems show ?case
    by (simp add: updateValidator_def setEligibility_def)
qed

lemma processRegistryUpdates_run:
  assumes eject: "forEach (\<lambda>index t. initiateValidatorExit H t index) (indicesToEject ep) s = Inr s1"
    and queue: "\<forall>i\<in>set (indicesEligibleForActivationQueue ep). i < length (validators s1)"
    and slice: "\<forall>i\<in>set (take (churnLimit (epochCtx s1)) (indicesEligibleForActivation ep)).
                  i < length (flat_validators ep) \<and> i < length (validators s1)"
  shows "processRegistryUpdates H s ep =
           Inr (s1\<lparr>validators :=
                  activateAll (computeActivationExitEpoch H (currentEpoch ep))
                    (spec_activated (flat_validators ep) (finalizedCheckpoint_epoch s1)
                       (churnLimit (epochCtx s1)) (indicesEligibleForActivation ep))
                    (setEligibility (currentShuffling_epoch (epochCtx s1) + 1)
                       (indicesEligibleForActivationQueue ep) (validators s1))\<rparr>)"
proof -
  let ?V2 = "setEligibility (currentShuffling_epoch (epochCtx s1) + 1)
               (indicesEligibleForActivationQueue ep) (validators s1)"
  let ?s2 = "s1\<lparr>validators := ?V2\<rparr>"
  have 2: "forEach (\<lambda>index t. updateValidator index
            (\<lambda>w. w\<lparr>activationEligibilityEpoch := currentShuffling_epoch (epochCtx t) + 1\<rparr>) t)
            (indicesEligibleForActivationQueue ep) s1 = Inr ?s2"
    by (rule eligibility_loop [OF queue])
  have "\<forall>i\<in>set (take (churnLimit (epochCtx ?s2)) (indicesEligibleForActivation ep)).
          i < length (flat_validators ep) \<and> i < length (validators ?s2)"
    using slice by (simp add: length_setEligibility)
  from dequeueActivations_run [OF this, of H "finalizedCheckpoint_epoch ?s2"]
  have 3: "dequeueActivations H ep (finalizedCheckpoint_epoch s1)
             (take (churnLimit (epochCtx s1)) (indicesEligibleForActivation ep)) ?s2 =
           Inr (s1\<lparr>validators :=
                  activateAll (computeActivationExitEpoch H (currentEpoch ep))
                    (spec_activated (flat_validators ep) (finalizedCheckpoint_epoch s1)
                       (churnLimit (epochCtx s1)) (indicesEligibleForActivation ep)) ?V2\<rparr>)"
    by (simp add: spec_activated_def)
  show ?thesis
    unfolding processRegistryUpdates_def eject sum.case 2 Let_def
    using 3 by simp
qed

lemma activation_summary_early:
  "beforeProcessEpoch scenario_params (scenario_helpers altair) activation_scenario_state_early =
   beforeProcessEpoch scenario_params (scenario_helpers altair) activation_scenario_state"
proof -
  have f: "getForkName (scenario_helpers altair) = (\<lambda>_. altair)"
    by (simp add: scenario_helpers_def)
  show ?thesis
    unfolding activation_scenario_state_early_def beforeProcessEpoch_def
    by (simp add: attributeParticipation_def f Let_def cong: sum.case_cong)
qed

lemma activation_run_early:
  "processRegistryUpdates (scenario_helpers altair) activation_scenario_state_early
     (flatSummary
        (projr (beforeProcessEpoch scenario_params (scenario_helpers altair)
                  activation_scenario_state_early))
        (validators activation_scenario_state_early)) =
   Inr (activation_scenario_state_early\<lparr>validators :=
          [queued_validator 5, queued_validator 3,
           queued_validator 7, queued_validator 3,
           queued_validator 8, (queued_validator 2)\<lparr>activationEpoch := 15\<rparr>,
           queued_validator 6, queued_validator 4,
           (queued_validator 1)\<lparr>activationEpoch := 15\<rparr>, queued_validator 8]\<rparr>)"
proof -
  have ctx: "validators activation_scenario_state = activation_scenario_validators"
    "validators activation_scenario_state_early = activation_scenario_validators"
    "finalizedCheckpoint_epoch activation_scenario_state_early = 2"
    "churnLimit (epochCtx activation_scenario_state_early) = 4"
    "computeActivationExitEpoch (scenario_helpers altair) 10 = 15"
    "\<And>e. activationEligibilityEpoch (queued_validator e) = e"
    by (simp_all add: activation_scenario_state_early_def activation_scenario_state_def
        scenario_state_def scenario_helpers_def queued_validator_def)
  show ?thesis
    unfolding activation_summary_early activation_summary sum.sel
    by (simp add: processRegistryUpdates_def flatSummary_def ctx lookup_def updateValidator_def
        activation_scenario_validators_def)
qed

text \<open>
  Claim C3. The activation list of the summary is sorted ascending by
  \<open>(activation_eligibility_epoch, index)\<close>. After its ejection loop has left the state
  \<open>s1\<close>, \<open>processRegistryUpdates\<close> returns \<open>s1\<close> with the eligibility epochs of the
  queue indices set and with the activation epoch
  \<open>compute_activation_exit_epoch(current_epoch)\<close> written to exactly these entries of the
  activation list: of its first \<open>churnLimit\<close> entries, those before the first one whose
  eligibility epoch exceeds \<open>state.finalizedCheckpoint.epoch\<close>. Every other validator is
  left as it was. With a churn limit of 4 and ten queued validators, all eligible under the
  finalized epoch 8, the four smallest of the order (indices 8, 5, 1, 3) are activated and
  nobody else; with the finalized epoch at 2 only indices 8 and 5 are.
\<close>

theorem processRegistryUpdates_activation:
  "(beforeProcessEpoch P H0 state0 = Inr ep0 \<longrightarrow>
      sorted_wrt (activation_before (validators state0)) (indicesEligibleForActivation ep0)) \<and>
   (forEach (\<lambda>index t. initiateValidatorExit H t index) (indicesToEject ep) s = Inr s1 \<and>
    (\<forall>i\<in>set (indicesEligibleForActivationQueue ep). i < length (validators s1)) \<and>
    (\<forall>i\<in>set (take (churnLimit (epochCtx s1)) (indicesEligibleForActivation ep)).
        i < length (flat_validators ep) \<and> i < length (validators s1)) \<longrightarrow>
      processRegistryUpdates H s ep =
        Inr (s1\<lparr>validators :=
               activateAll (computeActivationExitEpoch H (currentEpoch ep))
                 (spec_activated (flat_validators ep) (finalizedCheckpoint_epoch s1)
                    (churnLimit (epochCtx s1)) (indicesEligibleForActivation ep))
                 (setEligibility (currentShuffling_epoch (epochCtx s1) + 1)
                    (indicesEligibleForActivationQueue ep) (validators s1))\<rparr>)) \<and>
   (\<forall>j<length vs.
      activateAll e indices vs ! j =
        (if j \<in> set indices then (vs ! j)\<lparr>activationEpoch := e\<rparr> else vs ! j) \<and>
      setEligibility e indices vs ! j =
        (if j \<in> set indices then (vs ! j)\<lparr>activationEligibilityEpoch := e\<rparr> else vs ! j)) \<and>
   indicesEligibleForActivation
     (projr (beforeProcessEpoch scenario_params (scenario_helpers altair)
               activation_scenario_state)) = [8, 5, 1, 3, 7, 0, 6, 2, 4, 9] \<and>
   processRegistryUpdates (scenario_helpers altair) activation_scenario_state
     (flatSummary
        (projr (beforeProcessEpoch scenario_params (scenario_helpers altair)
                  activation_scenario_state))
        (validators activation_scenario_state)) =
   Inr (activation_scenario_state\<lparr>validators :=
          [queued_validator 5, (queued_validator 3)\<lparr>activationEpoch := 15\<rparr>,
           queued_validator 7, (queued_validator 3)\<lparr>activationEpoch := 15\<rparr>,
           queued_validator 8, (queued_validator 2)\<lparr>activationEpoch := 15\<rparr>,
           queued_validator 6, queued_validator 4,
           (queued_validator 1)\<lparr>activationEpoch := 15\<rparr>, queued_validator 8]\<rparr>) \<and>
   processRegistryUpdates (scenario_helpers altair) activation_scenario_state_early
     (flatSummary
        (projr (beforeProcessEpoch scenario_params (scenario_helpers altair)
                  activation_scenario_state_early))
        (validators activation_scenario_state_early)) =
   Inr (activation_scenario_state_early\<lparr>validators :=
          [queued_validator 5, queued_validator 3,
           queued_validator 7, queued_validator 3,
           queued_validator 8, (queued_validator 2)\<lparr>activationEpoch := 15\<rparr>,
           queued_validator 6, queued_validator 4,
           (queued_validator 1)\<lparr>activationEpoch := 15\<rparr>, queued_validator 8]\<rparr>)"
proof (intro conjI impI allI)
  assume a: "beforeProcessEpoch P H0 state0 = Inr ep0"
  let ?L = "scanValidators P H0 (previousShuffling_epoch (epochCtx state0))
              (currentShuffling_epoch (epochCtx state0)) (validators state0)"
  from beforeProcessEpoch_Inr [OF a] have
    "indicesEligibleForActivation ep0 =
       sortBy (activationCompare (validators state0)) (scan_indicesEligibleForActivation ?L)"
    by auto
  moreover have "distinct (scan_indicesEligibleForActivation ?L)"
    by (simp add: scanValidators_result)
  ultimately show "sorted_wrt (activation_before (validators state0))
                     (indicesEligibleForActivation ep0)"
    by (simp add: sorted_sortBy)
next
  assume h: "forEach (\<lambda>index t. initiateValidatorExit H t index) (indicesToEject ep) s = Inr s1 \<and>
    (\<forall>i\<in>set (indicesEligibleForActivationQueue ep). i < length (validators s1)) \<and>
    (\<forall>i\<in>set (take (churnLimit (epochCtx s1)) (indicesEligibleForActivation ep)).
        i < length (flat_validators ep) \<and> i < length (validators s1))"
  show "processRegistryUpdates H s ep =
        Inr (s1\<lparr>validators :=
               activateAll (computeActivationExitEpoch H (currentEpoch ep))
                 (spec_activated (flat_validators ep) (finalizedCheckpoint_epoch s1)
                    (churnLimit (epochCtx s1)) (indicesEligibleForActivation ep))
                 (setEligibility (currentShuffling_epoch (epochCtx s1) + 1)
                    (indicesEligibleForActivationQueue ep) (validators s1))\<rparr>)"
    by (rule processRegistryUpdates_run [OF conjunct1 [OF h] conjunct1 [OF conjunct2 [OF h]]
          conjunct2 [OF conjunct2 [OF h]]])
next
  fix j assume j: "j < length vs"
  then show "activateAll e indices vs ! j =
        (if j \<in> set indices then (vs ! j)\<lparr>activationEpoch := e\<rparr> else vs ! j)"
    by (rule nth_activateAll)
  from j show "setEligibility e indices vs ! j =
        (if j \<in> set indices then (vs ! j)\<lparr>activationEligibilityEpoch := e\<rparr> else vs ! j)"
    by (rule nth_setEligibility)
next
  show "indicesEligibleForActivation
     (projr (beforeProcessEpoch scenario_params (scenario_helpers altair)
               activation_scenario_state)) = [8, 5, 1, 3, 7, 0, 6, 2, 4, 9]"
    unfolding activation_summary sum.sel by simp
next
  show "processRegistryUpdates (scenario_helpers altair) activation_scenario_state
     (flatSummary
        (projr (beforeProcessEpoch scenario_params (scenario_helpers altair)
                  activation_scenario_state))
        (validators activation_scenario_state)) =
   Inr (activation_scenario_state\<lparr>validators :=
          [queued_validator 5, (queued_validator 3)\<lparr>activationEpoch := 15\<rparr>,
           queued_validator 7, (queued_validator 3)\<lparr>activationEpoch := 15\<rparr>,
           queued_validator 8, (queued_validator 2)\<lparr>activationEpoch := 15\<rparr>,
           queued_validator 6, queued_validator 4,
           (queued_validator 1)\<lparr>activationEpoch := 15\<rparr>, queued_validator 8]\<rparr>)"
    by (rule activation_run)
next
  show "processRegistryUpdates (scenario_helpers altair) activation_scenario_state_early
     (flatSummary
        (projr (beforeProcessEpoch scenario_params (scenario_helpers altair)
                  activation_scenario_state_early))
        (validators activation_scenario_state_early)) =
   Inr (activation_scenario_state_early\<lparr>validators :=
          [queued_validator 5, queued_validator 3,
           queued_validator 7, queued_validator 3,
           queued_validator 8, (queued_validator 2)\<lparr>activationEpoch := 15\<rparr>,
           queued_validator 6, queued_validator 4,
           (queued_validator 1)\<lparr>activationEpoch := 15\<rparr>, queued_validator 8]\<rparr>)"
    by (rule activation_run_early)
qed

theorem processRegistryUpdates_activation_witness:
  "sorted_wrt (activation_before (validators activation_scenario_state))
     (indicesEligibleForActivation
        (projr (beforeProcessEpoch scenario_params (scenario_helpers altair)
                  activation_scenario_state))) \<and>
   processRegistryUpdates (scenario_helpers altair) activation_scenario_state
     (flatSummary
        (projr (beforeProcessEpoch scenario_params (scenario_helpers altair)
                  activation_scenario_state))
        activation_scenario_validators) =
   Inr (activation_scenario_state\<lparr>validators :=
          activateAll 15 [8, 5, 1, 3]
            (setEligibility 11 [] (validators activation_scenario_state))\<rparr>) \<and>
   activateAll 15 [8, 5, 1, 3] activation_scenario_validators ! 8 =
     (activation_scenario_validators ! 8)\<lparr>activationEpoch := 15\<rparr> \<and>
   activateAll 15 [8, 5, 1, 3] activation_scenario_validators ! 7 =
     activation_scenario_validators ! 7"
proof -
  let ?E = "projr (beforeProcessEpoch scenario_params (scenario_helpers altair)
                     activation_scenario_state)"
  let ?F = "flatSummary ?E activation_scenario_validators"
  let ?H = "scenario_helpers altair"
  have run: "beforeProcessEpoch scenario_params ?H activation_scenario_state = Inr ?E"
    unfolding activation_summary sum.sel by (rule refl)
  have q: "indicesEligibleForActivation ?F = [8, 5, 1, 3, 7, 0, 6, 2, 4, 9]"
    "currentEpoch ?F = 10" "indicesToEject ?F = []" "indicesEligibleForActivationQueue ?F = []"
    "flat_validators ?F = activation_scenario_validators"
    unfolding activation_summary sum.sel by (simp_all add: flatSummary_def)
  have v: "churnLimit (epochCtx activation_scenario_state) = 4"
    "finalizedCheckpoint_epoch activation_scenario_state = 8"
    "currentShuffling_epoch (epochCtx activation_scenario_state) + 1 = 11"
    "computeActivationExitEpoch ?H 10 = 15"
    by (simp_all add: activation_scenario_state_def scenario_state_def scenario_helpers_def)
  have len: "length (validators activation_scenario_state) = 10"
    "length activation_scenario_validators = 10"
    by (simp_all add: activation_scenario_state_def scenario_state_def
        activation_scenario_validators_def)
  have act: "spec_activated activation_scenario_validators 8 4 [8, 5, 1, 3, 7, 0, 6, 2, 4, 9] =
               [8, 5, 1, 3]"
    by (simp add: spec_activated_def activation_scenario_validators_def queued_validator_def)
  have tk: "take 4 [8, 5, 1, 3, 7, 0, 6, 2, 4, 9] = [8, 5, 1, 3 :: nat]" by simp
  have h1: "forEach (\<lambda>index t. initiateValidatorExit ?H t index) (indicesToEject ?F)
              activation_scenario_state = Inr activation_scenario_state"
    unfolding q by simp
  have h2: "\<forall>i\<in>set (indicesEligibleForActivationQueue ?F).
              i < length (validators activation_scenario_state)"
    unfolding q by simp
  have h3: "\<forall>i\<in>set (take (churnLimit (epochCtx activation_scenario_state))
                        (indicesEligibleForActivation ?F)).
              i < length (flat_validators ?F) \<and> i < length (validators activation_scenario_state)"
    unfolding q v tk len by simp
  note t = processRegistryUpdates_activation
    [of scenario_params ?H activation_scenario_state ?E
        ?H ?F activation_scenario_state activation_scenario_state
        activation_scenario_validators 15 "[8, 5, 1, 3]"]
  from t run have a: "sorted_wrt (activation_before (validators activation_scenario_state))
     (indicesEligibleForActivation ?E)"
    by blast
  from t h1 h2 h3 have
    "processRegistryUpdates ?H activation_scenario_state ?F =
        Inr (activation_scenario_state\<lparr>validators :=
               activateAll (computeActivationExitEpoch ?H (currentEpoch ?F))
                 (spec_activated (flat_validators ?F)
                    (finalizedCheckpoint_epoch activation_scenario_state)
                    (churnLimit (epochCtx activation_scenario_state))
                    (indicesEligibleForActivation ?F))
                 (setEligibility (currentShuffling_epoch (epochCtx activation_scenario_state) + 1)
                    (indicesEligibleForActivationQueue ?F)
                    (validators activation_scenario_state))\<rparr>)"
    by blast
  then have b: "processRegistryUpdates ?H activation_scenario_state ?F =
        Inr (activation_scenario_state\<lparr>validators :=
               activateAll 15 [8, 5, 1, 3]
                 (setEligibility 11 [] (validators activation_scenario_state))\<rparr>)"
    unfolding q v act .
  from t have c: "\<forall>j<length activation_scenario_validators.
      activateAll 15 [8, 5, 1, 3] activation_scenario_validators ! j =
        (if j \<in> set [8, 5, 1, 3] then (activation_scenario_validators ! j)\<lparr>activationEpoch := 15\<rparr>
         else activation_scenario_validators ! j)"
    by blast
  have "(8::nat) < length activation_scenario_validators"
    "(7::nat) < length activation_scenario_validators"
    unfolding len by simp_all
  with c have d: "activateAll 15 [8, 5, 1, 3] activation_scenario_validators ! 8 =
     (activation_scenario_validators ! 8)\<lparr>activationEpoch := 15\<rparr>"
    "activateAll 15 [8, 5, 1, 3] activation_scenario_validators ! 7 =
     activation_scenario_validators ! 7"
    by simp_all
  from a b d show ?thesis by blast
qed

section \<open>Effective balances across the sub-phases\<close>

lemma updateValidator_effectiveBalance:
  assumes "updateValidator i f s = Inr s'" "\<And>v. effectiveBalance (f v) = effectiveBalance v"
  shows "map effectiveBalance (validators s') = map effectiveBalance (validators s)"
proof -
  from assms(1) have i: "i < length (validators s)"
    and s': "validators s' = (validators s)[i := f (validators s ! i)]"
    by (auto simp: updateValidator_def split: if_splits)
  have "map effectiveBalance ((validators s)[i := f (validators s ! i)]) =
          (map effectiveBalance (validators s))[i := effectiveBalance (validators s ! i)]"
    by (simp add: map_update assms(2))
  also have "\<dots> = map effectiveBalance (validators s)"
    using i by (metis list_update_id nth_map)
  finally show ?thesis by (simp add: s')
qed

lemma dequeueActivations_effectiveBalance:
  "dequeueActivations H ep fin xs s = Inr s' \<Longrightarrow>
   map effectiveBalance (validators s') = map effectiveBalance (validators s)"
proof (induction xs arbitrary: s)
  case Nil
  then show ?case by simp
next
  case (Cons i xs)
  show ?case
  proof (cases "lookup (flat_validators ep) i")
    case None
    with Cons.prems show ?thesis by simp
  next
    case (Some v)
    show ?thesis
    proof (cases "activationEligibilityEpoch v > fin")
      case True
      with Some Cons.prems show ?thesis by simp
    next
      case False
      with Some Cons.prems obtain t where
        t: "updateValidator i (\<lambda>w. w\<lparr>activationEpoch :=
              computeActivationExitEpoch H (currentEpoch ep)\<rparr>) s = Inr t"
        and rest: "dequeueActivations H ep fin xs t = Inr s'"
        by (auto split: sum.splits)
      from updateValidator_effectiveBalance [OF t] Cons.IH [OF rest] show ?thesis by simp
    qed
  qed
qed

lemma processRegistryUpdates_effectiveBalance:
  assumes "\<And>t i t'. initiateValidatorExit H t i = Inr t' \<Longrightarrow>
             map effectiveBalance (validators t') = map effectiveBalance (validators t)"
    and "processRegistryUpdates H r ep = Inr r'"
  shows "map effectiveBalance (validators r') = map effectiveBalance (validators r)"
proof -
  from assms(2) obtain s1 s2 where
    1: "forEach (\<lambda>index s. initiateValidatorExit H s index) (indicesToEject ep) r = Inr s1"
    and 2: "forEach (\<lambda>index s. updateValidator index
              (\<lambda>w. w\<lparr>activationEligibilityEpoch := currentShuffling_epoch (epochCtx s) + 1\<rparr>) s)
            (indicesEligibleForActivationQueue ep) s1 = Inr s2"
    and 3: "dequeueActivations H ep (finalizedCheckpoint_epoch s2)
              (take (churnLimit (epochCtx s2)) (indicesEligibleForActivation ep)) s2 = Inr r'"
    by (auto simp: processRegistryUpdates_def Let_def split: sum.splits)
  have "map effectiveBalance (validators s1) = map effectiveBalance (validators r)"
    by (rule forEach_invariant [OF 1, where
          Inv = "\<lambda>t. map effectiveBalance (validators t) = map effectiveBalance (validators r)"])
       (simp_all add: assms(1))
  moreover have "map effectiveBalance (validators s2) = map effectiveBalance (validators s1)"
    by (rule forEach_invariant [OF 2, where
          Inv = "\<lambda>t. map effectiveBalance (validators t) = map effectiveBalance (validators s1)"])
       (simp_all add: updateValidator_effectiveBalance)
  moreover note dequeueActivations_effectiveBalance [OF 3]
  ultimately show ?thesis by simp
qed

lemma processSlashings_validators:
  assumes "\<And>t i d t'. decreaseBalance H t i d = Inr t' \<Longrightarrow> validators t' = validators t"
    and "processSlashingsAllForks P H fork r ep = Inr r'"
  shows "validators r' = validators r"
proof (cases "indicesToSlash ep = []")
  case True
  with assms(2) show ?thesis by (simp add: processSlashingsAllForks_def)
next
  case False
  with assms(2) obtain a t where
    run: "forEach (slashIndex P H a t) (indicesToSlash ep) r = Inr r'"
    by (auto simp: processSlashingsAllForks_def Let_def)
  show ?thesis
  proof (rule forEach_invariant [OF run, where Inv = "\<lambda>u. validators u = validators r"])
    show "validators r = validators r" by simp
  next
    fix x u u'
    assume "validators u = validators r" "slashIndex P H a t x u = Inr u'"
    then show "validators u' = validators r"
      using assms(1) by (auto simp: slashIndex_def split: option.splits sum.splits)
  qed
qed

lemma updateValidator_balances:
  "updateValidator i f s = Inr s' \<Longrightarrow> balances s' = balances s"
  by (auto simp: updateValidator_def split: if_splits)

lemma dequeueActivations_balances:
  "dequeueActivations H ep fin xs s = Inr s' \<Longrightarrow> balances s' = balances s"
proof (induction xs arbitrary: s)
  case Nil
  then show ?case by simp
next
  case (Cons i xs)
  show ?case
  proof (cases "lookup (flat_validators ep) i")
    case None
    with Cons.prems show ?thesis by simp
  next
    case (Some v)
    show ?thesis
    proof (cases "activationEligibilityEpoch v > fin")
      case True
      with Some Cons.prems show ?thesis by simp
    next
      case False
      with Some Cons.prems obtain t where
        t: "updateValidator i (\<lambda>w. w\<lparr>activationEpoch :=
              computeActivationExitEpoch H (currentEpoch ep)\<rparr>) s = Inr t"
        and rest: "dequeueActivations H ep fin xs t = Inr s'"
        by (auto split: sum.splits)
      from updateValidator_balances [OF t] Cons.IH [OF rest] show ?thesis by simp
    qed
  qed
qed

lemma processRegistryUpdates_balances:
  assumes "\<And>t i t'. initiateValidatorExit H t i = Inr t' \<Longrightarrow> balances t' = balances t"
    and "processRegistryUpdates H r ep = Inr r'"
  shows "balances r' = balances r"
proof -
  from assms(2) obtain s1 s2 where
    1: "forEach (\<lambda>index s. initiateValidatorExit H s index) (indicesToEject ep) r = Inr s1"
    and 2: "forEach (\<lambda>index s. updateValidator index
              (\<lambda>w. w\<lparr>activationEligibilityEpoch := currentShuffling_epoch (epochCtx s) + 1\<rparr>) s)
            (indicesEligibleForActivationQueue ep) s1 = Inr s2"
    and 3: "dequeueActivations H ep (finalizedCheckpoint_epoch s2)
              (take (churnLimit (epochCtx s2)) (indicesEligibleForActivation ep)) s2 = Inr r'"
    by (auto simp: processRegistryUpdates_def Let_def split: sum.splits)
  have "balances s1 = balances r"
    by (rule forEach_invariant [OF 1, where Inv = "\<lambda>t. balances t = balances r"])
       (simp_all add: assms(1))
  moreover have "balances s2 = balances s1"
    by (rule forEach_invariant [OF 2, where Inv = "\<lambda>t. balances t = balances s1"])
       (simp_all add: updateValidator_balances)
  moreover note dequeueActivations_balances [OF 3]
  ultimately show ?thesis by simp
qed

lemma initiate_validator_exit_frame:
  assumes "initiate_validator_exit X t i = Inr t'"
  shows "map effectiveBalance (validators t') = map effectiveBalance (validators t)"
    and "balances t' = balances t"
proof -
  from assms obtain u where
    u: "updateValidator i
          (\<lambda>w. w\<lparr>exitEpoch := exit_queue_epoch X t,
                 withdrawableEpoch := exit_queue_epoch X t + MIN_VALIDATOR_WITHDRAWABILITY_DELAY X\<rparr>)
          t = Inr u"
    and t': "t' = u\<lparr>BeaconState.more := exit_queue_churn X u\<rparr>"
    by (auto simp: initiate_validator_exit_def Let_def split: sum.splits)
  from updateValidator_effectiveBalance [OF u] t'
  show "map effectiveBalance (validators t') = map effectiveBalance (validators t)" by simp
  from updateValidator_balances [OF u] t' show "balances t' = balances t" by simp
qed

lemma saturatingDecrease_frame:
  assumes "saturatingDecrease t i d = Inr t'"
  shows "validators t' = validators t"
    and "(\<forall>b\<in>set (balances t). 0 \<le> b) \<Longrightarrow> (\<forall>b\<in>set (balances t'). 0 \<le> b)"
proof -
  from assms have t': "t' = t\<lparr>balances := (balances t)
                  [i := (if balances t ! i > d then balances t ! i - d else 0)]\<rparr>"
    by (auto simp: saturatingDecrease_def split: if_splits)
  show "validators t' = validators t" by (simp add: t')
  assume nn: "\<forall>b\<in>set (balances t). 0 \<le> b"
  have new: "0 \<le> (if balances t ! i > d then balances t ! i - d else 0)"
  proof (cases "i < length (balances t)")
    case True
    then have "0 \<le> balances t ! i" using nn by simp
    then show ?thesis by (cases "0 \<le> d") auto
  next
    case False
    with assms show ?thesis by (simp add: saturatingDecrease_def)
  qed
  have "set (balances t') \<subseteq>
          insert (if balances t ! i > d then balances t ! i - d else 0) (set (balances t))"
    by (simp add: t' set_update_subset_insert)
  with nn new show "\<forall>b\<in>set (balances t'). 0 \<le> b" by auto
qed

lemma processSlashings_balances_nonneg:
  assumes "\<And>t i d t'. decreaseBalance H t i d = Inr t' \<Longrightarrow>
             (\<forall>b\<in>set (balances t). 0 \<le> b) \<Longrightarrow> (\<forall>b\<in>set (balances t'). 0 \<le> b)"
    and "processSlashingsAllForks P H fork r ep = Inr r'"
    and "\<forall>b\<in>set (balances r). 0 \<le> b"
  shows "\<forall>b\<in>set (balances r'). 0 \<le> b"
proof (cases "indicesToSlash ep = []")
  case True
  with assms(2,3) show ?thesis by (simp add: processSlashingsAllForks_def)
next
  case False
  with assms(2) obtain a t where
    run: "forEach (slashIndex P H a t) (indicesToSlash ep) r = Inr r'"
    by (auto simp: processSlashingsAllForks_def Let_def)
  show ?thesis
  proof (rule forEach_invariant [OF run, where Inv = "\<lambda>u. \<forall>b\<in>set (balances u). 0 \<le> b"])
    show "\<forall>b\<in>set (balances r). 0 \<le> b" by (rule assms(3))
  next
    fix x u u'
    assume inv: "\<forall>b\<in>set (balances u). 0 \<le> b" and step: "slashIndex P H a t x u = Inr u'"
    from step obtain d where "decreaseBalance H u x d = Inr u'"
      by (auto simp: slashIndex_def split: option.splits sum.splits)
    from assms(1) [OF this inv] show "\<forall>b\<in>set (balances u'). 0 \<le> b" .
  qed
qed

lemma rewards_nonneg:
  assumes "\<forall>b\<in>set (balances s). 0 \<le> b"
  shows "\<forall>b\<in>set (balances (process_rewards_and_penalties X s summary)). 0 \<le> b"
  using assms by (auto simp: process_rewards_and_penalties_def)

lemma early_phases_frame:
  "validators (process_justification_and_finalization X s summary) = validators s"
  "balances (process_justification_and_finalization X s summary) = balances s"
  "validators (process_inactivity_updates X s summary) = validators s"
  "balances (process_inactivity_updates X s summary) = balances s"
  "validators (process_rewards_and_penalties X s summary) = validators s"
  "validators (process_eth1_data_reset X s) = validators s"
  "balances (process_eth1_data_reset X s) = balances s"
  by (simp_all add: process_justification_and_finalization_def process_inactivity_updates_def
      process_rewards_and_penalties_def process_eth1_data_reset_def)

lemma epoch_transition_last_validators:
  "validators (epoch_transition_last P H X summary s) = validators s"
  by (simp add: epoch_transition_last_def Let_def cache_rotate_def
      process_sync_committee_updates_def process_participation_record_updates_def
      process_historical_roots_update_def process_randao_mixes_reset_def
      process_slashings_reset_def)

lemma epoch_transition_first_frame:
  assumes "epoch_transition_first P H X s = Inr (t, summary)"
    and "\<forall>b\<in>set (balances s). 0 \<le> b"
  shows "map effectiveBalance (validators t) = map effectiveBalance (validators s)"
    and "\<forall>b\<in>set (balances t). 0 \<le> b"
    and "flat_balances summary = None"
proof -
  let ?fork = "getForkName H (slot s)"
  from assms(1) obtain ep where ep: "beforeProcessEpoch P H s = Inr ep"
    by (auto simp: epoch_transition_first_def split: sum.splits)
  let ?sum = "flatSummary ep (validators s)"
  let ?s1 = "process_justification_and_finalization X s ?sum"
  let ?s2 = "if ?fork = altair then process_inactivity_updates X ?s1 ?sum else ?s1"
  let ?s3 = "process_rewards_and_penalties X ?s2 ?sum"
  have unf: "epoch_transition_first P H X s =
      (case processRegistryUpdates (epoch_helpers H X) ?s3 ?sum of
         Inl e \<Rightarrow> Inl e
       | Inr s4 \<Rightarrow>
           (case processSlashingsAllForks P (epoch_helpers H X) ?fork s4 ?sum of
              Inl e \<Rightarrow> Inl e
            | Inr s5 \<Rightarrow> Inr (process_eth1_data_reset X s5, ?sum)))"
    unfolding epoch_transition_first_def ep sum.case Let_def by (rule refl)
  from assms(1) obtain s4 where
    reg: "processRegistryUpdates (epoch_helpers H X) ?s3 ?sum = Inr s4"
    unfolding unf by (cases "processRegistryUpdates (epoch_helpers H X) ?s3 ?sum") simp_all
  from assms(1) obtain s5 where
    sl: "processSlashingsAllForks P (epoch_helpers H X) ?fork s4 ?sum = Inr s5"
    unfolding unf reg sum.case
    by (cases "processSlashingsAllForks P (epoch_helpers H X) ?fork s4 ?sum") simp_all
  from assms(1) have t: "t = process_eth1_data_reset X s5" and sum: "summary = ?sum"
    unfolding unf reg sl sum.case by simp_all
  show "flat_balances summary = None" by (simp add: sum flatSummary_def)
  have hx: "initiateValidatorExit (epoch_helpers H X) = initiate_validator_exit X"
    "decreaseBalance (epoch_helpers H X) = saturatingDecrease"
    by (simp_all add: epoch_helpers_def)
  have v3: "validators ?s3 = validators s" by (simp add: early_phases_frame)
  have b2: "balances ?s2 = balances s" by (simp add: early_phases_frame)
  have b3: "\<forall>b\<in>set (balances ?s3). 0 \<le> b"
    by (rule rewards_nonneg) (simp add: b2 assms(2))
  have v4: "map effectiveBalance (validators s4) = map effectiveBalance (validators ?s3)"
    by (rule processRegistryUpdates_effectiveBalance [OF _ reg])
       (simp add: hx initiate_validator_exit_frame)
  have b4: "balances s4 = balances ?s3"
    by (rule processRegistryUpdates_balances [OF _ reg])
       (simp add: hx initiate_validator_exit_frame)
  have v5: "validators s5 = validators s4"
    by (rule processSlashings_validators [OF _ sl]) (simp add: hx saturatingDecrease_frame)
  have b5: "\<forall>b\<in>set (balances s5). 0 \<le> b"
  proof (rule processSlashings_balances_nonneg [OF _ sl])
    show "\<forall>b\<in>set (balances s4). 0 \<le> b" using b3 by (simp only: b4)
  next
    fix u i d u'
    assume "decreaseBalance (epoch_helpers H X) u i d = Inr u'" "\<forall>b\<in>set (balances u). 0 \<le> b"
    then show "\<forall>b\<in>set (balances u'). 0 \<le> b"
      unfolding hx by (rule saturatingDecrease_frame(2))
  qed
  show "map effectiveBalance (validators t) = map effectiveBalance (validators s)"
    using v4 by (simp add: t early_phases_frame v5 v3)
  show "\<forall>b\<in>set (balances t). 0 \<le> b"
    using b5 by (simp add: t early_phases_frame)
qed

lemma ok_by_map:
  "(\<forall>v\<in>set vs. effective_balance_ok P (effectiveBalance v)) =
   (\<forall>e\<in>set (map effectiveBalance vs). effective_balance_ok P e)"
  by simp

lemma epoch_scenario_summary:
  "beforeProcessEpoch scenario_params (scenario_helpers altair) epoch_scenario_state =
     Inr \<lparr>prevEpoch = 9, currentEpoch = 10, totalActiveStake = 32000000000,
          baseRewardPerIncrement = 0,
          prevEpochUnslashedStake =
            \<lparr>sourceStake = 1000000000, targetStake = 1000000000, headStake = 1000000000\<rparr>,
          currEpochUnslashedTargetStake = 1000000000,
          indicesToSlash = [], indicesEligibleForActivationQueue = [],
          indicesEligibleForActivation = [], indicesToEject = [],
          nextEpochActiveValidatorIndices = [0],
          statusesFlat = [\<lparr>flags = {FLAG_UNSLASHED, FLAG_ELIGIBLE_ATTESTER}, active = True\<rparr>],
          balancesFlat = [31740000000]\<rparr>"
proof -
  have scan: "scanValidators scenario_params (scenario_helpers altair) 9 10
                [scenario_validator 32000000000] =
     \<lparr>scan_indicesToSlash = [],
      scan_indicesEligibleForActivationQueue = [],
      scan_indicesEligibleForActivation = [],
      scan_indicesToEject = [],
      scan_nextEpochActiveValidatorIndices = [0],
      scan_statuses = [\<lparr>flags = {FLAG_UNSLASHED, FLAG_ELIGIBLE_ATTESTER}, active = True\<rparr>],
      scan_totalActiveStake = 32000000000\<rparr>"
    by (simp add: scanValidators_def indexed_def scenario_validator_def scenario_params_def
        scenario_helpers_def scanInit_def scanValidator_def scanSlashed_def scanRegistry_def
        createIAttesterStatus_def intDiv_def Let_def insert_commute)
  have ctx: "getForkName (scenario_helpers altair) (slot epoch_scenario_state) = altair"
    "currentShuffling_epoch (epochCtx epoch_scenario_state) = 10"
    "previousShuffling_epoch (epochCtx epoch_scenario_state) = 9"
    "validators epoch_scenario_state = [scenario_validator 32000000000]"
    "previousEpochParticipation epoch_scenario_state = []"
    "currentEpochParticipation epoch_scenario_state = []"
    "balances epoch_scenario_state = [31740000000]"
    "EFFECTIVE_BALANCE_INCREMENT scenario_params = 1000000000"
    "computeBaseRewardPerIncrement (scenario_helpers altair) = (\<lambda>_. 0)"
    by (simp_all add: epoch_scenario_state_def scenario_state_def scenario_helpers_def
        scenario_params_def)
  show ?thesis
    unfolding beforeProcessEpoch_def ctx Let_def scan ScanLocals.simps
    by (simp add: ctx attributeParticipation_def forEachStatus_def indexed_def floorAt_def
        sortBy_def sumStake_def addStake_def hasMarkers_def lookup_def)
qed

lemma epoch_scenario_first:
  "epoch_transition_first scenario_params (scenario_helpers altair) scenario_subphases
     epoch_scenario_state =
   Inr (epoch_scenario_state,
        flatSummary
          (projr (beforeProcessEpoch scenario_params (scenario_helpers altair)
                    epoch_scenario_state))
          (validators epoch_scenario_state))"
proof -
  have ctx: "getForkName (scenario_helpers altair) (slot epoch_scenario_state) = altair"
    by (simp add: scenario_helpers_def)
  have st: "epoch_scenario_state =
      \<lparr>slot = 351, validators = [scenario_validator 32000000000], balances = [31740000000],
       slashings = [], finalizedCheckpoint_epoch = 8,
       previousEpochParticipation = [], currentEpochParticipation = [],
       epochCtx = \<lparr>currentShuffling_epoch = 10, previousShuffling_epoch = 9,
                   effectiveBalances = [effectiveBalance (scenario_validator 32000000000)],
                   churnLimit = 4\<rparr>\<rparr>"
    by (simp add: epoch_scenario_state_def scenario_state_def)
  show ?thesis
    unfolding epoch_transition_first_def epoch_scenario_summary sum.case sum.sel ctx Let_def
    by (simp add: st flatSummary_def process_justification_and_finalization_def
        process_inactivity_updates_def process_rewards_and_penalties_def
        process_eth1_data_reset_def scenario_subphases_def indexed_def
        processRegistryUpdates_def processSlashingsAllForks_def)
qed

lemma epoch_scenario_update:
  "processEffectiveBalanceUpdates scenario_params epoch_scenario_state
     (flatSummary
        (projr (beforeProcessEpoch scenario_params (scenario_helpers altair)
                  epoch_scenario_state))
        (validators epoch_scenario_state)) =
   Inr (epoch_scenario_state\<lparr>validators := [scenario_validator 31000000000]\<rparr>)"
  unfolding epoch_scenario_summary sum.sel
  by (simp add: processEffectiveBalanceUpdates_def scenario_params_def epoch_scenario_state_def
      scenario_state_def flatSummary_def scenario_validator_def bigint_div_def bigint_rem_def
      indexed_def effectiveBalanceUpdate_def lookup_def Let_def bigIntMin_def updateValidator_def)

lemma epoch_scenario_run:
  "epoch_transition scenario_params (scenario_helpers altair) scenario_subphases
     epoch_scenario_state =
   Inr (epoch_scenario_state\<lparr>validators := [scenario_validator 31000000000]\<rparr>)"
proof -
  have ctx: "\<And>vs. getForkName (scenario_helpers altair)
                    (slot (epoch_scenario_state\<lparr>validators := vs\<rparr>)) = altair"
    by (simp add: scenario_helpers_def)
  show ?thesis
    unfolding epoch_transition_def epoch_scenario_first sum.case prod.case epoch_scenario_update
    by (simp add: epoch_transition_last_def ctx Let_def cache_rotate_def
        process_sync_committee_updates_def process_participation_record_updates_def
        process_historical_roots_update_def process_randao_mixes_reset_def
        process_slashings_reset_def scenario_subphases_def epoch_scenario_state_def
        scenario_state_def)
qed

lemma effectiveBalanceUpdates_form:
  assumes "0 < EFFECTIVE_BALANCE_INCREMENT P"
    and "\<forall>b\<in>set (balancesRead s ep). 0 \<le> b"
    and "processEffectiveBalanceUpdates P s ep = Inr s'"
  shows "length (validators s') = length (validators s) \<and>
         (\<forall>j<length (validators s).
            effectiveBalance (validators s' ! j) = effectiveBalance (validators s ! j) \<or>
            (\<exists>b\<in>set (balancesRead s ep).
               effectiveBalance (validators s' ! j) =
                 min (b - b mod EFFECTIVE_BALANCE_INCREMENT P) (MAX_EFFECTIVE_BALANCE P)))"
proof -
  let ?Inv = "\<lambda>t. length (validators t) = length (validators s) \<and>
         (\<forall>j<length (validators s).
            effectiveBalance (validators t ! j) = effectiveBalance (validators s ! j) \<or>
            (\<exists>b\<in>set (balancesRead s ep).
               effectiveBalance (validators t ! j) =
                 min (b - b mod EFFECTIVE_BALANCE_INCREMENT P) (MAX_EFFECTIVE_BALANCE P)))"
  from assms(3) obtain h where
    run: "forEach (effectiveBalanceUpdate P (h * HYSTERESIS_DOWNWARD_MULTIPLIER P)
            (h * HYSTERESIS_UPWARD_MULTIPLIER P) ep) (indexed (balancesRead s ep)) s = Inr s'"
    by (auto simp: processEffectiveBalanceUpdates_def Let_def balancesRead_def split: sum.splits)
  show ?thesis
  proof (rule forEach_invariant [OF run, where Inv = ?Inv])
    show "?Inv s" by simp
  next
    fix x t t'
    assume x: "x \<in> set (indexed (balancesRead s ep))"
      and inv: "?Inv t"
      and step: "effectiveBalanceUpdate P (h * HYSTERESIS_DOWNWARD_MULTIPLIER P)
            (h * HYSTERESIS_UPWARD_MULTIPLIER P) ep x t = Inr t'"
    from x have mem: "snd x \<in> set (balancesRead s ep)"
      by (metis indexed_def prod.collapse set_zip_rightD)
    with assms(2) have nn: "0 \<le> snd x" by simp
    from step have step': "effectiveBalanceUpdate P (h * HYSTERESIS_DOWNWARD_MULTIPLIER P)
            (h * HYSTERESIS_UPWARD_MULTIPLIER P) ep (fst x, snd x) t = Inr t'" by simp
    from effectiveBalanceUpdate_cases [OF assms(1) nn step'] consider (same) "t' = t"
      | (upd) "fst x < length (validators t)"
          "t' = t\<lparr>validators := (validators t)
                [fst x := (validators t ! fst x)\<lparr>effectiveBalance :=
                   spec_new_effective_balance P (snd x)\<rparr>]\<rparr>"
      by blast
    then show "?Inv t'"
    proof cases
      case same
      with inv show ?thesis by simp
    next
      case upd
      have len: "length (validators t') = length (validators s)"
        using inv by (simp add: upd(2))
      have "effectiveBalance (validators t' ! j) = effectiveBalance (validators s ! j) \<or>
            (\<exists>b\<in>set (balancesRead s ep).
               effectiveBalance (validators t' ! j) =
                 min (b - b mod EFFECTIVE_BALANCE_INCREMENT P) (MAX_EFFECTIVE_BALANCE P))"
        if j: "j < length (validators s)" for j
      proof (cases "j = fst x")
        case True
        have "effectiveBalance (validators t' ! j) = spec_new_effective_balance P (snd x)"
          using upd(1) by (simp add: upd(2) True)
        then show ?thesis
          using mem unfolding spec_new_effective_balance_def by blast
      next
        case False
        have "validators t' ! j = validators t ! j"
          using False by (simp add: upd(2))
        with inv j show ?thesis by simp
      qed
      with len show ?thesis by blast
    qed
  qed
qed

text \<open>
  Claim C7. If every effective balance of the pre-state lies between 0 and
  \<open>MAX_EFFECTIVE_BALANCE\<close> and is a multiple of \<open>EFFECTIVE_BALANCE_INCREMENT\<close>, then so
  does every effective balance of the post-state of the epoch transition. The sub-phases
  before \<open>processEffectiveBalanceUpdates\<close> leave every effective balance as it was, that
  sub-phase writes only values \<open>min(b - (b mod increment), MAX_EFFECTIVE_BALANCE)\<close>, and
  the sub-phases after it leave the validators as they were. Balances are unsigned, the
  increment is positive and divides \<open>MAX_EFFECTIVE_BALANCE\<close>.
\<close>

theorem epoch_transition_effective_balance_bounds:
  "(0 < EFFECTIVE_BALANCE_INCREMENT P \<and> effective_balance_ok P (MAX_EFFECTIVE_BALANCE P) \<and>
    (\<forall>b\<in>set (balancesRead s ep). 0 \<le> b) \<and>
    (\<forall>v\<in>set (validators s). effective_balance_ok P (effectiveBalance v)) \<and>
    processEffectiveBalanceUpdates P s ep = Inr s' \<longrightarrow>
    (\<forall>v\<in>set (validators s'). effective_balance_ok P (effectiveBalance v))) \<and>
   (0 < EFFECTIVE_BALANCE_INCREMENT P \<and> effective_balance_ok P (MAX_EFFECTIVE_BALANCE P) \<and>
    (\<forall>b\<in>set (balances r). 0 \<le> b) \<and>
    (\<forall>v\<in>set (validators r). effective_balance_ok P (effectiveBalance v)) \<and>
    epoch_transition P H X r = Inr r' \<longrightarrow>
    (\<forall>v\<in>set (validators r'). effective_balance_ok P (effectiveBalance v)) \<and>
    (\<exists>t summary t'.
        epoch_transition_first P H X r = Inr (t, summary) \<and>
        map effectiveBalance (validators t) = map effectiveBalance (validators r) \<and>
        processEffectiveBalanceUpdates P t summary = Inr t' \<and>
        (\<forall>j<length (validators t).
           effectiveBalance (validators t' ! j) = effectiveBalance (validators t ! j) \<or>
           (\<exists>b\<in>set (balances t).
              effectiveBalance (validators t' ! j) =
                min (b - b mod EFFECTIVE_BALANCE_INCREMENT P) (MAX_EFFECTIVE_BALANCE P))) \<and>
        validators r' = validators t'))"
proof (intro conjI impI)
  assume "0 < EFFECTIVE_BALANCE_INCREMENT P \<and> effective_balance_ok P (MAX_EFFECTIVE_BALANCE P) \<and>
    (\<forall>b\<in>set (balancesRead s ep). 0 \<le> b) \<and>
    (\<forall>v\<in>set (validators s). effective_balance_ok P (effectiveBalance v)) \<and>
    processEffectiveBalanceUpdates P s ep = Inr s'"
  then show "\<forall>v\<in>set (validators s'). effective_balance_ok P (effectiveBalance v)"
    using effectiveBalanceUpdates_ok [of P s ep s'] by blast
next
  assume h: "0 < EFFECTIVE_BALANCE_INCREMENT P \<and> effective_balance_ok P (MAX_EFFECTIVE_BALANCE P) \<and>
    (\<forall>b\<in>set (balances r). 0 \<le> b) \<and>
    (\<forall>v\<in>set (validators r). effective_balance_ok P (effectiveBalance v)) \<and>
    epoch_transition P H X r = Inr r'"
  then have inc: "0 < EFFECTIVE_BALANCE_INCREMENT P"
    and mx: "effective_balance_ok P (MAX_EFFECTIVE_BALANCE P)"
    and nn: "\<forall>b\<in>set (balances r). 0 \<le> b"
    and pre: "\<forall>v\<in>set (validators r). effective_balance_ok P (effectiveBalance v)"
    and run: "epoch_transition P H X r = Inr r'"
    by blast+
  from run obtain t summary where
    first: "epoch_transition_first P H X r = Inr (t, summary)"
    by (cases "epoch_transition_first P H X r") (auto simp: epoch_transition_def)
  from run obtain t' where
    upd: "processEffectiveBalanceUpdates P t summary = Inr t'"
    unfolding epoch_transition_def first sum.case prod.case
    by (cases "processEffectiveBalanceUpdates P t summary") simp_all
  from run have r': "r' = epoch_transition_last P H X summary t'"
    unfolding epoch_transition_def first sum.case prod.case upd by simp
  note frame = epoch_transition_first_frame [OF first nn]
  have same: "map effectiveBalance (validators t) = map effectiveBalance (validators r)"
    by (rule frame(1))
  have "\<forall>v\<in>set (validators t). effective_balance_ok P (effectiveBalance v)"
    using pre unfolding ok_by_map same .
  moreover have "\<forall>b\<in>set (balancesRead t summary). 0 \<le> b"
    using frame(2) by (simp add: balancesRead_def frame(3))
  ultimately have post: "\<forall>v\<in>set (validators t'). effective_balance_ok P (effectiveBalance v)"
    using effectiveBalanceUpdates_ok [OF inc mx _ _ upd] by blast
  have last: "validators r' = validators t'"
    by (simp add: r' epoch_transition_last_validators)
  show "\<forall>v\<in>set (validators r'). effective_balance_ok P (effectiveBalance v)"
    using post by (simp only: last)
  have br: "balancesRead t summary = balances t"
    by (simp add: balancesRead_def frame(3))
  have nn': "\<forall>b\<in>set (balancesRead t summary). 0 \<le> b"
    using frame(2) by (simp add: br)
  have form: "\<forall>j<length (validators t).
           effectiveBalance (validators t' ! j) = effectiveBalance (validators t ! j) \<or>
           (\<exists>b\<in>set (balances t).
              effectiveBalance (validators t' ! j) =
                min (b - b mod EFFECTIVE_BALANCE_INCREMENT P) (MAX_EFFECTIVE_BALANCE P))"
    using effectiveBalanceUpdates_form [OF inc nn' upd] unfolding br by blast
  show "\<exists>t summary t'.
        epoch_transition_first P H X r = Inr (t, summary) \<and>
        map effectiveBalance (validators t) = map effectiveBalance (validators r) \<and>
        processEffectiveBalanceUpdates P t summary = Inr t' \<and>
        (\<forall>j<length (validators t).
           effectiveBalance (validators t' ! j) = effectiveBalance (validators t ! j) \<or>
           (\<exists>b\<in>set (balances t).
              effectiveBalance (validators t' ! j) =
                min (b - b mod EFFECTIVE_BALANCE_INCREMENT P) (MAX_EFFECTIVE_BALANCE P))) \<and>
        validators r' = validators t'"
    using first same upd form last by blast
qed

theorem epoch_transition_effective_balance_bounds_witness:
  "(\<exists>s'. processEffectiveBalanceUpdates scenario_params
            (scenario_state [scenario_validator 32000000000] [31740000000])
            (scenario_summary [scenario_validator 32000000000]) = Inr s' \<and>
          effective_balance_ok scenario_params (effectiveBalance (validators s' ! 0)) \<and>
          effectiveBalance (validators s' ! 0) = 31000000000) \<and>
   (\<exists>r'. epoch_transition scenario_params (scenario_helpers altair) scenario_subphases
            epoch_scenario_state = Inr r' \<and>
          effective_balance_ok scenario_params (effectiveBalance (validators r' ! 0)) \<and>
          effectiveBalance (validators r' ! 0) = 31000000000)"
proof -
  let ?s = "scenario_state [scenario_validator 32000000000] [31740000000]"
  let ?ep = "scenario_summary [scenario_validator 32000000000]"
  let ?s' = "?s\<lparr>validators := [scenario_validator 31000000000]\<rparr>"
  let ?r' = "epoch_scenario_state\<lparr>validators := [scenario_validator 31000000000]\<rparr>"
  have h1: "0 < EFFECTIVE_BALANCE_INCREMENT scenario_params"
    by (simp add: scenario_params_def)
  have h2: "effective_balance_ok scenario_params (MAX_EFFECTIVE_BALANCE scenario_params)"
    by (simp add: scenario_params_def effective_balance_ok_def)
  have h3: "\<forall>b\<in>set (balancesRead ?s ?ep). 0 \<le> b"
    by (simp add: balancesRead_def scenario_summary_def scenario_state_def)
  have h4: "\<forall>v\<in>set (validators ?s). effective_balance_ok scenario_params (effectiveBalance v)"
    by (simp add: scenario_state_def scenario_validator_def scenario_params_def
        effective_balance_ok_def)
  have h5: "\<forall>b\<in>set (balances epoch_scenario_state). 0 \<le> b"
    by (simp add: epoch_scenario_state_def scenario_state_def)
  have h6: "\<forall>v\<in>set (validators epoch_scenario_state).
              effective_balance_ok scenario_params (effectiveBalance v)"
    by (simp add: epoch_scenario_state_def scenario_state_def scenario_validator_def
        scenario_params_def effective_balance_ok_def)
  have e: "effectiveBalance (scenario_validator 31000000000) = 31000000000"
    by (simp add: scenario_validator_def)
  have "\<forall>v\<in>set (validators ?s'). effective_balance_ok scenario_params (effectiveBalance v)"
    using epoch_transition_effective_balance_bounds [of scenario_params ?s ?ep ?s']
      h1 h2 h3 h4 scenario_hysteresis_drop by blast
  then have "effective_balance_ok scenario_params (effectiveBalance (validators ?s' ! 0))"
    by simp
  moreover have "effectiveBalance (validators ?s' ! 0) = 31000000000"
    by (simp add: e)
  ultimately have a: "\<exists>s'. processEffectiveBalanceUpdates scenario_params ?s ?ep = Inr s' \<and>
          effective_balance_ok scenario_params (effectiveBalance (validators s' ! 0)) \<and>
          effectiveBalance (validators s' ! 0) = 31000000000"
    using scenario_hysteresis_drop by blast
  have "\<forall>v\<in>set (validators ?r'). effective_balance_ok scenario_params (effectiveBalance v)"
    using epoch_transition_effective_balance_bounds
      [of scenario_params _ _ _ epoch_scenario_state "scenario_helpers altair"
          scenario_subphases ?r']
      h1 h2 h5 h6 epoch_scenario_run by blast
  then have "effective_balance_ok scenario_params (effectiveBalance (validators ?r' ! 0))"
    by simp
  moreover have "effectiveBalance (validators ?r' ! 0) = 31000000000"
    by (simp add: e)
  ultimately have b: "\<exists>r'. epoch_transition scenario_params (scenario_helpers altair)
            scenario_subphases epoch_scenario_state = Inr r' \<and>
          effective_balance_ok scenario_params (effectiveBalance (validators r' ! 0)) \<and>
          effectiveBalance (validators r' ! 0) = 31000000000"
    using epoch_scenario_run by blast
  from a b show ?thesis by blast
qed

end
